theory Spec2Isabelle
  imports Complex_Main "HOL-Library.Char_ord" "HOL-Library.List_Lexorder" "HOL-Library.Log_Nat"
begin

unbundle bit_operations_syntax

section \<open>Numbers and strings\<close>

text \<open>
  The engine is TypeScript; every quantity is a JavaScript number. Quantities that the
  code only ever combines by integer addition, subtraction and \<open>Math.floor\<close> (funds, costs,
  revenue, calendar, identifiers) are \<open>int\<close>; array indices are \<open>nat\<close>; fractional
  quantities (train progress and speed, research points, growth rates, noise values) are
  \<open>real\<close> numbers that stand for doubles: an operation of the code that can round is
  followed by \<open>dbl\<close>, the rounding to the nearest double of the section on double-precision
  arithmetic below. \<open>Math.floor\<close> is \<open>\<lfloor>_\<rfloor>\<close>.

  Template literals render numbers in decimal. \<open>show_nat\<close> and \<open>show_int\<close> are that rendering
  for integers (the exponent notation JavaScript switches to from \<open>1e21\<close> on is out of range
  of every value the engine produces).
\<close>

definition digit_char :: "nat \<Rightarrow> char" where
  "digit_char d = ''0123456789'' ! d"

function show_nat :: "nat \<Rightarrow> string" where
  "show_nat n = (if n < 10 then [digit_char n] else show_nat (n div 10) @ [digit_char (n mod 10)])"
  by pat_completeness auto
termination
  by (relation "measure (\<lambda>n. n)") auto

declare show_nat.simps [simp del]

definition show_int :: "int \<Rightarrow> string" where
  "show_int i = (if i < 0 then CHR ''-'' # show_nat (nat (- i)) else show_nat (nat i))"

text \<open>
  \<open>Number(s)\<close> on the spellings \<open>show_int\<close> produces: an optional minus sign followed by
  decimal digits. Any other spelling is \<open>None\<close> here (JavaScript would give \<open>NaN\<close> or
  accept further notations; no key built by \<open>hexKey\<close> has one).
\<close>

definition digit_val :: "char \<Rightarrow> nat option" where
  "digit_val c = (if c \<in> set ''0123456789'' then Some (of_char c - 48) else None)"

fun parse_digits :: "nat \<Rightarrow> string \<Rightarrow> nat option" where
  "parse_digits acc [] = Some acc"
| "parse_digits acc (c # cs) =
     (case digit_val c of None \<Rightarrow> None | Some d \<Rightarrow> parse_digits (acc * 10 + d) cs)"

definition parse_nat :: "string \<Rightarrow> nat option" where
  "parse_nat s = (if s = [] then None else parse_digits 0 s)"

definition parse_int :: "string \<Rightarrow> int option" where
  "parse_int s =
     (case s of
        [] \<Rightarrow> None
      | c # cs \<Rightarrow>
          if c = CHR ''-'' then map_option (\<lambda>n. - int n) (parse_nat cs)
          else map_option int (parse_nat s))"

text \<open>\<open>s.split(',')\<close>: the pieces of \<open>s\<close> between commas, in order.\<close>

fun split_comma :: "string \<Rightarrow> string list" where
  "split_comma [] = [[]]"
| "split_comma (c # cs) =
     (if c = CHR '','' then [] # split_comma cs
      else (case split_comma cs of p # ps \<Rightarrow> (c # p) # ps | [] \<Rightarrow> [[c]]))"

section \<open>Double-precision arithmetic\<close>

text \<open>
  A JavaScript number is an IEEE 754 double. \<open>dbl x\<close> is the double nearest to the real
  number \<open>x\<close>, a tie going to the even significand: with \<open>e\<close> the exponent of \<open>x\<close>, that is
  \<open>2 ^ e \<le> \<bar>x\<bar> < 2 ^ (e + 1)\<close>, the doubles around \<open>x\<close> are the multiples of \<open>2 ^ (e - 52)\<close>.
  The operators \<open>+\<close>, \<open>-\<close>, \<open>*\<close>, \<open>/\<close> and \<open>Math.sqrt\<close> return \<open>dbl\<close> of the exact result, and a
  decimal literal denotes \<open>dbl\<close> of its decimal value. The exponent is not bounded here:
  overflow to \<open>Infinity\<close> and the subnormal numbers below \<open>2 ^ -1022\<close> are outside the model.
\<close>

definition round_even :: "real \<Rightarrow> int" where
  "round_even y =
     (let f = \<lfloor>y\<rfloor>; d = y - real_of_int f
      in if d < 1 / 2 then f else if 1 / 2 < d then f + 1 else if even f then f else f + 1)"

definition dbl :: "real \<Rightarrow> real" where
  "dbl x =
     (if x = 0 then 0
      else let u = 2 powr (real_of_int \<lfloor>log 2 \<bar>x\<bar>\<rfloor> - 52)
           in real_of_int (round_even (x / u)) * u)"

text \<open>
  The same function in a form that computes: \<open>pow2 k\<close> is \<open>2 ^ k\<close> for an integer \<open>k\<close>, and
  \<open>ilog2 x\<close> is the exponent of a positive \<open>x\<close>, read off the bit length of \<open>\<lfloor>x\<rfloor>\<close> or of
  \<open>\<lfloor>1 / x\<rfloor>\<close>.
\<close>

definition pow2 :: "int \<Rightarrow> real" where
  "pow2 k = (if 0 \<le> k then 2 ^ nat k else 1 / 2 ^ nat (- k))"

definition ilog2 :: "real \<Rightarrow> int" where
  "ilog2 x =
     (if 1 \<le> x then bitlen \<lfloor>x\<rfloor> - 1
      else let k = bitlen \<lfloor>1 / x\<rfloor> - 1
           in if x * 2 ^ nat k = 1 then - k else - k - 1)"

lemma pow2_powr: "pow2 k = 2 powr real_of_int k"
proof (cases "0 \<le> k")
  case True
  then have "real_of_int k = real (nat k)" by simp
  then have "2 powr real_of_int k = 2 powr real (nat k)" by (simp only:)
  also have "\<dots> = 2 ^ nat k" by (simp add: powr_realpow)
  finally show ?thesis using True by (simp add: pow2_def)
next
  case False
  then have "real_of_int k = - real (nat (- k))" by simp
  then have "2 powr real_of_int k = 2 powr (- real (nat (- k)))" by (simp only:)
  also have "\<dots> = inverse (2 powr real (nat (- k)))" by (rule powr_minus)
  also have "\<dots> = 1 / 2 ^ nat (- k)" by (simp add: powr_realpow divide_inverse)
  finally show ?thesis using False by (simp add: pow2_def)
qed

lemma pow2_Suc: "pow2 (e + 1) = 2 * pow2 e"
  by (simp add: pow2_powr powr_add)

lemma pow2_neg: "pow2 (- int k) = 1 / 2 ^ k"
  by (cases k) (simp_all add: pow2_def nat_add_distrib)

lemma floor_log2_unique:
  assumes "0 < x" "pow2 e \<le> x" "x < pow2 (e + 1)"
  shows "\<lfloor>log 2 x\<rfloor> = e"
proof (rule floor_unique)
  from assms show "real_of_int e \<le> log 2 x"
    by (simp add: pow2_powr le_log_iff)
  from assms have "x < 2 powr (real_of_int e + 1)" by (simp add: pow2_powr)
  with assms(1) show "log 2 x < real_of_int e + 1"
    by (simp add: log_less_iff)
qed

lemma ilog2_bounds:
  assumes "0 < x"
  shows "pow2 (ilog2 x) \<le> x \<and> x < pow2 (ilog2 x + 1)"
proof (cases "1 \<le> x")
  case True
  define n where "n = \<lfloor>x\<rfloor>"
  have n: "1 \<le> n" using True by (simp add: n_def)
  then have b: "2 ^ nat (bitlen n - 1) \<le> n" "n < 2 ^ nat (bitlen n)"
    using bitlen_bounds [of n] by auto
  have pos: "1 \<le> bitlen n" using n by (simp add: bitlen_def floorlog_def)
  have "real_of_int n \<le> x" "x < real_of_int n + 1" by (simp_all add: n_def)
  moreover have "(2::real) ^ nat (bitlen n - 1) \<le> real_of_int n"
  proof -
    from b(1) show ?thesis
      using of_int_le_iff [of "2 ^ nat (bitlen n - 1)" n, where 'a = real] by simp
  qed
  moreover have "real_of_int n + 1 \<le> 2 ^ nat (bitlen n)"
  proof -
    from b(2) have "n + 1 \<le> 2 ^ nat (bitlen n)" by simp
    then have "real_of_int (n + 1) \<le> real_of_int (2 ^ nat (bitlen n))" by (simp only: of_int_le_iff)
    then show ?thesis by simp
  qed
  ultimately have "2 ^ nat (bitlen n - 1) \<le> x" "x < 2 ^ nat (bitlen n)" by linarith+
  moreover have "ilog2 x = bitlen n - 1" using True by (simp add: ilog2_def n_def)
  ultimately show ?thesis using pos by (simp add: pow2_def)
next
  case False
  define y where "y = 1 / x"
  define m where "m = \<lfloor>y\<rfloor>"
  define k where "k = nat (bitlen m - 1)"
  from False assms have y: "1 < y" by (simp add: y_def)
  then have m: "1 \<le> m" by (simp add: m_def)
  then have b: "2 ^ nat (bitlen m - 1) \<le> m" "m < 2 ^ nat (bitlen m)"
    using bitlen_bounds [of m] by auto
  have pos: "1 \<le> bitlen m" using m by (simp add: bitlen_def floorlog_def)
  then have bk: "bitlen m - 1 = int k" "nat (bitlen m) = Suc k" by (simp_all add: k_def)
  have my: "real_of_int m \<le> y" "y < real_of_int m + 1" by (simp_all add: m_def)
  from b bk have b': "2 ^ k \<le> m" "m < 2 ^ Suc k" by simp_all
  have lo: "(2::real) ^ k \<le> y"
  proof -
    from b'(1) have "(2::real) ^ k \<le> real_of_int m"
      using of_int_le_iff [of "2 ^ k" m, where 'a = real] by simp
    with my show ?thesis by linarith
  qed
  have hi: "y < 2 ^ Suc k"
  proof -
    from b'(2) have "m + 1 \<le> 2 ^ Suc k" by simp
    then have "real_of_int (m + 1) \<le> real_of_int (2 ^ Suc k)" by (simp only: of_int_le_iff)
    with my show ?thesis by simp
  qed
  have x: "x = 1 / y" using assms by (simp add: y_def)
  have xlo: "1 / 2 ^ Suc k < x"
    unfolding x using hi y by (simp add: field_simps)
  have xhi: "x \<le> 1 / 2 ^ k"
    unfolding x using lo y by (simp add: field_simps)
  have il: "ilog2 x = (if x * 2 ^ k = 1 then - int k else - int k - 1)"
    using False by (simp add: ilog2_def Let_def y_def [symmetric] m_def [symmetric] bk k_def [symmetric])
  have pk: "pow2 (- int k) = 1 / 2 ^ k" by (rule pow2_neg)
  show ?thesis
  proof (cases "x * 2 ^ k = 1")
    case True
    then have xe: "x = 1 / 2 ^ k" by (simp add: field_simps)
    have "pow2 (- int k + 1) = 2 * x" unfolding pow2_Suc pk xe by simp
    with assms have "x < pow2 (- int k + 1)" by linarith
    moreover have "pow2 (- int k) \<le> x" unfolding pk xe by simp
    moreover have "ilog2 x = - int k" using il True by simp
    ultimately show ?thesis by simp
  next
    case neq: False
    have e: "ilog2 x = - int k - 1" using il neq by simp
    have "x \<noteq> 1 / 2 ^ k" using neq by (auto simp: field_simps)
    with xhi have "x < 1 / 2 ^ k" by linarith
    moreover have "pow2 (- int k - 1 + 1) = 1 / 2 ^ k" using pk by simp
    moreover have "pow2 (- int k - 1) = 1 / 2 ^ Suc k"
    proof -
      have "pow2 (- int k - 1 + 1) = 2 * pow2 (- int k - 1)" by (rule pow2_Suc)
      then have "2 * pow2 (- int k - 1) = 1 / 2 ^ k" using pk by simp
      then show ?thesis by simp
    qed
    ultimately show ?thesis unfolding e using xlo by simp
  qed
qed

lemma dbl_code [code]:
  "dbl x =
     (if x = 0 then 0
      else let u = pow2 (ilog2 \<bar>x\<bar> - 52)
           in real_of_int (round_even (x / u)) * u)"
proof (cases "x = 0")
  case True
  then show ?thesis by (simp add: dbl_def)
next
  case False
  then have "0 < \<bar>x\<bar>" by simp
  from ilog2_bounds [OF this] have "\<lfloor>log 2 \<bar>x\<bar>\<rfloor> = ilog2 \<bar>x\<bar>"
    using floor_log2_unique [of "\<bar>x\<bar>" "ilog2 \<bar>x\<bar>"] False by simp
  then show ?thesis using False by (simp add: dbl_def pow2_powr)
qed

section \<open>Hex coordinates (hex.ts)\<close>

record HexCoord =
  q :: int
  r :: int

definition hexKey :: "HexCoord \<Rightarrow> string" where
  "hexKey hex = show_int (q hex) @ '','' @ show_int (r hex)"

text \<open>
  \<open>parseHexKey\<close> destructures the first two pieces of the split key and converts each with
  \<open>Number\<close>. \<open>None\<close> stands for a result with a coordinate that is not an integer
  (\<open>NaN\<close> or \<open>undefined\<close>).
\<close>

definition parseHexKey :: "string \<Rightarrow> HexCoord option" where
  "parseHexKey key =
     (case split_comma key of
        a # b # _ \<Rightarrow>
          (case (parse_int a, parse_int b) of
             (Some x, Some y) \<Rightarrow> Some \<lparr>q = x, r = y\<rparr>
           | _ \<Rightarrow> None)
      | _ \<Rightarrow> None)"

definition HEX_DIRECTIONS :: "HexCoord list" where
  "HEX_DIRECTIONS =
     [\<lparr>q = 1, r = 0\<rparr>, \<lparr>q = 1, r = -1\<rparr>, \<lparr>q = 0, r = -1\<rparr>,
      \<lparr>q = -1, r = 0\<rparr>, \<lparr>q = -1, r = 1\<rparr>, \<lparr>q = 0, r = 1\<rparr>]"

definition hexNeighbors :: "HexCoord \<Rightarrow> HexCoord list" where
  "hexNeighbors hex = map (\<lambda>d. \<lparr>q = q hex + q d, r = r hex + r d\<rparr>) HEX_DIRECTIONS"

text \<open>
  \<open>hexDistance\<close> halves a sum that is even for integer coordinates, so the division is exact.
\<close>

definition hexDistance :: "HexCoord \<Rightarrow> HexCoord \<Rightarrow> int" where
  "hexDistance a b =
     (\<bar>q a - q b\<bar> + \<bar>q a + r a - q b - r b\<bar> + \<bar>r a - r b\<bar>) div 2"

section \<open>Collections\<close>

text \<open>
  A JavaScript \<open>Set\<close> iterates in insertion order and holds each element once: it is a
  list without repetitions, \<open>add\<close> appending an element that is not there yet. A \<open>Map\<close> is an
  association list in insertion order: \<open>set\<close> overwrites the value of a present key in
  place and appends an absent one, \<open>get\<close> is \<open>map_of\<close>, \<open>size\<close> is the length.
\<close>

definition set_add :: "'a \<Rightarrow> 'a list \<Rightarrow> 'a list" where
  "set_add x xs = (if x \<in> set xs then xs else xs @ [x])"

fun map_set :: "'k \<Rightarrow> 'v \<Rightarrow> ('k \<times> 'v) list \<Rightarrow> ('k \<times> 'v) list" where
  "map_set k v [] = [(k, v)]"
| "map_set k v ((k', v') # m) = (if k' = k then (k, v) # m else (k', v') # map_set k v m)"

definition map_has :: "('k \<times> 'v) list \<Rightarrow> 'k \<Rightarrow> bool" where
  "map_has m k = (map_of m k \<noteq> None)"

section \<open>Tech tree (techTree.ts)\<close>

datatype Era = Steam | Diesel | Electric | Maglev

text \<open>
  A \<open>TechEffect\<close> is a type tag with a value that is a train or track name for the two
  unlock tags and a percentage for the four bonus tags; the constructor carries both.
\<close>

datatype TechEffect =
    UnlockTrain string
  | SpeedBonus int
  | CapacityBonus int
  | MaintenanceReduction int
  | RevenueBonus int
  | UnlockTrack string

text \<open>The \<open>icon\<close> and \<open>description\<close> of a technology are display text and are left out.\<close>

record Technology =
  tech_id :: string
  tech_name :: string
  tech_era :: Era
  tech_cost :: int
  prerequisites :: "string list"
  effects :: "TechEffect list"

record ResearchState =
  points :: real
  pointsPerMonth :: real
  unlocked :: "string list"
  currentResearch :: "string option"
  research_progress :: real

definition createResearchState :: ResearchState where
  "createResearchState =
     \<lparr>points = 0, pointsPerMonth = 0, unlocked = [''basic_locomotive''],
      currentResearch = None, research_progress = 0\<rparr>"

definition mk_tech ::
  "string \<Rightarrow> string \<Rightarrow> Era \<Rightarrow> int \<Rightarrow> string list \<Rightarrow> TechEffect list \<Rightarrow> Technology" where
  "mk_tech i n e c ps es =
     \<lparr>tech_id = i, tech_name = n, tech_era = e, tech_cost = c, prerequisites = ps, effects = es\<rparr>"

definition TECH_TREE :: "Technology list" where
  "TECH_TREE =
     [mk_tech ''basic_locomotive'' ''Basic Locomotive'' Steam 0 [] [UnlockTrain ''freight''],
      mk_tech ''passenger_carriages'' ''Passenger Carriages'' Steam 500
        [''basic_locomotive''] [UnlockTrain ''passenger''],
      mk_tech ''mail_coach'' ''Mail Coach'' Steam 400 [''basic_locomotive''] [UnlockTrain ''mail''],
      mk_tech ''improved_boiler'' ''Improved Boiler'' Steam 800
        [''basic_locomotive''] [SpeedBonus 15],
      mk_tech ''diesel_engine'' ''Diesel Engine'' Diesel 1500
        [''improved_boiler''] [UnlockTrain ''mixed''],
      mk_tech ''luxury_carriages'' ''Luxury Carriages'' Diesel 2000
        [''diesel_engine'', ''passenger_carriages''] [UnlockTrain ''luxury''],
      mk_tech ''reinforced_chassis'' ''Reinforced Chassis'' Diesel 1200
        [''diesel_engine''] [CapacityBonus 25],
      mk_tech ''efficient_logistics'' ''Efficient Logistics'' Diesel 1800
        [''diesel_engine''] [MaintenanceReduction 20],
      mk_tech ''electric_motors'' ''Electric Motors'' Electric 3000
        [''diesel_engine''] [UnlockTrain ''express'', UnlockTrack ''electrified''],
      mk_tech ''signal_systems'' ''Signal Systems'' Electric 2500
        [''electric_motors''] [RevenueBonus 20],
      mk_tech ''commuter_networks'' ''Commuter Networks'' Electric 2800
        [''electric_motors'', ''passenger_carriages''] [UnlockTrain ''commuter''],
      mk_tech ''high_speed_rails'' ''High-Speed Rails'' Electric 4000
        [''electric_motors'', ''reinforced_chassis''] [SpeedBonus 30, UnlockTrack ''highspeed''],
      mk_tech ''maglev_technology'' ''Maglev Technology'' Maglev 6000
        [''electric_motors'', ''high_speed_rails''] [UnlockTrain ''bullet''],
      mk_tech ''hyperloop_prototype'' ''Hyperloop Prototype'' Maglev 10000
        [''maglev_technology''] [UnlockTrain ''hyperloop''],
      mk_tech ''quantum_logistics'' ''Quantum Logistics'' Maglev 8000
        [''maglev_technology'', ''signal_systems''] [MaintenanceReduction 30, RevenueBonus 25],
      mk_tech ''neural_networks'' ''Neural Networks'' Maglev 7000
        [''maglev_technology''] [CapacityBonus 40, SpeedBonus 20]]"

definition getTech :: "string \<Rightarrow> Technology option" where
  "getTech i = find (\<lambda>t. tech_id t = i) TECH_TREE"

record ResearchCheck =
  rc_ok :: bool
  rc_reason :: "string option"

text \<open>
  The loop over \<open>tech.prerequisites\<close> returns at the first prerequisite that is not
  unlocked; \<open>find\<close> gives that prerequisite.
\<close>

definition canResearch :: "ResearchState \<Rightarrow> string \<Rightarrow> ResearchCheck" where
  "canResearch state techId =
     (if techId \<in> set (unlocked state) then \<lparr>rc_ok = False, rc_reason = Some ''Already researched''\<rparr>
      else case getTech techId of
        None \<Rightarrow> \<lparr>rc_ok = False, rc_reason = Some ''Unknown technology''\<rparr>
      | Some tech \<Rightarrow>
          (case find (\<lambda>prereq. prereq \<notin> set (unlocked state)) (prerequisites tech) of
             Some prereq \<Rightarrow>
               \<lparr>rc_ok = False,
                rc_reason = Some (''Requires: '' @
                  (case getTech prereq of Some prereqTech \<Rightarrow> tech_name prereqTech | None \<Rightarrow> prereq))\<rparr>
           | None \<Rightarrow>
               if points state < real_of_int (tech_cost tech) then
                 \<lparr>rc_ok = False,
                  rc_reason = Some (''Need '' @ show_int (tech_cost tech) @ '' RP (have '' @
                    show_int \<lfloor>points state\<rfloor> @ '')'')\<rparr>
               else \<lparr>rc_ok = True, rc_reason = None\<rparr>))"

definition unlockTech :: "ResearchState \<Rightarrow> string \<Rightarrow> bool \<times> ResearchState" where
  "unlockTech state techId =
     (if \<not> rc_ok (canResearch state techId) then (False, state)
      else case getTech techId of
        None \<Rightarrow> (False, state)
      | Some tech \<Rightarrow>
          (True, state\<lparr>points := points state - real_of_int (tech_cost tech),
                       unlocked := set_add techId (unlocked state)\<rparr>))"

text \<open>
  The bonus functions visit every unlocked id in insertion order, skip ids that are not in
  the catalog, and visit every effect of the technology found.
\<close>

definition unlocked_effects :: "ResearchState \<Rightarrow> TechEffect list" where
  "unlocked_effects state =
     concat (map (\<lambda>techId. case getTech techId of None \<Rightarrow> [] | Some tech \<Rightarrow> effects tech)
                 (unlocked state))"

definition getUnlockedTrainTypes :: "ResearchState \<Rightarrow> string list" where
  "getUnlockedTrainTypes state =
     concat (map (\<lambda>e. case e of UnlockTrain v \<Rightarrow> [v] | _ \<Rightarrow> []) (unlocked_effects state))"

definition getSpeedBonus :: "ResearchState \<Rightarrow> int" where
  "getSpeedBonus state =
     sum_list (map (\<lambda>e. case e of SpeedBonus v \<Rightarrow> v | _ \<Rightarrow> 0) (unlocked_effects state))"

definition getCapacityBonus :: "ResearchState \<Rightarrow> int" where
  "getCapacityBonus state =
     sum_list (map (\<lambda>e. case e of CapacityBonus v \<Rightarrow> v | _ \<Rightarrow> 0) (unlocked_effects state))"

definition getMaintenanceReduction :: "ResearchState \<Rightarrow> int" where
  "getMaintenanceReduction state =
     min (sum_list (map (\<lambda>e. case e of MaintenanceReduction v \<Rightarrow> v | _ \<Rightarrow> 0)
                        (unlocked_effects state))) 75"

definition getRevenueBonus :: "ResearchState \<Rightarrow> int" where
  "getRevenueBonus state =
     sum_list (map (\<lambda>e. case e of RevenueBonus v \<Rightarrow> v | _ \<Rightarrow> 0) (unlocked_effects state))"

text \<open>
  The reading of "the first missing prerequisite by catalog order": the first technology of
  the catalog, in catalog order, that is a prerequisite of \<open>tech\<close> and is not unlocked.
\<close>

definition first_missing_by_catalog :: "ResearchState \<Rightarrow> Technology \<Rightarrow> Technology option" where
  "first_missing_by_catalog state tech =
     find (\<lambda>t. tech_id t \<in> set (prerequisites tech) \<and> tech_id t \<notin> set (unlocked state)) TECH_TREE"

definition catalog_order_reason :: "ResearchState \<Rightarrow> string \<Rightarrow> string option" where
  "catalog_order_reason state techId =
     (case getTech techId of
        None \<Rightarrow> None
      | Some tech \<Rightarrow>
          (case first_missing_by_catalog state tech of
             None \<Rightarrow> None
           | Some m \<Rightarrow> Some (''Requires: '' @ tech_name m)))"

text \<open>\<open>xs.findIndex(p)\<close>: the index of the first element satisfying \<open>p\<close>, or \<open>-1\<close>.\<close>

fun findIndex :: "('a \<Rightarrow> bool) \<Rightarrow> 'a list \<Rightarrow> int" where
  "findIndex p [] = -1"
| "findIndex p (x # xs) =
     (if p x then 0 else (let i = findIndex p xs in if i = -1 then -1 else i + 1))"

section \<open>Terrain (terrain.ts)\<close>

datatype TerrainType = Plains | Forest | Hills | Mountains | River | Desert | Swamp | Coast | Water


record CityData =
  city_hex :: HexCoord
  city_name :: string
  population :: int
  city_demand :: "(string \<times> int) list"
  city_supply :: "(string \<times> int) list"
  hasStation :: bool
  growth :: real

record GameMap =
  width :: int
  height :: int
  terrain :: "(string \<times> TerrainType) list"
  cities :: "CityData list"
  explored :: "string list"
  resources :: "(string \<times> string) list"

section \<open>Map generation (terrain.ts)\<close>

text \<open>
  \<open>SimpleNoise\<close>: the constructor shuffles the table \<open>0, ..., 255\<close> with the generator
  \<open>s = (s * 16807 + 0) % 2147483647\<close>, for \<open>i\<close> from 255 down to 1 swapping the entries \<open>i\<close>
  and \<open>s % (i + 1)\<close>, and stores the table twice in a row. The seed is a non-negative integer
  (the host passes \<open>Math.floor(Math.random() * 999999)\<close>, the default is \<open>Date.now()\<close>), so
  \<open>%\<close> is \<open>mod\<close>; the product is a double. The entries of the table stay within
  \<open>0, ..., 255\<close>, so every read \<open>perm[perm[X] + Y]\<close> of \<open>noise2D\<close> is in range.
\<close>

fun shuffle :: "nat \<Rightarrow> int \<Rightarrow> int list \<Rightarrow> int list" where
  "shuffle 0 s p = p"
| "shuffle (Suc n) s p =
     (let i = Suc n;
          s' = \<lfloor>dbl (dbl (real_of_int s * 16807) + 0)\<rfloor> mod 2147483647;
          j = nat (s' mod (int i + 1))
      in shuffle n s' (p[i := p ! j, j := p ! i]))"

definition SimpleNoise :: "nat \<Rightarrow> int list" where
  "SimpleNoise seed = (let p = shuffle 255 (int seed) (map int [0..<256]) in p @ p)"

definition fade :: "real \<Rightarrow> real" where
  "fade t = dbl (dbl (dbl (t * t) * t) * dbl (dbl (t * dbl (dbl (t * 6) - 15)) + 10))"

definition lerp :: "real \<Rightarrow> real \<Rightarrow> real \<Rightarrow> real" where
  "lerp a b t = dbl (a + dbl (t * dbl (b - a)))"

definition grad :: "int \<Rightarrow> real \<Rightarrow> real \<Rightarrow> real" where
  "grad hash x y =
     (let h = hash AND 3;
          u = (if h < 2 then x else y);
          v = (if h < 2 then y else x)
      in dbl ((if h AND 1 = 0 then u else - u) + (if h AND 2 = 0 then v else - v)))"

definition noise2D :: "int list \<Rightarrow> real \<Rightarrow> real \<Rightarrow> real" where
  "noise2D perm x y =
     (let X = \<lfloor>x\<rfloor> AND 255;
          Y = \<lfloor>y\<rfloor> AND 255;
          xf = dbl (x - real_of_int \<lfloor>x\<rfloor>);
          yf = dbl (y - real_of_int \<lfloor>y\<rfloor>);
          u = fade xf;
          v = fade yf;
          aa = perm ! nat (perm ! nat X + Y);
          ab = perm ! nat (perm ! nat X + Y + 1);
          ba = perm ! nat (perm ! nat (X + 1) + Y);
          bb = perm ! nat (perm ! nat (X + 1) + Y + 1)
      in lerp (lerp (grad aa xf yf) (grad ba (dbl (xf - 1)) yf) u)
              (lerp (grad ab xf (dbl (yf - 1))) (grad bb (dbl (xf - 1)) (dbl (yf - 1))) u)
              v)"

text \<open>
  The loop of \<open>fbm\<close> with its four variables, for the octaves that remain, and the final
  quotient.
\<close>

fun fbm_loop :: "int list \<Rightarrow> real \<Rightarrow> real \<Rightarrow> nat \<Rightarrow> real \<times> real \<times> real \<times> real \<Rightarrow> real \<times> real" where
  "fbm_loop perm x y 0 st = (fst st, snd (snd (snd st)))"
| "fbm_loop perm x y (Suc n) st =
     (case st of (val, amplitude, frequency, maxValue) \<Rightarrow>
        fbm_loop perm x y n
          (dbl (val + dbl (noise2D perm (dbl (x * frequency)) (dbl (y * frequency)) * amplitude)),
           dbl (amplitude * 0.5), dbl (frequency * 2), dbl (maxValue + amplitude)))"

definition fbm :: "int list \<Rightarrow> real \<Rightarrow> real \<Rightarrow> nat \<Rightarrow> real" where
  "fbm perm x y octaves =
     (let res = fbm_loop perm x y octaves (0, 1, 1, 0) in dbl (fst res / snd res))"

text \<open>The body of the two loops of \<open>generateMap\<close> over \<open>r\<close> and \<open>q\<close>: the terrain type of a hex.\<close>

definition islandMask :: "nat \<Rightarrow> nat \<Rightarrow> nat \<Rightarrow> nat \<Rightarrow> real" where
  "islandMask w h hq hr =
     (let centerQ = \<lfloor>dbl (real w / 2)\<rfloor>;
          centerR = \<lfloor>dbl (real h / 2)\<rfloor>;
          dx = dbl (real_of_int (int hq - centerQ) / dbl (real w * dbl 0.45));
          dy = dbl (real_of_int (int hr - centerR) / dbl (real h * dbl 0.45));
          distFromCenter = dbl (sqrt (dbl (dbl (dx * dx) + dbl (dy * dy))))
      in dbl (1 - dbl (distFromCenter * distFromCenter)))"

definition classify :: "int list \<Rightarrow> int list \<Rightarrow> nat \<Rightarrow> nat \<Rightarrow> nat \<Rightarrow> nat \<Rightarrow> TerrainType" where
  "classify noise moisture w h hq hr =
     (let elevation = fbm noise (dbl (real hq * dbl 0.08)) (dbl (real hr * dbl 0.08)) 5;
          moist = fbm moisture (dbl (dbl (real hq * dbl 0.06) + 50))
                               (dbl (dbl (real hr * dbl 0.06) + 50)) 4;
          finalElevation = dbl (dbl (elevation * dbl 0.6) + dbl (islandMask w h hq hr * dbl 0.4))
      in if finalElevation < - dbl 0.15 then Water
         else if finalElevation < - dbl 0.05 then Coast
         else if finalElevation > dbl 0.45 then Mountains
         else if finalElevation > dbl 0.3 then Hills
         else if moist > dbl 0.25 then Forest
         else if moist < - dbl 0.2 then Desert
         else if moist > dbl 0.1 \<and> finalElevation < dbl 0.05 then Swamp
         else Plains)"

text \<open>
  The terrain map after the classification loops: rows \<open>r\<close> from 0, inside them columns
  \<open>q\<close> from 0, each key set to the type of its hex.
\<close>

definition classify_terrain :: "nat \<Rightarrow> nat \<Rightarrow> nat \<Rightarrow> (string \<times> TerrainType) list" where
  "classify_terrain w h seed =
     (let noise = SimpleNoise seed;
          moisture = SimpleNoise (nat \<lfloor>dbl (real seed + 1000)\<rfloor>)
      in foldl (\<lambda>ter rq. map_set (hexKey \<lparr>q = int (snd rq), r = int (fst rq)\<rparr>)
                               (classify noise moisture w h (snd rq) (fst rq)) ter)
               [] (concat (map (\<lambda>hr. map (\<lambda>hq. (hr, hq)) [0..<w]) [0..<h])))"

text \<open>
  One river: up to 20 steps from the start hex. A step stops at Water, turns the hex into
  River, and moves to a random neighbour inside the map, stopping when there is none. An
  index outside the neighbour list (a draw outside \<open>[0, 1)\<close>) would make the code read
  \<open>undefined.q\<close> and throw: \<open>None\<close>.
\<close>

definition in_bounds :: "nat \<Rightarrow> nat \<Rightarrow> HexCoord \<Rightarrow> bool" where
  "in_bounds w h n = (q n \<ge> 0 \<and> q n < int w \<and> r n \<ge> 0 \<and> r n < int h)"

fun river_walk ::
  "(nat \<Rightarrow> real) \<Rightarrow> nat \<Rightarrow> nat \<Rightarrow> nat \<Rightarrow> HexCoord \<Rightarrow> (string \<times> TerrainType) list \<times> nat
     \<Rightarrow> ((string \<times> TerrainType) list \<times> nat) option" where
  "river_walk rnd w h 0 pos tk = Some tk"
| "river_walk rnd w h (Suc n) pos tk =
     (let rKey = hexKey pos
      in if map_of (fst tk) rKey = Some Water then Some tk
         else
           (let ter = map_set rKey River (fst tk);
                neighbors = filter (in_bounds w h) (hexNeighbors pos)
            in if length neighbors = 0 then Some (ter, snd tk)
               else
                 (let idx = \<lfloor>dbl (rnd (snd tk) * real (length neighbors))\<rfloor>
                  in if 0 \<le> idx \<and> idx < int (length neighbors) then
                       river_walk rnd w h n (neighbors ! nat idx) (ter, snd tk + 1)
                     else None)))"

text \<open>
  The river starts: each draws a hex and walks a river from it when the hex is Mountains
  or Hills.
\<close>

fun rivers_loop ::
  "(nat \<Rightarrow> real) \<Rightarrow> nat \<Rightarrow> nat \<Rightarrow> nat \<Rightarrow> (string \<times> TerrainType) list \<times> nat
     \<Rightarrow> ((string \<times> TerrainType) list \<times> nat) option" where
  "rivers_loop rnd w h 0 tk = Some tk"
| "rivers_loop rnd w h (Suc n) tk =
     (let k = snd tk;
          start = \<lparr>q = \<lfloor>dbl (rnd k * real w)\<rfloor>, r = \<lfloor>dbl (rnd (k + 1) * real h)\<rfloor>\<rparr>;
          t = map_of (fst tk) (hexKey start)
      in if t = Some Mountains \<or> t = Some Hills then
           (case river_walk rnd w h 20 start (fst tk, k + 2) of
              None \<Rightarrow> None
            | Some tk' \<Rightarrow> rivers_loop rnd w h n tk')
         else rivers_loop rnd w h n (fst tk, k + 2))"

text \<open>
  The \<open>terrain\<close> field of the map \<open>generateMap\<close> returns, for the draws \<open>rnd\<close> from index \<open>k\<close>
  on. The stages after the rivers (cities, resources, first exploration) read the terrain
  and write the other fields only.
\<close>

definition generateMap_terrain ::
  "nat \<Rightarrow> nat \<Rightarrow> nat \<Rightarrow> (nat \<Rightarrow> real) \<Rightarrow> nat \<Rightarrow> (string \<times> TerrainType) list option" where
  "generateMap_terrain w h seed rnd k =
     (let ter = classify_terrain w h seed;
          riverStarts = 3 + \<lfloor>dbl (rnd k * 3)\<rfloor>
      in map_option fst (rivers_loop rnd w h (nat riverStarts) (ter, k + 1)))"

section \<open>Game state and economy (gameState.ts)\<close>

datatype TrackType = Narrow | Standard | Double | Electrified | Highspeed

record TrackSegment =
  seg_from :: HexCoord
  seg_to :: HexCoord
  built :: bool
  seg_type :: TrackType

datatype StationType = HaltT | StationT | JunctionT | TerminalT

record Station =
  st_hex :: HexCoord
  st_name :: string
  st_type :: StationType
  platforms :: int
  cityIndex :: int

datatype TrainType =
  Freight | Passenger | Mixed | Luxury | Mail | Express | Commuter | Bullet | Hyperloop

record Train =
  train_id :: int
  train_name :: string
  train_type :: TrainType
  route :: "HexCoord list"
  currentSegment :: nat
  progress :: real
  train_speed :: real
  capacity :: int
  cargo :: "(string \<times> int) list"
  revenue :: int
  maintenanceCost :: int
  color :: int

datatype GameSpeed = GS0 | GS1 | GS2 | GS3

datatype Tool =
  ToolSelect | ToolTrack | ToolStation | ToolTrain | ToolDemolish | ToolResearch
  | ToolDiplomacy | ToolEconomy

datatype NotifType = Success | Warning | Danger | Info

text \<open>
  A notification's \<open>icon\<close> and \<open>text\<close> are display strings that no engine function reads;
  the model keeps its id, title, severity and creation time.
\<close>

record GameNotification =
  notif_id :: int
  notif_title :: string
  notif_type :: NotifType
  notif_time :: int

text \<open>
  \<open>notifId\<close> is the module-level counter of gameState.ts; it travels with the state here.
  \<open>Date.now()\<close> and \<open>Math.random()\<close> are inputs: a function that reads the clock takes the
  reading \<open>now\<close>, and a function that draws random numbers takes the sequence of draws
  \<open>rnd\<close> (each in \<open>[0, 1)\<close>) with the index of the next draw, and returns the index it
  reached.
\<close>

record GameState =
  gmap :: GameMap
  tracks :: "(string \<times> TrackSegment) list"
  stations :: "(string \<times> Station) list"
  trains :: "Train list"
  funds :: int
  monthlyIncome :: int
  monthlyExpenses :: int
  lastMonthIncome :: int
  lastMonthExpenses :: int
  totalRevenue :: int
  month :: int
  year :: int
  era :: Era
  game_speed :: GameSpeed
  selectedTool :: Tool
  selectedHex :: "HexCoord option"
  trackBuildStart :: "HexCoord option"
  nextTrainId :: int
  research :: ResearchState
  notifications :: "GameNotification list"
  notifId :: int

record COSTS_T =
  trackPerHex :: int
  stationHalt :: int
  stationBasic :: int
  stationJunction :: int
  stationTerminal :: int
  trainFreight :: int
  trainPassenger :: int
  trainMixed :: int
  trainLuxury :: int
  trainMail :: int
  trainExpress :: int
  trainCommuter :: int
  trainBullet :: int
  trainHyperloop :: int
  demolishTrack :: int
  demolishStation :: int

definition COSTS :: COSTS_T where
  "COSTS =
     \<lparr>trackPerHex = 500, stationHalt = 1000, stationBasic = 3000, stationJunction = 5000,
      stationTerminal = 15000, trainFreight = 5000, trainPassenger = 8000, trainMixed = 6000,
      trainLuxury = 12000, trainMail = 4000, trainExpress = 15000, trainCommuter = 10000,
      trainBullet = 25000, trainHyperloop = 50000, demolishTrack = 100, demolishStation = 500\<rparr>"

record TrainConfig =
  cfg_speed :: real
  cfg_capacity :: int
  cfg_maintenance :: int
  cfg_color :: int

fun TRAIN_CONFIGS :: "TrainType \<Rightarrow> TrainConfig" where
  "TRAIN_CONFIGS Freight =
     \<lparr>cfg_speed = dbl 0.15, cfg_capacity = 100, cfg_maintenance = 50, cfg_color = 0x8B6914\<rparr>"
| "TRAIN_CONFIGS Passenger =
     \<lparr>cfg_speed = dbl 0.25, cfg_capacity = 60, cfg_maintenance = 80, cfg_color = 0x4A6FA5\<rparr>"
| "TRAIN_CONFIGS Mail =
     \<lparr>cfg_speed = dbl 0.30, cfg_capacity = 40, cfg_maintenance = 40, cfg_color = 0xB44A3E\<rparr>"
| "TRAIN_CONFIGS Mixed =
     \<lparr>cfg_speed = dbl 0.20, cfg_capacity = 70, cfg_maintenance = 65, cfg_color = 0x7A7D85\<rparr>"
| "TRAIN_CONFIGS Luxury =
     \<lparr>cfg_speed = dbl 0.20, cfg_capacity = 30, cfg_maintenance = 120, cfg_color = 0xD4A843\<rparr>"
| "TRAIN_CONFIGS Express =
     \<lparr>cfg_speed = dbl 0.40, cfg_capacity = 80, cfg_maintenance = 150, cfg_color = 0x2E86C1\<rparr>"
| "TRAIN_CONFIGS Commuter =
     \<lparr>cfg_speed = dbl 0.35, cfg_capacity = 120, cfg_maintenance = 100, cfg_color = 0x27AE60\<rparr>"
| "TRAIN_CONFIGS Bullet =
     \<lparr>cfg_speed = dbl 0.55, cfg_capacity = 90, cfg_maintenance = 200, cfg_color = 0xE74C3C\<rparr>"
| "TRAIN_CONFIGS Hyperloop =
     \<lparr>cfg_speed = dbl 0.80, cfg_capacity = 50, cfg_maintenance = 350, cfg_color = 0x9B59B6\<rparr>"

text \<open>
  \<open>TRAIN_MAINTENANCE_BY_ERA[type]?.[era]\<close>: a table lookup that the caller guards with
  \<open>??\<close>, so the result is optional; the table has every type and era.
\<close>

fun TRAIN_MAINTENANCE_BY_ERA :: "TrainType \<Rightarrow> Era \<Rightarrow> int option" where
  "TRAIN_MAINTENANCE_BY_ERA Freight e =
     Some (case e of Steam \<Rightarrow> 50 | Diesel \<Rightarrow> 75 | Electric \<Rightarrow> 110 | Maglev \<Rightarrow> 165)"
| "TRAIN_MAINTENANCE_BY_ERA Passenger e =
     Some (case e of Steam \<Rightarrow> 80 | Diesel \<Rightarrow> 120 | Electric \<Rightarrow> 180 | Maglev \<Rightarrow> 270)"
| "TRAIN_MAINTENANCE_BY_ERA Mail e =
     Some (case e of Steam \<Rightarrow> 40 | Diesel \<Rightarrow> 60 | Electric \<Rightarrow> 90 | Maglev \<Rightarrow> 135)"
| "TRAIN_MAINTENANCE_BY_ERA Mixed e =
     Some (case e of Steam \<Rightarrow> 65 | Diesel \<Rightarrow> 90 | Electric \<Rightarrow> 130 | Maglev \<Rightarrow> 195)"
| "TRAIN_MAINTENANCE_BY_ERA Luxury e =
     Some (case e of Steam \<Rightarrow> 120 | Diesel \<Rightarrow> 180 | Electric \<Rightarrow> 270 | Maglev \<Rightarrow> 405)"
| "TRAIN_MAINTENANCE_BY_ERA Express e =
     Some (case e of Steam \<Rightarrow> 150 | Diesel \<Rightarrow> 220 | Electric \<Rightarrow> 330 | Maglev \<Rightarrow> 495)"
| "TRAIN_MAINTENANCE_BY_ERA Commuter e =
     Some (case e of Steam \<Rightarrow> 100 | Diesel \<Rightarrow> 150 | Electric \<Rightarrow> 220 | Maglev \<Rightarrow> 330)"
| "TRAIN_MAINTENANCE_BY_ERA Bullet e =
     Some (case e of Steam \<Rightarrow> 200 | Diesel \<Rightarrow> 300 | Electric \<Rightarrow> 450 | Maglev \<Rightarrow> 675)"
| "TRAIN_MAINTENANCE_BY_ERA Hyperloop e =
     Some (case e of Steam \<Rightarrow> 350 | Diesel \<Rightarrow> 520 | Electric \<Rightarrow> 780 | Maglev \<Rightarrow> 1170)"

fun TRACK_MAINTENANCE_BY_ERA :: "Era \<Rightarrow> int" where
  "TRACK_MAINTENANCE_BY_ERA Steam = 5"
| "TRACK_MAINTENANCE_BY_ERA Diesel = 10"
| "TRACK_MAINTENANCE_BY_ERA Electric = 50"
| "TRACK_MAINTENANCE_BY_ERA Maglev = 250"

definition createGameState :: "GameMap \<Rightarrow> GameState" where
  "createGameState m =
     \<lparr>gmap = m, tracks = [], stations = [], trains = [], funds = 50000,
      monthlyIncome = 0, monthlyExpenses = 0, lastMonthIncome = 0, lastMonthExpenses = 0,
      totalRevenue = 0, month = 0, year = 1840, era = Steam, game_speed = GS1,
      selectedTool = ToolSelect, selectedHex = None, trackBuildStart = None,
      nextTrainId = 1, research = createResearchState, notifications = [], notifId = 0\<rparr>"

definition trackKey :: "HexCoord \<Rightarrow> HexCoord \<Rightarrow> string" where
  "trackKey from_hex to_hex =
     (let fk = hexKey from_hex; tk = hexKey to_hex
      in if fk < tk then fk @ ''->'' @ tk else tk @ ''->'' @ fk)"

text \<open>
  \<open>addNotification\<close> pushes the notification with the next id and drops the oldest entries
  while more than five are held.
\<close>

definition addNotification :: "int \<Rightarrow> GameState \<Rightarrow> string \<Rightarrow> NotifType \<Rightarrow> GameState" where
  "addNotification now state title ty =
     (let ns = notifications state @
               [\<lparr>notif_id = notifId state, notif_title = title, notif_type = ty, notif_time = now\<rparr>]
      in state\<lparr>notifId := notifId state + 1, notifications := drop (length ns - 5) ns\<rparr>)"

text \<open>
  \<open>revealAround\<close> visits \<open>dr\<close> from \<open>-radius\<close> to \<open>radius\<close> and, inside, \<open>dq\<close> over the same
  range, adding the key of every hex within the radius to the explored set.
\<close>

definition revealAround :: "GameState \<Rightarrow> HexCoord \<Rightarrow> int \<Rightarrow> GameState" where
  "revealAround state center radius =
     (let hs = concat (map (\<lambda>dr. map (\<lambda>dq. \<lparr>q = q center + dq, r = r center + dr\<rparr>)
                                         [- radius .. radius])
                           [- radius .. radius]);
          ex = foldl (\<lambda>e h. if hexDistance center h \<le> radius then set_add (hexKey h) e else e)
                     (explored (gmap state)) hs
      in state\<lparr>gmap := (gmap state)\<lparr>explored := ex\<rparr>\<rparr>)"

record BuildCheck =
  bc_ok :: bool
  bc_cost :: int
  bc_reason :: "string option"



definition canBuildStation :: "GameState \<Rightarrow> HexCoord \<Rightarrow> BuildCheck" where
  "canBuildStation state hex =
     (let key = hexKey hex
      in if map_has (stations state) key then
           \<lparr>bc_ok = False, bc_cost = 0, bc_reason = Some ''Station already here''\<rparr>
         else
           (let ter = map_of (terrain (gmap state)) key
            in if ter = None \<or> ter = Some Water \<or> ter = Some Mountains then
                 \<lparr>bc_ok = False, bc_cost = 0, bc_reason = Some ''Cannot build station here''\<rparr>
               else
                 (let hasTrack = list_ex (\<lambda>t. hexKey (seg_from t) = key \<or> hexKey (seg_to t) = key)
                                         (map snd (tracks state));
                      cityIdx = findIndex (\<lambda>c. hexKey (city_hex c) = key) (cities (gmap state));
                      cost = (if cityIdx \<ge> 0 then stationBasic COSTS else stationHalt COSTS)
                  in if funds state < cost then
                       \<lparr>bc_ok = False, bc_cost = cost, bc_reason = Some ''Insufficient funds''\<rparr>
                     else if length (stations state) > 0 \<and> \<not> hasTrack then
                       \<lparr>bc_ok = False, bc_cost = cost,
                        bc_reason = Some ''Must connect to track network''\<rparr>
                     else \<lparr>bc_ok = True, bc_cost = cost, bc_reason = None\<rparr>)))"

definition buildStation :: "int \<Rightarrow> GameState \<Rightarrow> HexCoord \<Rightarrow> bool \<times> GameState" where
  "buildStation now state hex =
     (let check = canBuildStation state hex
      in if \<not> bc_ok check then (False, state)
         else
           (let key = hexKey hex;
                cityIdx = findIndex (\<lambda>c. hexKey (city_hex c) = key) (cities (gmap state));
                station =
                  \<lparr>st_hex = hex,
                   st_name = (if cityIdx \<ge> 0 then city_name (cities (gmap state) ! nat cityIdx)
                              else ''Halt '' @ show_int (int (length (stations state)) + 1)),
                   st_type = (if cityIdx \<ge> 0 then StationT else HaltT),
                   platforms = (if cityIdx \<ge> 0 then 2 else 1),
                   cityIndex = cityIdx\<rparr>;
                s1 = state\<lparr>stations := map_set key station (stations state)\<rparr>;
                s2 = s1\<lparr>funds := funds s1 - bc_cost check\<rparr>;
                s3 = (if cityIdx \<ge> 0 then
                        addNotification now
                          (s2\<lparr>gmap := (gmap s2)\<lparr>cities :=
                             (cities (gmap s2))[nat cityIdx :=
                                (cities (gmap s2) ! nat cityIdx)\<lparr>hasStation := True\<rparr>]\<rparr>\<rparr>)
                          ''Station Built'' Success
                      else s2)
            in (True, revealAround s3 hex 3)))"

text \<open>The cost table local to \<open>removeTrain\<close>; a type it does not list is \<open>None\<close>.\<close>

fun removeTrain_costMap :: "TrainType \<Rightarrow> int option" where
  "removeTrain_costMap Freight = Some (trainFreight COSTS)"
| "removeTrain_costMap Passenger = Some (trainPassenger COSTS)"
| "removeTrain_costMap Mixed = Some (trainMixed COSTS)"
| "removeTrain_costMap Luxury = Some (trainLuxury COSTS)"
| "removeTrain_costMap Mail = Some (trainMail COSTS)"
| "removeTrain_costMap _ = None"

definition removeTrain :: "int \<Rightarrow> GameState \<Rightarrow> int \<Rightarrow> bool \<times> GameState" where
  "removeTrain now state trainId =
     (let idx = findIndex (\<lambda>t. train_id t = trainId) (trains state)
      in if idx = -1 then (False, state)
         else
           (let train = trains state ! nat idx;
                s1 = state\<lparr>trains := take (nat idx) (trains state) @ drop (nat idx + 1) (trains state)\<rparr>;
                refund = \<lfloor>real_of_int (case removeTrain_costMap (train_type train) of
                                           Some c \<Rightarrow> c | None \<Rightarrow> 5000) * 0.25\<rfloor>;
                s2 = s1\<lparr>funds := funds s1 + refund\<rparr>
            in (True, addNotification now s2 ''Train Retired'' Warning)))"

fun speedMultipliers :: "GameSpeed \<Rightarrow> real" where
  "speedMultipliers GS0 = 0"
| "speedMultipliers GS1 = 1"
| "speedMultipliers GS2 = 3"
| "speedMultipliers GS3 = 8"

definition typeMultiplier :: "TrainType \<Rightarrow> real" where
  "typeMultiplier ty =
     (if ty = Hyperloop then 5 else if ty = Bullet then 4 else if ty = Luxury then 3
      else if ty = Express then 2.5 else if ty = Passenger then 2
      else if ty = Commuter then 1.5 else 1)"

text \<open>The leg-completion credit \<open>baseRevenue\<close> of \<open>updateTrains\<close>.\<close>

definition baseRevenue :: "ResearchState \<Rightarrow> Train \<Rightarrow> int" where
  "baseRevenue rs train =
     (let routeLength = real (length (route train));
          revBonus = dbl (1 + dbl (real_of_int (getRevenueBonus rs) / 100))
      in \<lfloor>dbl (dbl (dbl (routeLength * 100) * typeMultiplier (train_type train)) * revBonus)\<rfloor>)"

text \<open>
  The body of the loop of \<open>updateTrains\<close> for one train. When the body reads
  \<open>train.route[train.currentSegment]\<close> the route has at least two hexes and the segment is
  either \<open>0\<close> or below \<open>route.length - 1\<close>, so the read is in range.
\<close>

definition updateTrain ::
  "(nat \<Rightarrow> real) \<Rightarrow> real \<Rightarrow> Train \<Rightarrow> GameState \<times> nat \<Rightarrow> Train \<times> GameState \<times> nat" where
  "updateTrain rnd gameSpeed train sk =
     (let state = fst sk; k = snd sk
      in if length (route train) < 2 then (train, state, k)
         else
           (let t1 = train\<lparr>progress := dbl (progress train + dbl (train_speed train * gameSpeed))\<rparr>
            in if progress t1 \<ge> 1 then
                 (let t2 = t1\<lparr>progress := 0, currentSegment := currentSegment t1 + 1\<rparr>;
                      ts3 =
                        (if currentSegment t2 \<ge> length (route t2) - 1 then
                           (let t3 = t2\<lparr>route := rev (route t2), currentSegment := 0\<rparr>;
                                b = baseRevenue (research state) t3
                            in (t3\<lparr>revenue := revenue t3 + b\<rparr>,
                                state\<lparr>monthlyIncome := monthlyIncome state + b,
                                      totalRevenue := totalRevenue state + b\<rparr>))
                         else (t2, state));
                      t4 = fst ts3; s4 = snd ts3;
                      currentHex = route t4 ! currentSegment t4
                  in case map_of (stations s4) (hexKey currentHex) of
                       None \<Rightarrow> (t4, s4, k)
                     | Some station \<Rightarrow>
                         if cityIndex station \<ge> 0 then
                           (let deliveryRevenue = \<lfloor>dbl (rnd k * 200)\<rfloor> + 50
                            in (t4\<lparr>revenue := revenue t4 + deliveryRevenue\<rparr>,
                                s4\<lparr>monthlyIncome := monthlyIncome s4 + deliveryRevenue,
                                   totalRevenue := totalRevenue s4 + deliveryRevenue\<rparr>,
                                k + 1))
                         else (t4, s4, k))
               else (t1, state, k)))"

fun updateTrains_loop ::
  "(nat \<Rightarrow> real) \<Rightarrow> real \<Rightarrow> Train list \<Rightarrow> GameState \<times> nat \<Rightarrow> Train list \<times> GameState \<times> nat" where
  "updateTrains_loop rnd gameSpeed [] sk = ([], fst sk, snd sk)"
| "updateTrains_loop rnd gameSpeed (t # ts) sk =
     (let r1 = updateTrain rnd gameSpeed t sk;
          r2 = updateTrains_loop rnd gameSpeed ts (snd r1)
      in (fst r1 # fst r2, snd r2))"

definition updateTrains :: "(nat \<Rightarrow> real) \<Rightarrow> nat \<Rightarrow> GameState \<Rightarrow> real \<Rightarrow> GameState \<times> nat" where
  "updateTrains rnd k state delta =
     (let gameSpeed = dbl (speedMultipliers (game_speed state) * delta);
          res = updateTrains_loop rnd gameSpeed (trains state) (state, k)
      in ((fst (snd res))\<lparr>trains := fst res\<rparr>, snd (snd res)))"

text \<open>The maintenance of the month, before it is added to the expenses.\<close>

definition totalMaintenance :: "GameState \<Rightarrow> int" where
  "totalMaintenance state =
     (let maintReduction = dbl (1 - dbl (real_of_int (getMaintenanceReduction (research state)) / 100));
          m1 = int (length (tracks state)) * TRACK_MAINTENANCE_BY_ERA (era state);
          m2 = m1 + sum_list (map (\<lambda>s. if st_type s = TerminalT then 200
                                         else if st_type s = StationT then 100 else 30)
                                  (map snd (stations state)));
          m3 = m2 + sum_list (map (\<lambda>t. case TRAIN_MAINTENANCE_BY_ERA (train_type t) (era state) of
                                           Some m \<Rightarrow> m | None \<Rightarrow> maintenanceCost t)
                                  (trains state))
      in \<lfloor>dbl (real_of_int m3 * maintReduction)\<rfloor>)"

definition updateEconomy :: "GameState \<Rightarrow> GameState" where
  "updateEconomy state =
     (let s1 = state\<lparr>monthlyExpenses := monthlyExpenses state + totalMaintenance state\<rparr>;
          rpFromStations = int (length (stations s1)) * 10;
          rpFromIncome = \<lfloor>dbl (real_of_int (monthlyIncome s1) * dbl 0.02)\<rfloor>;
          rpGenerated = rpFromStations + rpFromIncome;
          s2 = s1\<lparr>research := (research s1)\<lparr>points := dbl (points (research s1) + real_of_int rpGenerated),
                                            pointsPerMonth := real_of_int rpGenerated\<rparr>\<rparr>;
          net = monthlyIncome s2 - monthlyExpenses s2;
          s3 = s2\<lparr>funds := funds s2 + net\<rparr>;
          s4 = s3\<lparr>lastMonthIncome := monthlyIncome s3, lastMonthExpenses := monthlyExpenses s3\<rparr>;
          s5 = s4\<lparr>monthlyIncome := 0, monthlyExpenses := 0\<rparr>
      in s5\<lparr>gmap := (gmap s5)\<lparr>cities :=
           map (\<lambda>city. if hasStation city then
                          city\<lparr>population :=
                            \<lfloor>dbl (real_of_int (population city) * dbl (1 + growth city))\<rfloor>\<rparr>
                        else city)
               (cities (gmap s5))\<rparr>\<rparr>)"

text \<open>The era check that \<open>advanceTime\<close> runs after a year rollover.\<close>

definition era_check :: "int \<Rightarrow> GameState \<Rightarrow> GameState" where
  "era_check now state =
     (if year state \<ge> 1900 \<and> era state = Steam then
        addNotification now (state\<lparr>era := Diesel\<rparr>) ''New Era!'' Warning
      else if year state \<ge> 1950 \<and> era state = Diesel then
        addNotification now (state\<lparr>era := Electric\<rparr>) ''New Era!'' Warning
      else if year state \<ge> 2000 \<and> era state = Electric then
        addNotification now (state\<lparr>era := Maglev\<rparr>) ''New Era!'' Warning
      else state)"

text \<open>The state \<open>advanceTime\<close> has reached when it calls \<open>updateEconomy\<close>.\<close>

definition advanceCalendar :: "int \<Rightarrow> GameState \<Rightarrow> GameState" where
  "advanceCalendar now state =
     (let s1 = state\<lparr>month := month state + 1\<rparr>
      in if month s1 \<ge> 12 then era_check now (s1\<lparr>month := 0, year := year s1 + 1\<rparr>)
         else s1)"

definition advanceTime :: "int \<Rightarrow> GameState \<Rightarrow> GameState" where
  "advanceTime now state = updateEconomy (advanceCalendar now state)"

section \<open>Network pathfinding (gameState.ts)\<close>

text \<open>
  \<open>findTrackPath\<close> builds the adjacency map: for every segment, both endpoint keys get an
  entry (an empty neighbour set when new) and each is added to the neighbour set of the
  other.
\<close>

definition adj_add :: "string \<Rightarrow> string \<Rightarrow> (string \<times> string list) list \<Rightarrow> (string \<times> string list) list" where
  "adj_add k n adj =
     (case map_of adj k of None \<Rightarrow> adj | Some ns \<Rightarrow> map_set k (set_add n ns) adj)"

definition adj_ensure :: "string \<Rightarrow> (string \<times> string list) list \<Rightarrow> (string \<times> string list) list" where
  "adj_ensure k adj = (if \<not> map_has adj k then map_set k [] adj else adj)"

definition add_track :: "(string \<times> string list) list \<Rightarrow> TrackSegment \<Rightarrow> (string \<times> string list) list" where
  "add_track adj track =
     (let fk = hexKey (seg_from track);
          tk = hexKey (seg_to track);
          a1 = adj_ensure fk adj;
          a2 = adj_ensure tk a1;
          a3 = adj_add fk tk a2
      in adj_add tk fk a3)"

definition build_adj :: "(string \<times> TrackSegment) list \<Rightarrow> (string \<times> string list) list" where
  "build_adj ts = foldl add_track [] (map snd ts)"

text \<open>
  The loop over the neighbours of \<open>current\<close>: a neighbour that \<open>cameFrom\<close> lacks is recorded
  with \<open>current\<close> as its predecessor and pushed on the queue. \<open>cameFrom\<close> is only read with
  \<open>has\<close> and \<open>get\<close> and written with \<open>set\<close>; it is a partial function.
\<close>

fun visit_neighbors ::
  "string \<Rightarrow> string list \<Rightarrow> string list \<times> (string \<rightharpoonup> string) \<Rightarrow> string list \<times> (string \<rightharpoonup> string)" where
  "visit_neighbors current [] qc = qc"
| "visit_neighbors current (n # ns) qc =
     (if snd qc n = None then visit_neighbors current ns (fst qc @ [n], (snd qc)(n \<mapsto> current))
      else visit_neighbors current ns qc)"

text \<open>
  The loop \<open>while (queue.length > 0)\<close> terminates: every push records a node of the
  adjacency map that \<open>cameFrom\<close> lacked, so twice the number of such nodes plus the
  queue length decreases with every iteration.
\<close>

definition adj_nodes :: "(string \<times> string list) list \<Rightarrow> string set" where
  "adj_nodes adj = (\<Union>e\<in>set adj. set (snd e))"

definition bfs_measure ::
  "(string \<times> string list) list \<times> string \<times> string list \<times> (string \<rightharpoonup> string) \<Rightarrow> nat" where
  "bfs_measure x =
     (case x of (adj, goal, queue, cf) \<Rightarrow>
        2 * card {n \<in> adj_nodes adj. cf n = None} + length queue)"

text \<open>The nodes one run of the neighbour loop pushes, given the set of recorded nodes.\<close>

fun pushed :: "string set \<Rightarrow> string list \<Rightarrow> string list" where
  "pushed V [] = []"
| "pushed V (n # ns) = (if n \<in> V then pushed V ns else n # pushed (insert n V) ns)"

lemma set_pushed: "set (pushed V ns) = set ns - V"
  by (induction ns arbitrary: V) auto

lemma distinct_pushed: "distinct (pushed V ns)"
  by (induction ns arbitrary: V) (simp_all add: set_pushed)

lemma visit_neighbors_queue:
  "fst (visit_neighbors cur ns (Q, cf)) = Q @ pushed (dom cf) ns"
  by (induction ns arbitrary: Q cf) (simp_all add: domIff)

lemma visit_neighbors_cameFrom:
  "snd (visit_neighbors cur ns (Q, cf)) x =
     (if x \<in> set (pushed (dom cf) ns) then Some cur else cf x)"
  by (induction ns arbitrary: Q cf) (simp_all add: domIff set_pushed)

lemma visit_neighbors_closed:
  "\<exists>new. visit_neighbors cur ns (Q, cf) = (Q @ new, (\<lambda>x. if x \<in> set new then Some cur else cf x))
      \<and> set new = {n \<in> set ns. cf n = None} \<and> distinct new"
proof (intro exI [of _ "pushed (dom cf) ns"] conjI)
  have "snd (visit_neighbors cur ns (Q, cf)) =
      (\<lambda>x. if x \<in> set (pushed (dom cf) ns) then Some cur else cf x)"
    by (rule ext) (rule visit_neighbors_cameFrom)
  then show "visit_neighbors cur ns (Q, cf) =
      (Q @ pushed (dom cf) ns, \<lambda>x. if x \<in> set (pushed (dom cf) ns) then Some cur else cf x)"
    using visit_neighbors_queue [of cur ns Q cf] by (simp add: prod_eq_iff)
  show "set (pushed (dom cf) ns) = {n \<in> set ns. cf n = None}"
    by (auto simp: set_pushed domIff)
  show "distinct (pushed (dom cf) ns)" by (rule distinct_pushed)
qed

lemma finite_adj_nodes: "finite (adj_nodes adj)"
  by (simp add: adj_nodes_def)

lemma visit_neighbors_measure:
  assumes "map_of adj cur = Some ns" "visit_neighbors cur ns (Q, cf) = (Q', cf')"
  shows "bfs_measure (adj, goal, Q', cf') \<le> bfs_measure (adj, goal, Q, cf)"
proof -
  from visit_neighbors_closed [of cur ns Q cf] assms(2) obtain new where new:
    "Q' = Q @ new" "cf' = (\<lambda>x. if x \<in> set new then Some cur else cf x)"
    "set new = {n \<in> set ns. cf n = None}" "distinct new" by auto
  from assms(1) have "(cur, ns) \<in> set adj" by (rule map_of_SomeD)
  then have sub: "set ns \<subseteq> adj_nodes adj" by (auto simp: adj_nodes_def)
  let ?U = "{n \<in> adj_nodes adj. cf n = None}"
  let ?U' = "{n \<in> adj_nodes adj. cf' n = None}"
  have fin: "finite ?U" using finite_adj_nodes by simp
  have "?U' = ?U - set new" using new(2) by auto
  moreover have "set new \<subseteq> ?U" using new(3) sub by auto
  ultimately have "card ?U' = card ?U - card (set new)"
    using fin by (simp add: card_Diff_subset)
  moreover have "card (set new) \<le> card ?U"
    using \<open>set new \<subseteq> ?U\<close> fin by (simp add: card_mono)
  moreover have "card (set new) = length new" using new(4) by (simp add: distinct_card)
  ultimately show ?thesis using new(1) by (simp add: bfs_measure_def)
qed

text \<open>
  The breadth-first loop. It returns \<open>None\<close> when the queue runs empty (the function then
  returns \<open>null\<close>) and the \<open>cameFrom\<close> map when the goal is taken from the queue.
\<close>

function bfs_loop ::
  "(string \<times> string list) list \<Rightarrow> string \<Rightarrow> string list \<Rightarrow> (string \<rightharpoonup> string)
     \<Rightarrow> (string \<rightharpoonup> string) option" where
  "bfs_loop adj goal [] cf = None"
| "bfs_loop adj goal (current # queue) cf =
     (if current = goal then Some cf
      else case map_of adj current of
        None \<Rightarrow> bfs_loop adj goal queue cf
      | Some neighbors \<Rightarrow>
          bfs_loop adj goal (fst (visit_neighbors current neighbors (queue, cf)))
                            (snd (visit_neighbors current neighbors (queue, cf))))"
  by pat_completeness auto
termination
proof (relation "measure bfs_measure", goal_cases)
  case 1
  show ?case by simp
next
  case (2 adj goal current queue cf)
  then show ?case by (simp add: bfs_measure_def)
next
  case (3 adj goal current queue cf neighbors)
  obtain Q' cf' where r: "visit_neighbors current neighbors (queue, cf) = (Q', cf')"
    by (cases "visit_neighbors current neighbors (queue, cf)")
  from visit_neighbors_measure [OF 3(2) r, of goal]
  show ?case by (simp add: r bfs_measure_def)
qed

text \<open>
  The reconstruction loop follows \<open>cameFrom\<close> from the goal until it reads the empty string
  that marks the start, pushing the parsed key of every node. On an arbitrary map it need not
  end, and it fails on a node that \<open>cameFrom\<close> lacks (\<open>parseHexKey(undefined)\<close> throws): both
  are \<open>None\<close>, as is a key that does not parse to integer coordinates.
\<close>

partial_function (option) reconstruct ::
  "(string \<rightharpoonup> string) \<Rightarrow> string \<Rightarrow> HexCoord list \<Rightarrow> HexCoord list option" where
  "reconstruct cf node path =
     (if node = [] then Some path
      else case parseHexKey node of
        None \<Rightarrow> None
      | Some h \<Rightarrow>
          (case cf node of
             None \<Rightarrow> None
           | Some p \<Rightarrow> reconstruct cf p (path @ [h])))"

declare reconstruct.simps [code]

text \<open>
  The result of \<open>findTrackPath\<close>: \<open>Some NoPath\<close> is \<open>null\<close>, \<open>Some (Path p)\<close> a path, and
  \<open>None\<close> no result (the reconstruction did not return).
\<close>

datatype PathResult = NoPath | Path "HexCoord list"

definition findTrackPath :: "GameState \<Rightarrow> HexCoord \<Rightarrow> HexCoord \<Rightarrow> PathResult option" where
  "findTrackPath state from_hex to_hex =
     (let startKey = hexKey from_hex; goalKey = hexKey to_hex
      in if startKey = goalKey then Some (Path [from_hex])
         else
           (let adj = build_adj (tracks state)
            in if \<not> map_has adj startKey then Some NoPath
               else case bfs_loop adj goalKey [startKey] [startKey \<mapsto> []] of
                      None \<Rightarrow> Some NoPath
                    | Some cf \<Rightarrow> map_option (\<lambda>path. Path (rev path)) (reconstruct cf goalKey [])))"

section \<open>Train purchase (gameState.ts)\<close>

fun buyTrain_costMap :: "TrainType \<Rightarrow> int option" where
  "buyTrain_costMap Freight = Some (trainFreight COSTS)"
| "buyTrain_costMap Passenger = Some (trainPassenger COSTS)"
| "buyTrain_costMap Mixed = Some (trainMixed COSTS)"
| "buyTrain_costMap Luxury = Some (trainLuxury COSTS)"
| "buyTrain_costMap Mail = Some (trainMail COSTS)"
| "buyTrain_costMap Express = Some (trainExpress COSTS)"
| "buyTrain_costMap Commuter = Some (trainCommuter COSTS)"
| "buyTrain_costMap Bullet = Some (trainBullet COSTS)"
| "buyTrain_costMap Hyperloop = Some (trainHyperloop COSTS)"

text \<open>The string of a train type, and the spelling with a capital first letter.\<close>

fun type_name :: "TrainType \<Rightarrow> string" where
  "type_name Freight = ''freight''"
| "type_name Passenger = ''passenger''"
| "type_name Mixed = ''mixed''"
| "type_name Luxury = ''luxury''"
| "type_name Mail = ''mail''"
| "type_name Express = ''express''"
| "type_name Commuter = ''commuter''"
| "type_name Bullet = ''bullet''"
| "type_name Hyperloop = ''hyperloop''"

definition upper_char :: "char \<Rightarrow> char" where
  "upper_char c =
     (if CHR ''a'' \<le> c \<and> c \<le> CHR ''z'' then char_of (of_char c - (32::nat)) else c)"

definition capitalize :: "string \<Rightarrow> string" where
  "capitalize s = (case s of [] \<Rightarrow> [] | c # cs \<Rightarrow> upper_char c # cs)"

text \<open>
  The loop of \<open>buyTrain\<close> that joins the track paths between consecutive stations: the first
  path whole, every later one without its first hex. \<open>Some None\<close> is the early return when
  a leg has no path; \<open>None\<close> is a leg whose search gave no result.
\<close>

fun resolve_route ::
  "GameState \<Rightarrow> HexCoord list \<Rightarrow> nat \<Rightarrow> HexCoord list \<Rightarrow> HexCoord list option option" where
  "resolve_route state (a # b # rest) i fullRoute =
     (case findTrackPath state a b of
        None \<Rightarrow> None
      | Some NoPath \<Rightarrow> Some None
      | Some (Path segment) \<Rightarrow>
          resolve_route state (b # rest) (i + 1)
            (fullRoute @ (if i = 0 then segment else drop 1 segment)))"
| "resolve_route state [a] i fullRoute = Some (Some fullRoute)"
| "resolve_route state [] i fullRoute = Some (Some fullRoute)"

definition buyTrain ::
  "int \<Rightarrow> GameState \<Rightarrow> TrainType \<Rightarrow> HexCoord list \<Rightarrow> (Train option \<times> GameState) option" where
  "buyTrain now state ty routeStations =
     (let cost = (case buyTrain_costMap ty of Some c \<Rightarrow> c | None \<Rightarrow> 5000)
      in if funds state < cost then Some (None, state)
         else if length routeStations < 2 then Some (None, state)
         else if type_name ty \<notin> set (getUnlockedTrainTypes (research state)) then
           Some (None, addNotification now state ''Tech Required'' Danger)
         else case resolve_route state routeStations 0 [] of
           None \<Rightarrow> None
         | Some None \<Rightarrow> Some (None, addNotification now state ''No Track Path'' Danger)
         | Some (Some fullRoute) \<Rightarrow>
             (let config = TRAIN_CONFIGS ty;
                  speedBonus = dbl (1 + dbl (real_of_int (getSpeedBonus (research state)) / 100));
                  capBonus = dbl (1 + dbl (real_of_int (getCapacityBonus (research state)) / 100));
                  s1 = state\<lparr>nextTrainId := nextTrainId state + 1\<rparr>;
                  train =
                    \<lparr>train_id = nextTrainId state,
                     train_name = capitalize (type_name ty) @ '' '' @ show_int (nextTrainId s1 - 1),
                     train_type = ty, route = fullRoute, currentSegment = 0, progress = 0,
                     train_speed = dbl (cfg_speed config * speedBonus),
                     capacity = \<lfloor>dbl (real_of_int (cfg_capacity config) * capBonus)\<rfloor>,
                     cargo = [], revenue = 0, maintenanceCost = cfg_maintenance config,
                     color = cfg_color config\<rparr>;
                  s2 = s1\<lparr>trains := trains s1 @ [train]\<rparr>;
                  s3 = s2\<lparr>funds := funds s2 - cost\<rparr>
              in Some (Some train, addNotification now s3 ''Train Purchased'' Success)))"

section \<open>Paths over the track network\<close>

text \<open>
  \<open>is_walk E xs\<close>: every consecutive pair of \<open>xs\<close> is related by \<open>E\<close>.
  \<open>segment_between state a b\<close>: the track map of the state holds a segment whose endpoints
  are \<open>a\<close> and \<open>b\<close>, in either order. \<open>key_edge\<close> is the same relation on hex keys, and
  \<open>adj_edge\<close> is the neighbour relation of an adjacency map and \<open>nbrs\<close> its neighbour list.
\<close>

fun is_walk :: "('a \<Rightarrow> 'a \<Rightarrow> bool) \<Rightarrow> 'a list \<Rightarrow> bool" where
  "is_walk E [] = True"
| "is_walk E [x] = True"
| "is_walk E (x # y # zs) = (E x y \<and> is_walk E (y # zs))"

definition segment_between :: "GameState \<Rightarrow> HexCoord \<Rightarrow> HexCoord \<Rightarrow> bool" where
  "segment_between state a b =
     list_ex (\<lambda>t. seg_from t = a \<and> seg_to t = b \<or> seg_from t = b \<and> seg_to t = a)
             (map snd (tracks state))"

definition key_edge :: "TrackSegment list \<Rightarrow> string \<Rightarrow> string \<Rightarrow> bool" where
  "key_edge segs a b =
     list_ex (\<lambda>t. hexKey (seg_from t) = a \<and> hexKey (seg_to t) = b
                 \<or> hexKey (seg_from t) = b \<and> hexKey (seg_to t) = a) segs"

definition key_endpoint :: "TrackSegment list \<Rightarrow> string \<Rightarrow> bool" where
  "key_endpoint segs a = list_ex (\<lambda>t. hexKey (seg_from t) = a \<or> hexKey (seg_to t) = a) segs"

definition adj_edge :: "(string \<times> string list) list \<Rightarrow> string \<Rightarrow> string \<Rightarrow> bool" where
  "adj_edge adj a b = (case map_of adj a of None \<Rightarrow> False | Some ns \<Rightarrow> b \<in> set ns)"

definition nbrs :: "(string \<times> string list) list \<Rightarrow> string \<Rightarrow> string list" where
  "nbrs adj a = (case map_of adj a of None \<Rightarrow> [] | Some ns \<Rightarrow> ns)"

section \<open>Invariant of the breadth-first search\<close>

text \<open>
  The invariant of the loop of \<open>findTrackPath\<close>, for the edge relation \<open>E\<close>, the start key
  \<open>s\<close>, the queue \<open>Q\<close> and the map \<open>cf\<close> (\<open>cameFrom\<close>); \<open>l\<close> gives every recorded node its
  level, the number of predecessor links back to the start. The start is recorded with the
  empty string; every recorded node is a hex key; the queue holds recorded nodes without
  repetition, in the order of their levels, which differ by at most one; the predecessor
  of a recorded node is recorded, adjacent to it and one level lower; every neighbour of a
  recorded node that has left the queue is recorded at most one level higher, and the
  nodes that have left the queue are at most as high as those in it.
\<close>

definition bfs_inv ::
  "(string \<Rightarrow> string \<Rightarrow> bool) \<Rightarrow> string \<Rightarrow> (string \<Rightarrow> nat) \<Rightarrow> string list
     \<Rightarrow> (string \<rightharpoonup> string) \<Rightarrow> bool" where
  "bfs_inv E s l Q cf =
     (cf s = Some [] \<and> l s = 0
      \<and> dom cf \<subseteq> range hexKey
      \<and> set Q \<subseteq> dom cf \<and> distinct Q
      \<and> (\<forall>v p. cf v = Some p \<and> v \<noteq> s \<longrightarrow> p \<in> dom cf \<and> E p v \<and> l v = l p + 1)
      \<and> sorted (map l Q)
      \<and> (\<forall>x\<in>set Q. \<forall>y\<in>set Q. l y \<le> l x + 1)
      \<and> (\<forall>v w. v \<in> dom cf \<and> v \<notin> set Q \<and> E v w \<longrightarrow> w \<in> dom cf \<and> l w \<le> l v + 1)
      \<and> (\<forall>v x. v \<in> dom cf \<and> v \<notin> set Q \<and> x \<in> set Q \<longrightarrow> l v \<le> l x))"

section \<open>Example inputs\<close>

text \<open>Small concrete inputs at which the theorems below are evaluated.\<close>

definition example_map :: GameMap where
  "example_map =
     \<lparr>width = 3, height = 1, terrain = [(''0,0'', Water), (''1,0'', Plains), (''2,0'', Plains)],
      cities = [], explored = [], resources = []\<rparr>"

definition hex00 :: HexCoord where "hex00 = \<lparr>q = 0, r = 0\<rparr>"
definition hex10 :: HexCoord where "hex10 = \<lparr>q = 1, r = 0\<rparr>"
definition hex20 :: HexCoord where "hex20 = \<lparr>q = 2, r = 0\<rparr>"

definition example_train :: "TrainType \<Rightarrow> HexCoord list \<Rightarrow> Train" where
  "example_train ty rt =
     \<lparr>train_id = 1, train_name = ''Train 1'', train_type = ty, route = rt,
      currentSegment = 0, progress = 0, train_speed = cfg_speed (TRAIN_CONFIGS ty),
      capacity = cfg_capacity (TRAIN_CONFIGS ty), cargo = [], revenue = 0,
      maintenanceCost = cfg_maintenance (TRAIN_CONFIGS ty), color = cfg_color (TRAIN_CONFIGS ty)\<rparr>"

definition example_station :: "HexCoord \<Rightarrow> int \<Rightarrow> Station" where
  "example_station h ci =
     \<lparr>st_hex = h, st_name = ''Halt 1'', st_type = HaltT, platforms = 1, cityIndex = ci\<rparr>"

definition example_state :: GameState where
  "example_state = createGameState example_map"

definition example_segment :: "HexCoord \<Rightarrow> HexCoord \<Rightarrow> string \<times> TrackSegment" where
  "example_segment a b =
     (trackKey a b, \<lparr>seg_from = a, seg_to = b, built = True, seg_type = Standard\<rparr>)"

definition example_network :: GameState where
  "example_network =
     example_state\<lparr>tracks := [example_segment hex00 hex10, example_segment hex10 hex20]\<rparr>"

definition const_draw :: "real \<Rightarrow> nat \<Rightarrow> real" where
  "const_draw x n = x"

text \<open>
  A line with one passenger train between (1,0) and (2,0), a city station at (2,0) and
  Signal Systems researched; a network of three halts with Quantum Logistics researched and
  a month's income and expenses accumulated; the example network with Maglev Technology and
  Neural Networks researched; a mixed train alone on the line.
\<close>

definition example_line :: GameState where
  "example_line =
     example_state\<lparr>trains := [example_train Passenger [hex10, hex20]],
                    stations := [(hexKey hex20, example_station hex20 0)],
                    research := createResearchState\<lparr>unlocked := [''basic_locomotive'', ''signal_systems'']\<rparr>\<rparr>"

definition example_economy :: GameState where
  "example_economy =
     example_state\<lparr>stations := [(hexKey hex00, example_station hex00 (- 1)),
                                 (hexKey hex10, example_station hex10 (- 1)),
                                 (hexKey hex20, example_station hex20 (- 1))],
                    monthlyIncome := 1000, monthlyExpenses := 200,
                    research := createResearchState\<lparr>unlocked := [''basic_locomotive'', ''quantum_logistics'']\<rparr>\<rparr>"

definition example_maglev :: GameState where
  "example_maglev =
     example_network\<lparr>research := createResearchState
        \<lparr>unlocked := [''basic_locomotive'', ''maglev_technology'', ''neural_networks'']\<rparr>\<rparr>"

definition example_mixed :: GameState where
  "example_mixed = example_state\<lparr>trains := [example_train Mixed [hex10, hex20]]\<rparr>"

text \<open>The position of an era in the order steam, diesel, electric, maglev.\<close>

fun era_index :: "Era \<Rightarrow> nat" where
  "era_index Steam = 0"
| "era_index Diesel = 1"
| "era_index Electric = 2"
| "era_index Maglev = 3"

text \<open>A run of \<open>advanceTime\<close> calls, one for each clock reading of the list.\<close>

fun advanceTimes :: "int list \<Rightarrow> GameState \<Rightarrow> GameState" where
  "advanceTimes [] state = state"
| "advanceTimes (now # nows) state = advanceTimes nows (advanceTime now state)"

section \<open>Train movement: the events of one step\<close>

text \<open>
  Names for what happens to one train in one call of \<open>updateTrains\<close> at the game speed
  \<open>gameSpeed\<close> (multiplier times delta): the progress the code computes and tests, whether
  it crosses 1, whether the crossing completes a leg, where the train stands afterwards, and
  whether that position earns a delivery. The theorems below relate \<open>updateTrain\<close> to them.
\<close>

definition advanced :: "real \<Rightarrow> Train \<Rightarrow> real" where
  "advanced gameSpeed t = dbl (progress t + dbl (train_speed t * gameSpeed))"

definition crossing :: "real \<Rightarrow> Train \<Rightarrow> bool" where
  "crossing gameSpeed t =
     (2 \<le> length (route t) \<and> 1 \<le> advanced gameSpeed t)"

definition leg_complete :: "real \<Rightarrow> Train \<Rightarrow> bool" where
  "leg_complete gameSpeed t =
     (crossing gameSpeed t \<and> length (route t) - 1 \<le> currentSegment t + 1)"

definition moved :: "real \<Rightarrow> Train \<Rightarrow> Train" where
  "moved gameSpeed t =
     (if leg_complete gameSpeed t then
        t\<lparr>route := rev (route t), currentSegment := 0, progress := 0\<rparr>
      else if crossing gameSpeed t then
        t\<lparr>currentSegment := currentSegment t + 1, progress := 0\<rparr>
      else if 2 \<le> length (route t) then
        t\<lparr>progress := advanced gameSpeed t\<rparr>
      else t)"

definition city_station :: "(string \<times> Station) list \<Rightarrow> HexCoord \<Rightarrow> bool" where
  "city_station sts h =
     (case map_of sts (hexKey h) of None \<Rightarrow> False | Some station \<Rightarrow> 0 \<le> cityIndex station)"

definition delivers :: "(string \<times> Station) list \<Rightarrow> real \<Rightarrow> Train \<Rightarrow> bool" where
  "delivers sts gameSpeed t =
     (crossing gameSpeed t \<and>
      city_station sts (route (moved gameSpeed t) ! currentSegment (moved gameSpeed t)))"

definition leg_credit :: "ResearchState \<Rightarrow> real \<Rightarrow> Train \<Rightarrow> int" where
  "leg_credit rs gameSpeed t = (if leg_complete gameSpeed t then baseRevenue rs t else 0)"

definition delivery_credit ::
  "(nat \<Rightarrow> real) \<Rightarrow> nat \<Rightarrow> (string \<times> Station) list \<Rightarrow> real \<Rightarrow> Train \<Rightarrow> int" where
  "delivery_credit rnd k sts gameSpeed t =
     (if delivers sts gameSpeed t then \<lfloor>dbl (rnd k * 200)\<rfloor> + 50 else 0)"

text \<open>
  Within one call the trains draw from the random sequence in list order, one draw per
  delivery: the train at position \<open>i\<close> reads the draw after those of the deliveries of the
  trains before it.
\<close>

definition draw_index ::
  "(string \<times> Station) list \<Rightarrow> real \<Rightarrow> Train list \<Rightarrow> nat \<Rightarrow> nat \<Rightarrow> nat" where
  "draw_index sts gameSpeed ts k i = k + length (filter (delivers sts gameSpeed) (take i ts))"

text \<open>
  A run of \<open>updateTrains\<close> calls, one for each delta of the list, and the number of leg
  completions and of deliveries of the train at position \<open>i\<close> during the run.
\<close>

fun updateTrains_run :: "(nat \<Rightarrow> real) \<Rightarrow> real list \<Rightarrow> GameState \<times> nat \<Rightarrow> GameState \<times> nat" where
  "updateTrains_run rnd [] sk = sk"
| "updateTrains_run rnd (d # ds) sk = updateTrains_run rnd ds (updateTrains rnd (snd sk) (fst sk) d)"

fun legs_completed :: "(nat \<Rightarrow> real) \<Rightarrow> nat \<Rightarrow> real list \<Rightarrow> GameState \<times> nat \<Rightarrow> nat" where
  "legs_completed rnd i [] sk = 0"
| "legs_completed rnd i (d # ds) sk =
     (if leg_complete (dbl (speedMultipliers (game_speed (fst sk)) * d)) (trains (fst sk) ! i)
      then 1 else 0)
     + legs_completed rnd i ds (updateTrains rnd (snd sk) (fst sk) d)"

fun deliveries_made :: "(nat \<Rightarrow> real) \<Rightarrow> nat \<Rightarrow> real list \<Rightarrow> GameState \<times> nat \<Rightarrow> nat" where
  "deliveries_made rnd i [] sk = 0"
| "deliveries_made rnd i (d # ds) sk =
     (if delivers (stations (fst sk)) (dbl (speedMultipliers (game_speed (fst sk)) * d))
           (trains (fst sk) ! i)
      then 1 else 0)
     + deliveries_made rnd i ds (updateTrains rnd (snd sk) (fst sk) d)"

section \<open>Verified properties\<close>

subsection \<open>Double-precision arithmetic\<close>

lemma round_even_err: "\<bar>real_of_int (round_even y) - y\<bar> \<le> 1 / 2"
  unfolding round_even_def Let_def by (auto simp: abs_le_iff)

lemma dbl_err: "\<bar>dbl x - x\<bar> \<le> \<bar>x\<bar> / 2 ^ 53"
proof (cases "x = 0")
  case True
  then show ?thesis by (simp add: dbl_def)
next
  case False
  define e where "e = \<lfloor>log 2 \<bar>x\<bar>\<rfloor>"
  define u where "u = 2 powr (real_of_int e - 52)"
  have u: "0 < u" by (simp add: u_def)
  have "real_of_int e \<le> log 2 \<bar>x\<bar>" by (simp add: e_def)
  then have "2 powr real_of_int e \<le> \<bar>x\<bar>" using False by (simp add: le_log_iff)
  moreover have "2 powr real_of_int e = u * 2 ^ 52"
    by (simp add: u_def powr_diff)
  ultimately have ux: "u * 2 ^ 52 \<le> \<bar>x\<bar>" by simp
  have d: "dbl x = real_of_int (round_even (x / u)) * u"
    using False by (simp add: dbl_def Let_def e_def u_def)
  have "dbl x - x = (real_of_int (round_even (x / u)) - x / u) * u"
    using u by (simp add: d field_simps)
  then have "\<bar>dbl x - x\<bar> = \<bar>real_of_int (round_even (x / u)) - x / u\<bar> * u"
    using u by (simp add: abs_mult)
  also have "\<dots> \<le> 1 / 2 * u"
    using round_even_err [of "x / u"] u by (intro mult_right_mono) simp_all
  also have "\<dots> \<le> \<bar>x\<bar> / 2 ^ 53" using ux by simp
  finally show ?thesis .
qed

lemma dbl_zero: "dbl 0 = 0" by (simp add: dbl_def)

lemma dbl_bounds: "x - \<bar>x\<bar> / 2 ^ 53 \<le> dbl x \<and> dbl x \<le> x + \<bar>x\<bar> / 2 ^ 53"
proof -
  have "x - dbl x \<le> \<bar>dbl x - x\<bar>" "dbl x - x \<le> \<bar>dbl x - x\<bar>" by linarith+
  with dbl_err [of x] have "x - dbl x \<le> \<bar>x\<bar> / 2 ^ 53" "dbl x - x \<le> \<bar>x\<bar> / 2 ^ 53"
    by linarith+
  then show ?thesis by linarith
qed

lemma dbl_nonneg:
  assumes "0 \<le> x"
  shows "0 \<le> dbl x"
proof -
  from dbl_bounds [of x] assms have "x - x / 2 ^ 53 \<le> dbl x" by simp
  moreover have "x / 2 ^ 53 \<le> x" using assms by simp
  ultimately show ?thesis by linarith
qed

lemma dbl_pos:
  assumes "0 < x"
  shows "0 < dbl x"
proof -
  from dbl_bounds [of x] assms have "x - x / 2 ^ 53 \<le> dbl x" by simp
  moreover have "x / 2 ^ 53 < x" using assms by simp
  ultimately show ?thesis by linarith
qed

lemma dbl_neg:
  assumes "x < 0"
  shows "dbl x < 0"
proof -
  from dbl_bounds [of x] assms have "dbl x \<le> x + (- x) / 2 ^ 53" by simp
  moreover have "(- x) / 2 ^ 53 < - x" using assms by simp
  ultimately show ?thesis by linarith
qed

subsection \<open>Keys: rendering and parsing\<close>

text \<open>
  Parsing the rendering of an integer gives the integer back, and so does parsing a hex key:
  \<open>hexKey\<close> is injective on integer coordinates.
\<close>

lemma digit_cases:
  "d < 10 \<Longrightarrow> d = 0 \<or> d = 1 \<or> d = 2 \<or> d = 3 \<or> d = 4 \<or> d = 5 \<or> d = 6 \<or> d = 7
     \<or> d = 8 \<or> d = (9::nat)"
  by arith

lemma digit_val_digit_char: "d < 10 \<Longrightarrow> digit_val (digit_char d) = Some d"
  by (drule digit_cases) (auto simp: digit_val_def digit_char_def)

lemma digit_char_not_sep:
  "d < 10 \<Longrightarrow> digit_char d \<noteq> CHR '','' \<and> digit_char d \<noteq> CHR ''-''"
  by (drule digit_cases) (auto simp: digit_char_def)

lemma parse_digits_snoc:
  "parse_digits acc (cs @ [c]) =
     (case parse_digits acc cs of
        None \<Rightarrow> None
      | Some v \<Rightarrow> (case digit_val c of None \<Rightarrow> None | Some d \<Rightarrow> Some (v * 10 + d)))"
  by (induction cs arbitrary: acc) (auto split: option.splits)

lemma parse_digits_show_nat: "parse_digits 0 (show_nat n) = Some n"
proof (induction n rule: show_nat.induct)
  case (1 n)
  show ?case
  proof (cases "n < 10")
    case True
    then show ?thesis
      by (subst show_nat.simps) (simp add: digit_val_digit_char)
  next
    case False
    with 1 have "parse_digits 0 (show_nat (n div 10)) = Some (n div 10)" by simp
    with False show ?thesis
      by (subst show_nat.simps) (simp add: parse_digits_snoc digit_val_digit_char)
  qed
qed

lemma show_nat_chars: "c \<in> set (show_nat n) \<Longrightarrow> c \<noteq> CHR '','' \<and> c \<noteq> CHR ''-''"
proof (induction n rule: show_nat.induct)
  case (1 n)
  show ?case
  proof (cases "n < 10")
    case True
    with 1(2) show ?thesis
      by (subst (asm) show_nat.simps) (simp add: digit_char_not_sep)
  next
    case False
    with 1 show ?thesis
      by (subst (asm) (2) show_nat.simps) (auto simp: digit_char_not_sep)
  qed
qed

lemma show_nat_nonempty: "show_nat n \<noteq> []"
  by (subst show_nat.simps) simp

lemma parse_int_show_int: "parse_int (show_int i) = Some i"
proof (cases "i < 0")
  case True
  then show ?thesis
    by (simp add: show_int_def parse_int_def parse_nat_def show_nat_nonempty parse_digits_show_nat)
next
  case False
  obtain c cs where cs: "show_nat (nat i) = c # cs"
    using show_nat_nonempty [of "nat i"] by (cases "show_nat (nat i)") auto
  then have "c \<in> set (show_nat (nat i))" by simp
  then have "c \<noteq> CHR ''-''" using show_nat_chars by blast
  moreover have "parse_digits 0 (c # cs) = Some (nat i)"
    using parse_digits_show_nat [of "nat i"] cs by simp
  ultimately show ?thesis using False cs
    by (simp add: show_int_def parse_int_def parse_nat_def)
qed

lemma show_int_no_comma: "CHR '','' \<notin> set (show_int i)"
  using show_nat_chars by (auto simp: show_int_def)

lemma split_comma_nonempty: "split_comma s \<noteq> []"
  by (induction s) (auto split: list.splits)

lemma split_comma_plain: "CHR '','' \<notin> set s \<Longrightarrow> split_comma s = [s]"
  by (induction s) auto

lemma split_comma_append:
  "CHR '','' \<notin> set a \<Longrightarrow> split_comma (a @ CHR '','' # b) = a # split_comma b"
  by (induction a) auto

lemma parseHexKey_hexKey: "parseHexKey (hexKey h) = Some h"
proof -
  have "split_comma (hexKey h) = [show_int (q h), show_int (r h)]"
    by (simp add: hexKey_def split_comma_append split_comma_plain show_int_no_comma)
  then show ?thesis
    by (simp add: parseHexKey_def parse_int_show_int)
qed

lemma hexKey_inj: "hexKey a = hexKey b \<longleftrightarrow> a = b"
  by (metis option.inject parseHexKey_hexKey)

lemma hexKey_nonempty: "hexKey h \<noteq> []"
  by (simp add: hexKey_def)



subsection \<open>Research checks\<close>

lemma getTech_Some: "getTech i = Some t \<Longrightarrow> t \<in> set TECH_TREE \<and> tech_id t = i"
  by (auto simp: getTech_def find_Some_iff)

lemma find_None_all: "(find P xs = None) = (\<forall>x\<in>set xs. \<not> P x)"
  by (induction xs) auto

lemma find_Some_first:
  "find P xs = Some x \<Longrightarrow>
     \<exists>k<length xs. xs ! k = x \<and> P x \<and> (\<forall>j<k. \<not> P (xs ! j))"
  by (auto simp: find_Some_iff)

text \<open>Every prerequisite named in the catalog is itself a catalog entry.\<close>

lemma catalog_prerequisites_known:
  assumes "getTech i = Some t" and "p \<in> set (prerequisites t)"
  shows "\<exists>pt. getTech p = Some pt"
proof -
  from assms(1) have "t \<in> set TECH_TREE" by (simp add: getTech_Some)
  with assms(2) show ?thesis
    unfolding TECH_TREE_def mk_tech_def getTech_def by auto
qed

lemma canResearch_unfold:
  assumes "getTech i = Some t"
  shows "canResearch st i =
     (if i \<in> set (unlocked st) then \<lparr>rc_ok = False, rc_reason = Some ''Already researched''\<rparr>
      else case find (\<lambda>p. p \<notin> set (unlocked st)) (prerequisites t) of
        Some p \<Rightarrow> \<lparr>rc_ok = False, rc_reason = Some (''Requires: '' @
                  (case getTech p of Some pt \<Rightarrow> tech_name pt | None \<Rightarrow> p))\<rparr>
      | None \<Rightarrow>
          if points st < real_of_int (tech_cost t) then
            \<lparr>rc_ok = False,
             rc_reason = Some (''Need '' @ show_int (tech_cost t) @ '' RP (have '' @
               show_int \<lfloor>points st\<rfloor> @ '')'')\<rparr>
          else \<lparr>rc_ok = True, rc_reason = None\<rparr>)"
  using assms by (simp add: canResearch_def)

lemma canResearch_ok_iff:
  "rc_ok (canResearch st i) \<longleftrightarrow>
     \<not> (i \<in> set (unlocked st) \<or> getTech i = None
        \<or> (\<exists>t p. getTech i = Some t \<and> p \<in> set (prerequisites t) \<and> p \<notin> set (unlocked st))
        \<or> (\<exists>t. getTech i = Some t \<and> points st < real_of_int (tech_cost t)))"
proof (cases "getTech i")
  case None
  then show ?thesis by (simp add: canResearch_def)
next
  case (Some t)
  note unf = canResearch_unfold [OF Some, of st]
  show ?thesis
  proof (cases "find (\<lambda>p. p \<notin> set (unlocked st)) (prerequisites t)")
    case None
    then have "\<forall>p\<in>set (prerequisites t). p \<in> set (unlocked st)"
      by (simp add: find_None_all)
    with Some None show ?thesis by (auto simp: unf)
  next
    case (Some p)
    then have "p \<in> set (prerequisites t) \<and> p \<notin> set (unlocked st)"
      by (auto dest: find_Some_first)
    with Some \<open>getTech i = Some t\<close> show ?thesis by (auto simp: unf)
  qed
qed

lemma canResearch_missing:
  assumes "i \<notin> set (unlocked st)" "getTech i = Some t"
    and "\<exists>p\<in>set (prerequisites t). p \<notin> set (unlocked st)"
  shows "\<exists>k pt. k < length (prerequisites t) \<and> prerequisites t ! k \<notin> set (unlocked st)
           \<and> (\<forall>j<k. prerequisites t ! j \<in> set (unlocked st))
           \<and> getTech (prerequisites t ! k) = Some pt
           \<and> canResearch st i = \<lparr>rc_ok = False, rc_reason = Some (''Requires: '' @ tech_name pt)\<rparr>"
proof -
  from assms(3) obtain p where f: "find (\<lambda>p. p \<notin> set (unlocked st)) (prerequisites t) = Some p"
    by (cases "find (\<lambda>p. p \<notin> set (unlocked st)) (prerequisites t)") (auto simp: find_None_all)
  then obtain k where k: "k < length (prerequisites t)" "prerequisites t ! k = p"
    "p \<notin> set (unlocked st)" "\<forall>j<k. prerequisites t ! j \<in> set (unlocked st)"
    by (auto dest: find_Some_first)
  from k(1,2) have "p \<in> set (prerequisites t)" by auto
  with assms(2) obtain pt where pt: "getTech p = Some pt"
    using catalog_prerequisites_known by blast
  have "canResearch st i = \<lparr>rc_ok = False, rc_reason = Some (''Requires: '' @ tech_name pt)\<rparr>"
    using assms(1) f pt by (simp add: canResearch_unfold [OF assms(2)])
  with k pt show ?thesis by blast
qed

lemma canResearch_points:
  assumes "i \<notin> set (unlocked st)" "getTech i = Some t"
    and "\<forall>p\<in>set (prerequisites t). p \<in> set (unlocked st)"
    and "points st < real_of_int (tech_cost t)"
  shows "canResearch st i =
    \<lparr>rc_ok = False,
     rc_reason = Some (''Need '' @ show_int (tech_cost t) @ '' RP (have '' @
       show_int \<lfloor>points st\<rfloor> @ '')'')\<rparr>"
proof -
  from assms(3) have "find (\<lambda>p. p \<notin> set (unlocked st)) (prerequisites t) = None"
    by (simp add: find_None_all)
  with assms show ?thesis by (simp add: canResearch_unfold [OF assms(2)])
qed

text \<open>
  Claim C3, as the code has it. \<open>canResearch\<close> answers not-ok exactly when the id is
  already unlocked, is not in the catalog, has a prerequisite that is not unlocked, or costs
  more than the points held. When a prerequisite is missing, the reason names the first
  missing one in the order of the technology's own \<open>prerequisites\<close> list (every earlier
  entry of that list is unlocked), by its display name. When all prerequisites are unlocked
  and the points are short, the reason gives the cost and the floor of the points held.
\<close>

theorem canResearch_first_missing_in_list_order:
  "(rc_ok (canResearch st i) \<longleftrightarrow>
      \<not> (i \<in> set (unlocked st) \<or> getTech i = None
         \<or> (\<exists>t p. getTech i = Some t \<and> p \<in> set (prerequisites t) \<and> p \<notin> set (unlocked st))
         \<or> (\<exists>t. getTech i = Some t \<and> points st < real_of_int (tech_cost t))))
   \<and> (i \<notin> set (unlocked st) \<and> getTech i = Some t
        \<and> (\<exists>p\<in>set (prerequisites t). p \<notin> set (unlocked st))
      \<longrightarrow> (\<exists>k pt. k < length (prerequisites t) \<and> prerequisites t ! k \<notin> set (unlocked st)
            \<and> (\<forall>j<k. prerequisites t ! j \<in> set (unlocked st))
            \<and> getTech (prerequisites t ! k) = Some pt
            \<and> canResearch st i =
                \<lparr>rc_ok = False, rc_reason = Some (''Requires: '' @ tech_name pt)\<rparr>))
   \<and> (i \<notin> set (unlocked st) \<and> getTech i = Some t
        \<and> (\<forall>p\<in>set (prerequisites t). p \<in> set (unlocked st))
        \<and> points st < real_of_int (tech_cost t)
      \<longrightarrow> canResearch st i =
            \<lparr>rc_ok = False,
             rc_reason = Some (''Need '' @ show_int (tech_cost t) @ '' RP (have '' @
               show_int \<lfloor>points st\<rfloor> @ '')'')\<rparr>)"
  using canResearch_ok_iff [of st i] canResearch_missing [of i st t]
    canResearch_points [of i st t]
  by blast

text \<open>
  The theorem at two inputs. With only the baseline technology unlocked, Luxury Carriages
  has both prerequisites missing and the first of its list, Diesel Engine, is reported.
  With 450.7 points, Passenger Carriages (cost 500) reports the floored 450.
\<close>

theorem canResearch_first_missing_in_list_order_witness:
  "getTech ''luxury_carriages'' =
      Some (mk_tech ''luxury_carriages'' ''Luxury Carriages'' Diesel 2000
             [''diesel_engine'', ''passenger_carriages''] [UnlockTrain ''luxury''])
   \<and> ''luxury_carriages'' \<notin> set (unlocked createResearchState)
   \<and> ''diesel_engine'' \<notin> set (unlocked createResearchState)
   \<and> rc_ok (canResearch createResearchState ''luxury_carriages'') = False
   \<and> rc_reason (canResearch createResearchState ''luxury_carriages'') =
        Some ''Requires: Diesel Engine''
   \<and> rc_reason (canResearch (createResearchState\<lparr>points := 450.7\<rparr>) ''passenger_carriages'') =
        Some ''Need 500 RP (have 450)''"
proof -
  let ?lux = "mk_tech ''luxury_carriages'' ''Luxury Carriages'' Diesel 2000
             [''diesel_engine'', ''passenger_carriages''] [UnlockTrain ''luxury'']"
  let ?pas = "mk_tech ''passenger_carriages'' ''Passenger Carriages'' Steam 500
        [''basic_locomotive''] [UnlockTrain ''passenger'']"
  let ?st = "createResearchState\<lparr>points := 450.7\<rparr>"
  have g: "getTech ''luxury_carriages'' = Some ?lux" by code_simp
  have u: "''luxury_carriages'' \<notin> set (unlocked createResearchState)" by code_simp
  have d: "''diesel_engine'' \<notin> set (unlocked createResearchState)" by code_simp
  have m: "\<exists>p\<in>set (prerequisites ?lux). p \<notin> set (unlocked createResearchState)"
    by (simp add: mk_tech_def createResearchState_def)
  from canResearch_first_missing_in_list_order [of createResearchState "''luxury_carriages''" ?lux]
    g u m
  obtain k pt where k: "k < length (prerequisites ?lux)"
      "\<forall>j<k. prerequisites ?lux ! j \<in> set (unlocked createResearchState)"
      "getTech (prerequisites ?lux ! k) = Some pt"
      "canResearch createResearchState ''luxury_carriages'' =
         \<lparr>rc_ok = False, rc_reason = Some (''Requires: '' @ tech_name pt)\<rparr>"
    by blast
  have "k = 0"
  proof (rule ccontr)
    assume "k \<noteq> 0"
    with k(2) have "prerequisites ?lux ! 0 \<in> set (unlocked createResearchState)" by simp
    with d show False by (simp add: mk_tech_def)
  qed
  with k(3) have "getTech ''diesel_engine'' = Some pt" by (simp add: mk_tech_def)
  moreover have "getTech ''diesel_engine'' =
      Some (mk_tech ''diesel_engine'' ''Diesel Engine'' Diesel 1500
        [''improved_boiler''] [UnlockTrain ''mixed''])" by code_simp
  ultimately have "tech_name pt = ''Diesel Engine''" by (auto simp: mk_tech_def)
  with k(4) have lux: "canResearch createResearchState ''luxury_carriages'' =
         \<lparr>rc_ok = False, rc_reason = Some ''Requires: Diesel Engine''\<rparr>" by simp
  have g2: "getTech ''passenger_carriages'' = Some ?pas" by code_simp
  have u2: "''passenger_carriages'' \<notin> set (unlocked ?st)" by code_simp
  have a2: "\<forall>p\<in>set (prerequisites ?pas). p \<in> set (unlocked ?st)"
    by (simp add: mk_tech_def createResearchState_def)
  have p2: "points ?st < real_of_int (tech_cost ?pas)" by (simp add: mk_tech_def)
  from canResearch_first_missing_in_list_order [of ?st "''passenger_carriages''" ?pas]
    g2 u2 a2 p2
  have "canResearch ?st ''passenger_carriages'' =
      \<lparr>rc_ok = False,
       rc_reason = Some (''Need '' @ show_int (tech_cost ?pas) @ '' RP (have '' @
         show_int \<lfloor>points ?st\<rfloor> @ '')'')\<rparr>"
    by blast
  moreover have "show_int (tech_cost ?pas) = ''500''" by code_simp
  moreover have "show_int \<lfloor>points ?st\<rfloor> = ''450''" by code_simp
  ultimately have pas: "rc_reason (canResearch ?st ''passenger_carriages'') =
      Some ''Need 500 RP (have 450)''" by simp
  from g u d lux pas show ?thesis by simp
qed

text \<open>
  The claim as stated fails: it has the first missing prerequisite taken in catalog order.
  For Luxury Carriages with only the baseline unlocked that is Passenger Carriages (second
  entry of the catalog), while \<open>canResearch\<close> reports Diesel Engine (fifth entry of the
  catalog, first entry of the prerequisites list).
\<close>

theorem canResearch_catalog_order_counterexample:
  "rc_reason (canResearch createResearchState ''luxury_carriages'') =
     Some ''Requires: Diesel Engine''
   \<and> catalog_order_reason createResearchState ''luxury_carriages'' =
     Some ''Requires: Passenger Carriages''
   \<and> rc_reason (canResearch createResearchState ''luxury_carriages'') \<noteq>
     catalog_order_reason createResearchState ''luxury_carriages''"
  by code_simp

subsection \<open>Train retirement\<close>

lemma findIndex_ge: "findIndex p xs \<ge> -1"
  by (induction xs) (auto simp: Let_def)

lemma findIndex_none: "(findIndex p xs = -1) = (\<forall>x\<in>set xs. \<not> p x)"
proof (induction xs)
  case Nil
  show ?case by simp
next
  case (Cons x xs)
  have "findIndex p xs \<ge> -1" by (rule findIndex_ge)
  with Cons show ?case by (auto simp: Let_def)
qed

lemma findIndex_first:
  "findIndex p xs \<noteq> -1 \<Longrightarrow>
     0 \<le> findIndex p xs \<and> nat (findIndex p xs) < length xs \<and> p (xs ! nat (findIndex p xs))
     \<and> (\<forall>j < nat (findIndex p xs). \<not> p (xs ! j))"
proof (induction xs)
  case Nil
  then show ?case by simp
next
  case (Cons x xs)
  show ?case
  proof (cases "p x")
    case True
    then show ?thesis by simp
  next
    case False
    with Cons.prems have ne: "findIndex p xs \<noteq> -1" by (auto simp: Let_def split: if_splits)
    note ih = Cons.IH [OF ne]
    from False ne have eq: "findIndex p (x # xs) = findIndex p xs + 1" by (simp add: Let_def)
    from ih have n: "nat (findIndex p xs + 1) = Suc (nat (findIndex p xs))" by linarith
    show ?thesis unfolding eq n using ih False
      by (auto simp: less_Suc_eq_0_disj)
  qed
qed

lemma addNotification_fields:
  "trains (addNotification now s ti ty) = trains s"
  "funds (addNotification now s ti ty) = funds s"
  "era (addNotification now s ti ty) = era s"
  "month (addNotification now s ti ty) = month s"
  "year (addNotification now s ti ty) = year s"
  "monthlyIncome (addNotification now s ti ty) = monthlyIncome s"
  "monthlyExpenses (addNotification now s ti ty) = monthlyExpenses s"
  by (simp_all add: addNotification_def Let_def)

lemma removeTrain_existing:
  assumes "\<exists>t\<in>set (trains s). train_id t = tid"
  shows "\<exists>i. i < length (trains s) \<and> train_id (trains s ! i) = tid
           \<and> (\<forall>j<i. train_id (trains s ! j) \<noteq> tid)
           \<and> fst (removeTrain now s tid) = True
           \<and> trains (snd (removeTrain now s tid)) = take i (trains s) @ drop (Suc i) (trains s)
           \<and> funds (snd (removeTrain now s tid)) = funds s +
               \<lfloor>0.25 * real_of_int (case train_type (trains s ! i) of
                    Freight \<Rightarrow> 5000 | Passenger \<Rightarrow> 8000 | Mixed \<Rightarrow> 6000 | Luxury \<Rightarrow> 12000
                  | Mail \<Rightarrow> 4000 | _ \<Rightarrow> 5000)\<rfloor>"
proof -
  let ?idx = "findIndex (\<lambda>t. train_id t = tid) (trains s)"
  from assms have ne: "?idx \<noteq> -1" by (simp add: findIndex_none)
  note f = findIndex_first [OF ne]
  have cm: "(case removeTrain_costMap ty of Some c \<Rightarrow> c | None \<Rightarrow> 5000) =
        (case ty of Freight \<Rightarrow> 5000 | Passenger \<Rightarrow> 8000 | Mixed \<Rightarrow> 6000 | Luxury \<Rightarrow> 12000
                  | Mail \<Rightarrow> 4000 | _ \<Rightarrow> 5000)" for ty
    by (cases ty) (simp_all add: COSTS_def)
  have "fst (removeTrain now s tid) = True
      \<and> trains (snd (removeTrain now s tid)) = take (nat ?idx) (trains s) @ drop (Suc (nat ?idx)) (trains s)
      \<and> funds (snd (removeTrain now s tid)) = funds s +
               \<lfloor>0.25 * real_of_int (case train_type (trains s ! nat ?idx) of
                    Freight \<Rightarrow> 5000 | Passenger \<Rightarrow> 8000 | Mixed \<Rightarrow> 6000 | Luxury \<Rightarrow> 12000
                  | Mail \<Rightarrow> 4000 | _ \<Rightarrow> 5000)\<rfloor>"
    using ne by (simp add: removeTrain_def Let_def addNotification_fields cm mult.commute)
  with f show ?thesis by blast
qed

lemma removeTrain_missing:
  "\<forall>t\<in>set (trains s). train_id t \<noteq> tid \<Longrightarrow> removeTrain now s tid = (False, s)"
  by (simp add: removeTrain_def findIndex_none)

lemma refund_values:
  "\<lfloor>0.25 * real_of_int (case ty of
        Freight \<Rightarrow> 5000 | Passenger \<Rightarrow> 8000 | Mixed \<Rightarrow> 6000 | Luxury \<Rightarrow> 12000
      | Mail \<Rightarrow> 4000 | _ \<Rightarrow> 5000)\<rfloor> =
   (case ty of Freight \<Rightarrow> 1250 | Passenger \<Rightarrow> 2000 | Mixed \<Rightarrow> 1500 | Luxury \<Rightarrow> 3000
      | Mail \<Rightarrow> 1000 | Express \<Rightarrow> 1250 | Commuter \<Rightarrow> 1250 | Bullet \<Rightarrow> 1250 | Hyperloop \<Rightarrow> 1250)"
  by (cases ty) simp_all

text \<open>
  Claim C4. When a train with the given id exists, \<open>removeTrain\<close> succeeds, takes the first
  train with that id out of the list and leaves the others in order, and adds to the funds
  \<open>floor(0.25 * cost)\<close>, the cost read from the table of \<open>removeTrain\<close> (freight 5000,
  passenger 8000, mixed 6000, luxury 12000, mail 4000) with 5000 for a type the table does
  not list; so an express, commuter, bullet or hyperloop train refunds 1250.
\<close>

theorem removeTrain_refunds_quarter_of_legacy_cost:
  "(\<exists>t\<in>set (trains s). train_id t = tid) \<longrightarrow>
     (\<exists>i. i < length (trains s) \<and> train_id (trains s ! i) = tid
        \<and> (\<forall>j<i. train_id (trains s ! j) \<noteq> tid)
        \<and> fst (removeTrain now s tid) = True
        \<and> trains (snd (removeTrain now s tid)) = take i (trains s) @ drop (Suc i) (trains s)
        \<and> funds (snd (removeTrain now s tid)) = funds s +
             \<lfloor>0.25 * real_of_int (case train_type (trains s ! i) of
                  Freight \<Rightarrow> 5000 | Passenger \<Rightarrow> 8000 | Mixed \<Rightarrow> 6000 | Luxury \<Rightarrow> 12000
                | Mail \<Rightarrow> 4000 | _ \<Rightarrow> 5000)\<rfloor>
        \<and> (train_type (trains s ! i) \<in> {Express, Commuter, Bullet, Hyperloop} \<longrightarrow>
             funds (snd (removeTrain now s tid)) = funds s + 1250))"
proof
  assume a: "\<exists>t\<in>set (trains s). train_id t = tid"
  from removeTrain_existing [OF a, of now] obtain i where i:
    "i < length (trains s)" "train_id (trains s ! i) = tid"
    "\<forall>j<i. train_id (trains s ! j) \<noteq> tid"
    "fst (removeTrain now s tid) = True"
    "trains (snd (removeTrain now s tid)) = take i (trains s) @ drop (Suc i) (trains s)"
    "funds (snd (removeTrain now s tid)) = funds s +
       \<lfloor>0.25 * real_of_int (case train_type (trains s ! i) of
            Freight \<Rightarrow> 5000 | Passenger \<Rightarrow> 8000 | Mixed \<Rightarrow> 6000 | Luxury \<Rightarrow> 12000
          | Mail \<Rightarrow> 4000 | _ \<Rightarrow> 5000)\<rfloor>"
    by blast
  have "train_type (trains s ! i) \<in> {Express, Commuter, Bullet, Hyperloop} \<longrightarrow>
          funds (snd (removeTrain now s tid)) = funds s + 1250"
    unfolding i(6) refund_values by auto
  with i show "\<exists>i. i < length (trains s) \<and> train_id (trains s ! i) = tid
        \<and> (\<forall>j<i. train_id (trains s ! j) \<noteq> tid)
        \<and> fst (removeTrain now s tid) = True
        \<and> trains (snd (removeTrain now s tid)) = take i (trains s) @ drop (Suc i) (trains s)
        \<and> funds (snd (removeTrain now s tid)) = funds s +
             \<lfloor>0.25 * real_of_int (case train_type (trains s ! i) of
                  Freight \<Rightarrow> 5000 | Passenger \<Rightarrow> 8000 | Mixed \<Rightarrow> 6000 | Luxury \<Rightarrow> 12000
                | Mail \<Rightarrow> 4000 | _ \<Rightarrow> 5000)\<rfloor>
        \<and> (train_type (trains s ! i) \<in> {Express, Commuter, Bullet, Hyperloop} \<longrightarrow>
             funds (snd (removeTrain now s tid)) = funds s + 1250)"
    by blast
qed

text \<open>
  The theorem at a state holding one hyperloop train (purchase price 50000) with id 1:
  retiring it empties the list and raises the funds from 50000 to 51250.
\<close>

theorem removeTrain_refunds_quarter_of_legacy_cost_witness:
  "train_id (example_train Hyperloop [hex00, hex10]) = 1
   \<and> trains (snd (removeTrain 0 (example_state\<lparr>trains := [example_train Hyperloop [hex00, hex10]]\<rparr>) 1)) = []
   \<and> funds (snd (removeTrain 0 (example_state\<lparr>trains := [example_train Hyperloop [hex00, hex10]]\<rparr>) 1)) = 51250"
proof -
  let ?t = "example_train Hyperloop [hex00, hex10]"
  let ?s = "example_state\<lparr>trains := [?t]\<rparr>"
  have id1: "train_id ?t = 1" by (simp add: example_train_def)
  then have ex: "\<exists>t\<in>set (trains ?s). train_id t = 1" by simp
  from removeTrain_refunds_quarter_of_legacy_cost [of ?s 1 0] ex
  obtain i where i: "i < length (trains ?s)"
    "trains (snd (removeTrain 0 ?s 1)) = take i (trains ?s) @ drop (Suc i) (trains ?s)"
    "train_type (trains ?s ! i) \<in> {Express, Commuter, Bullet, Hyperloop} \<longrightarrow>
       funds (snd (removeTrain 0 ?s 1)) = funds ?s + 1250"
    by blast
  from i(1) have i0: "i = 0" by simp
  have ty: "train_type ?t = Hyperloop" by (simp add: example_train_def)
  have f: "funds ?s = 50000" by (simp add: example_state_def createGameState_def)
  from i(2) i0 have "trains (snd (removeTrain 0 ?s 1)) = []" by simp
  moreover from i(3) i0 ty f have "funds (snd (removeTrain 0 ?s 1)) = 51250" by simp
  ultimately show ?thesis using id1 by simp
qed

subsection \<open>Monthly settlement\<close>

lemma updateEconomy_fields:
  "era (updateEconomy s) = era s"
  "month (updateEconomy s) = month s"
  "year (updateEconomy s) = year s"
  "monthlyIncome (updateEconomy s) = 0"
  "monthlyExpenses (updateEconomy s) = 0"
  "lastMonthIncome (updateEconomy s) = monthlyIncome s"
  "lastMonthExpenses (updateEconomy s) = monthlyExpenses s + totalMaintenance s"
  "funds (updateEconomy s) = funds s + (monthlyIncome s - (monthlyExpenses s + totalMaintenance s))"
  by (simp_all add: updateEconomy_def Let_def)

text \<open>
  Claim C5. After \<open>updateEconomy\<close> both monthly accumulators are 0; the last-month income is
  the income accumulated before the call, the last-month expenses are the expenses
  accumulated before the call plus the maintenance of the month, and the funds have changed
  by that income minus those expenses. The maintenance of the month is the floor of the
  double product of the fees and the factor \<open>1 - reduction / 100\<close>; the fees are the era's
  rate for every track segment, 200, 100 or 30 for every terminal, station or other stop,
  and for every train the maintenance of its type in the era.
\<close>

theorem updateEconomy_settles_and_resets:
  "monthlyIncome (updateEconomy s) = 0
   \<and> monthlyExpenses (updateEconomy s) = 0
   \<and> lastMonthIncome (updateEconomy s) = monthlyIncome s
   \<and> lastMonthExpenses (updateEconomy s) = monthlyExpenses s + totalMaintenance s
   \<and> totalMaintenance s =
       \<lfloor>dbl (real_of_int
               (int (length (tracks s)) * TRACK_MAINTENANCE_BY_ERA (era s)
                + sum_list (map (\<lambda>st. if st_type st = TerminalT then 200
                                       else if st_type st = StationT then 100 else 30)
                                (map snd (stations s)))
                + sum_list (map (\<lambda>t. case TRAIN_MAINTENANCE_BY_ERA (train_type t) (era s) of
                                         Some m \<Rightarrow> m | None \<Rightarrow> maintenanceCost t)
                                (trains s)))
             * dbl (1 - dbl (real_of_int (getMaintenanceReduction (research s)) / 100)))\<rfloor>
   \<and> funds (updateEconomy s) = funds s + monthlyIncome s - (monthlyExpenses s + totalMaintenance s)
   \<and> funds (updateEconomy s) - funds s =
        lastMonthIncome (updateEconomy s) - lastMonthExpenses (updateEconomy s)"
  by (simp add: updateEconomy_fields totalMaintenance_def Let_def)

text \<open>
  The theorem on the network of three halts in the steam era, with the maintenance
  reduction 30 of Quantum Logistics, an income of 1000 and expenses of 200 accumulated and
  funds 50000. The fees are 90 and the factor is the double 0.7, whose product with 90 is
  the double 62.99999999999999: the maintenance is 62, the last-month expenses are 262 and
  the funds become 50738.
\<close>

theorem updateEconomy_settles_and_resets_witness:
  "funds example_economy = 50000
   \<and> monthlyIncome example_economy = 1000 \<and> monthlyExpenses example_economy = 200
   \<and> getMaintenanceReduction (research example_economy) = 30
   \<and> totalMaintenance example_economy = 62
   \<and> monthlyIncome (updateEconomy example_economy) = 0
   \<and> monthlyExpenses (updateEconomy example_economy) = 0
   \<and> lastMonthIncome (updateEconomy example_economy) = 1000
   \<and> lastMonthExpenses (updateEconomy example_economy) = 262
   \<and> funds (updateEconomy example_economy) = 50738"
proof -
  let ?s = "example_economy"
  have e: "funds ?s = 50000" "monthlyIncome ?s = 1000" "monthlyExpenses ?s = 200"
    "getMaintenanceReduction (research ?s) = 30"
    by code_simp+
  have f: "int (length (tracks ?s)) * TRACK_MAINTENANCE_BY_ERA (era ?s)
            + sum_list (map (\<lambda>st. if st_type st = TerminalT then 200
                                   else if st_type st = StationT then 100 else 30)
                            (map snd (stations ?s)))
            + sum_list (map (\<lambda>t. case TRAIN_MAINTENANCE_BY_ERA (train_type t) (era ?s) of
                                     Some m \<Rightarrow> m | None \<Rightarrow> maintenanceCost t)
                            (trains ?s)) = 90"
    by code_simp
  have d: "\<lfloor>dbl (90 * dbl (1 - dbl (30 / 100)))\<rfloor> = (62::int)" by code_simp
  note inst = updateEconomy_settles_and_resets [of ?s]
  from inst have "totalMaintenance ?s =
       \<lfloor>dbl (real_of_int
               (int (length (tracks ?s)) * TRACK_MAINTENANCE_BY_ERA (era ?s)
                + sum_list (map (\<lambda>st. if st_type st = TerminalT then 200
                                       else if st_type st = StationT then 100 else 30)
                                (map snd (stations ?s)))
                + sum_list (map (\<lambda>t. case TRAIN_MAINTENANCE_BY_ERA (train_type t) (era ?s) of
                                         Some m \<Rightarrow> m | None \<Rightarrow> maintenanceCost t)
                                (trains ?s)))
             * dbl (1 - dbl (real_of_int (getMaintenanceReduction (research ?s)) / 100)))\<rfloor>"
    by blast
  then have m: "totalMaintenance ?s = 62" unfolding f e(4) using d by simp
  from inst have z: "monthlyIncome (updateEconomy ?s) = 0" "monthlyExpenses (updateEconomy ?s) = 0"
    and l1: "lastMonthIncome (updateEconomy ?s) = monthlyIncome ?s"
    and l2: "lastMonthExpenses (updateEconomy ?s) = monthlyExpenses ?s + totalMaintenance ?s"
    and fu: "funds (updateEconomy ?s) = funds ?s + monthlyIncome ?s
               - (monthlyExpenses ?s + totalMaintenance ?s)"
    by blast+
  from l1 e have l1': "lastMonthIncome (updateEconomy ?s) = 1000" by simp
  from l2 e m have l2': "lastMonthExpenses (updateEconomy ?s) = 262" by simp
  from fu e m have fu': "funds (updateEconomy ?s) = 50738" by simp
  from e m z l1' l2' fu' show ?thesis by blast
qed

subsection \<open>Time and eras\<close>

lemma totalMaintenance_calendar:
  "totalMaintenance (s\<lparr>month := m\<rparr>) = totalMaintenance s"
  "totalMaintenance (s\<lparr>year := y\<rparr>) = totalMaintenance s"
  by (simp_all add: totalMaintenance_def)

lemma era_check_cases:
  "(era (era_check now s) = era s
    \<or> era s = Steam \<and> era (era_check now s) = Diesel \<and> 1900 \<le> year s
    \<or> era s = Diesel \<and> era (era_check now s) = Electric \<and> 1950 \<le> year s
    \<or> era s = Electric \<and> era (era_check now s) = Maglev \<and> 2000 \<le> year s)
   \<and> month (era_check now s) = month s \<and> year (era_check now s) = year s
   \<and> monthlyIncome (era_check now s) = monthlyIncome s
   \<and> monthlyExpenses (era_check now s) = monthlyExpenses s
   \<and> funds (era_check now s) = funds s"
  by (cases "era s") (simp_all add: era_check_def addNotification_fields)

lemma advanceCalendar_cases:
  "(month s + 1 < 12 \<longrightarrow>
       era (advanceCalendar now s) = era s \<and> month (advanceCalendar now s) = month s + 1
       \<and> year (advanceCalendar now s) = year s)
   \<and> (month s + 1 \<ge> 12 \<longrightarrow>
       month (advanceCalendar now s) = 0 \<and> year (advanceCalendar now s) = year s + 1
       \<and> (era (advanceCalendar now s) = era s
          \<or> era s = Steam \<and> era (advanceCalendar now s) = Diesel \<and> 1900 \<le> year s + 1
          \<or> era s = Diesel \<and> era (advanceCalendar now s) = Electric \<and> 1950 \<le> year s + 1
          \<or> era s = Electric \<and> era (advanceCalendar now s) = Maglev \<and> 2000 \<le> year s + 1))
   \<and> monthlyIncome (advanceCalendar now s) = monthlyIncome s
   \<and> monthlyExpenses (advanceCalendar now s) = monthlyExpenses s
   \<and> funds (advanceCalendar now s) = funds s"
  using era_check_cases [of now "s\<lparr>month := 0, year := year s + 1\<rparr>"]
  by (auto simp: advanceCalendar_def Let_def)

lemma advanceTime_step:
  "(era (advanceTime now s) = era s
      \<or> era s = Steam \<and> era (advanceTime now s) = Diesel \<and> 1900 \<le> year (advanceTime now s)
      \<or> era s = Diesel \<and> era (advanceTime now s) = Electric \<and> 1950 \<le> year (advanceTime now s)
      \<or> era s = Electric \<and> era (advanceTime now s) = Maglev \<and> 2000 \<le> year (advanceTime now s))
   \<and> (era (advanceTime now s) \<noteq> era s \<longrightarrow>
        12 \<le> month s + 1 \<and> month (advanceTime now s) = 0 \<and> year (advanceTime now s) = year s + 1)
   \<and> (month s + 1 < 12 \<longrightarrow>
        month (advanceTime now s) = month s + 1 \<and> year (advanceTime now s) = year s)"
  using advanceCalendar_cases [of s now]
  by (auto simp: advanceTime_def updateEconomy_fields)

lemma advanceTime_era_index:
  "era_index (era s) \<le> era_index (era (advanceTime now s))
   \<and> era_index (era (advanceTime now s)) \<le> era_index (era s) + 1"
  using advanceTime_step [of now s] by auto

lemma advanceTimes_era_index:
  "era_index (era s) \<le> era_index (era (advanceTimes nows s))"
proof (induction nows arbitrary: s)
  case Nil
  show ?case by simp
next
  case (Cons now nows)
  have "era_index (era s) \<le> era_index (era (advanceTime now s))"
    using advanceTime_era_index by blast
  also have "\<dots> \<le> era_index (era (advanceTimes nows (advanceTime now s)))"
    by (rule Cons.IH)
  finally show ?case by simp
qed

lemma advanceTime_settles:
  "monthlyIncome (advanceTime now s) = 0 \<and> monthlyExpenses (advanceTime now s) = 0
   \<and> lastMonthIncome (advanceTime now s) = monthlyIncome s
   \<and> lastMonthExpenses (advanceTime now s) =
        monthlyExpenses s + totalMaintenance (advanceCalendar now s)
   \<and> funds (advanceTime now s) =
        funds s + (monthlyIncome s - (monthlyExpenses s + totalMaintenance (advanceCalendar now s)))"
  using advanceCalendar_cases [of s now]
  by (simp add: advanceTime_def updateEconomy_fields)

text \<open>
  Claim C6. One call of \<open>advanceTime\<close> leaves the era as it is or moves it to the next era
  of the order steam, diesel, electric, maglev, and then the year reached is at least 1900,
  1950 or 2000 respectively. The era changes only in a call that wraps the month from 11 to
  0 and increments the year. Over any run of calls the position of the era in the order
  never decreases. Every call, wrapping or not, ends with the settlement \<open>updateEconomy\<close>:
  afterwards the accumulators are 0 and the income accumulated before the call is the
  last-month income.
\<close>

theorem advanceTime_era_monotonic_and_settles:
  "(era (advanceTime now s) = era s
      \<or> era s = Steam \<and> era (advanceTime now s) = Diesel \<and> 1900 \<le> year (advanceTime now s)
      \<or> era s = Diesel \<and> era (advanceTime now s) = Electric \<and> 1950 \<le> year (advanceTime now s)
      \<or> era s = Electric \<and> era (advanceTime now s) = Maglev \<and> 2000 \<le> year (advanceTime now s))
   \<and> (era (advanceTime now s) \<noteq> era s \<longrightarrow>
        12 \<le> month s + 1 \<and> month (advanceTime now s) = 0 \<and> year (advanceTime now s) = year s + 1)
   \<and> (month s + 1 < 12 \<longrightarrow>
        era (advanceTime now s) = era s \<and> month (advanceTime now s) = month s + 1
        \<and> year (advanceTime now s) = year s)
   \<and> era_index (era s) \<le> era_index (era (advanceTime now s))
   \<and> era_index (era (advanceTime now s)) \<le> era_index (era s) + 1
   \<and> era_index (era s) \<le> era_index (era (advanceTimes nows s))
   \<and> advanceTime now s = updateEconomy (advanceCalendar now s)
   \<and> monthlyIncome (advanceTime now s) = 0 \<and> monthlyExpenses (advanceTime now s) = 0
   \<and> lastMonthIncome (advanceTime now s) = monthlyIncome s"
  using advanceTime_step [of now s] advanceTime_era_index [of s now]
    advanceTimes_era_index [of s nows] advanceTime_settles [of now s]
  by (auto simp: advanceTime_def)

text \<open>
  The theorem at December 1899 in the steam era: the call changes the era to diesel, so it
  wrapped the month to 0 and the year to 1900.
\<close>

theorem advanceTime_era_monotonic_and_settles_witness:
  "era (advanceTime 0 (example_state\<lparr>month := 11, year := 1899\<rparr>)) = Diesel
   \<and> era (example_state\<lparr>month := 11, year := 1899\<rparr>) = Steam
   \<and> month (advanceTime 0 (example_state\<lparr>month := 11, year := 1899\<rparr>)) = 0
   \<and> year (advanceTime 0 (example_state\<lparr>month := 11, year := 1899\<rparr>)) = 1900
   \<and> month (advanceTime 0 example_state) = 1
   \<and> era (advanceTime 0 example_state) = Steam"
proof -
  let ?s = "example_state\<lparr>month := 11, year := 1899\<rparr>"
  have m0: "month example_state = 0" "era example_state = Steam"
    by (simp_all add: example_state_def createGameState_def)
  have e0: "era ?s = Steam" "month ?s = 11" "year ?s = 1899"
    by (simp_all add: m0)
  have e1: "era (advanceTime 0 ?s) = Diesel"
    by (simp add: advanceTime_def updateEconomy_fields advanceCalendar_def era_check_def
        addNotification_fields m0)
  with e0 have ne: "era (advanceTime 0 ?s) \<noteq> era ?s" by simp
  from advanceTime_era_monotonic_and_settles [of 0 ?s "[]"]
  have "era (advanceTime 0 ?s) \<noteq> era ?s \<longrightarrow>
        12 \<le> month ?s + 1 \<and> month (advanceTime 0 ?s) = 0 \<and> year (advanceTime 0 ?s) = year ?s + 1"
    by blast
  with ne have w1: "month (advanceTime 0 ?s) = 0" "year (advanceTime 0 ?s) = year ?s + 1"
    by blast+
  from advanceTime_era_monotonic_and_settles [of 0 example_state "[]"]
  have "month example_state + 1 < 12 \<longrightarrow>
        era (advanceTime 0 example_state) = era example_state
        \<and> month (advanceTime 0 example_state) = month example_state + 1
        \<and> year (advanceTime 0 example_state) = year example_state"
    by blast
  with m0 have w2: "month (advanceTime 0 example_state) = 1"
    "era (advanceTime 0 example_state) = Steam"
    by simp_all
  from w1 have w3: "year (advanceTime 0 ?s) = 1900" by simp
  from e0 e1 w1(1) w2 w3 show ?thesis by blast
qed

subsection \<open>Track construction\<close>

lemma map_of_map_set: "map_of (map_set k v m) k' = (if k' = k then Some v else map_of m k')"
  by (induction m) auto












subsection \<open>Station construction\<close>

lemma canBuildStation_empty_network:
  assumes "stations s = []"
  shows "bc_reason (canBuildStation s h) \<noteq> Some ''Must connect to track network''"
    "canBuildStation (s\<lparr>tracks := ts\<rparr>) h = canBuildStation s h"
  using assms by (simp_all add: canBuildStation_def Let_def map_has_def)

lemma canBuildStation_disconnected:
  assumes "stations s \<noteq> []"
    and "\<forall>t\<in>set (map snd (tracks s)). seg_from t \<noteq> h \<and> seg_to t \<noteq> h"
  shows "\<not> bc_ok (canBuildStation s h)"
proof -
  from assms(2) have "\<not> list_ex (\<lambda>t. hexKey (seg_from t) = hexKey h \<or> hexKey (seg_to t) = hexKey h)
                         (map snd (tracks s))"
    by (auto simp: list_ex_iff hexKey_inj)
  with assms(1) show ?thesis
    by (simp add: canBuildStation_def Let_def)
qed

text \<open>
  Claim C8. With no station in the state, \<open>canBuildStation\<close> never answers
  "Must connect to track network", and its answer does not depend on the tracks at all.
  With at least one station, a hex that is an endpoint of no track segment is refused.
\<close>

theorem canBuildStation_connectivity:
  "(stations s = [] \<longrightarrow>
       bc_reason (canBuildStation s h) \<noteq> Some ''Must connect to track network''
       \<and> canBuildStation (s\<lparr>tracks := ts\<rparr>) h = canBuildStation s h)
   \<and> (stations s \<noteq> [] \<and> (\<forall>t\<in>set (map snd (tracks s)). seg_from t \<noteq> h \<and> seg_to t \<noteq> h)
      \<longrightarrow> \<not> bc_ok (canBuildStation s h))"
  using canBuildStation_empty_network canBuildStation_disconnected
  by blast

text \<open>
  The theorem on the example map. With no station, a halt on (2,0) is allowed although no
  track exists. With a station on (1,0) and still no track, (2,0) is refused.
\<close>

theorem canBuildStation_connectivity_witness:
  "stations example_state = []
   \<and> canBuildStation example_state hex20 = \<lparr>bc_ok = True, bc_cost = 1000, bc_reason = None\<rparr>
   \<and> stations (example_state\<lparr>stations := [(hexKey hex10, example_station hex10 (-1))]\<rparr>) \<noteq> []
   \<and> tracks (example_state\<lparr>stations := [(hexKey hex10, example_station hex10 (-1))]\<rparr>) = []
   \<and> bc_ok (canBuildStation
        (example_state\<lparr>stations := [(hexKey hex10, example_station hex10 (-1))]\<rparr>) hex20) = False"
proof -
  let ?s = "example_state\<lparr>stations := [(hexKey hex10, example_station hex10 (-1))]\<rparr>"
  have e: "stations example_state = []" "tracks example_state = []"
    by (simp_all add: example_state_def createGameState_def)
  have c: "canBuildStation example_state hex20 = \<lparr>bc_ok = True, bc_cost = 1000, bc_reason = None\<rparr>"
    by code_simp
  from canBuildStation_connectivity [of example_state hex20 "[]"] e(1)
  have "bc_reason (canBuildStation example_state hex20) \<noteq> Some ''Must connect to track network''"
    by blast
  have n: "stations ?s \<noteq> []" by simp
  have t: "tracks ?s = []" by (simp add: e)
  then have "\<forall>t\<in>set (map snd (tracks ?s)). seg_from t \<noteq> hex20 \<and> seg_to t \<noteq> hex20" by simp
  with canBuildStation_connectivity [of ?s hex20 "[]"] n
  have "bc_ok (canBuildStation ?s hex20) = False" by blast
  with e(1) c n t show ?thesis by blast
qed

subsection \<open>Train movement and revenue\<close>

lemma baseRevenue_rev [simp]:
  "baseRevenue rs (t\<lparr>route := rev (route t), currentSegment := c, progress := p\<rparr>) = baseRevenue rs t"
  by (simp add: baseRevenue_def)

lemma updateTrain_eq:
  "updateTrain rnd gs t (s, k) =
     ((moved gs t)\<lparr>revenue := revenue t + (leg_credit (research s) gs t
                                  + delivery_credit rnd k (stations s) gs t)\<rparr>,
      s\<lparr>monthlyIncome := monthlyIncome s + (leg_credit (research s) gs t
                                  + delivery_credit rnd k (stations s) gs t),
        totalRevenue := totalRevenue s + (leg_credit (research s) gs t
                                  + delivery_credit rnd k (stations s) gs t)\<rparr>,
      if delivers (stations s) gs t then k + 1 else k)"
proof (cases "crossing gs t")
  case False
  then show ?thesis
    by (auto simp: updateTrain_def Let_def crossing_def advanced_def leg_complete_def moved_def
        delivers_def city_station_def leg_credit_def delivery_credit_def)
next
  case True
  show ?thesis
  proof (cases "leg_complete gs t")
    case lc: True
    with True show ?thesis
      by (auto simp: updateTrain_def Let_def crossing_def advanced_def leg_complete_def moved_def
          delivers_def city_station_def leg_credit_def delivery_credit_def baseRevenue_def
          split: option.splits)
  next
    case lc: False
    with True show ?thesis
      by (auto simp: updateTrain_def Let_def crossing_def advanced_def leg_complete_def moved_def
          delivers_def city_station_def leg_credit_def delivery_credit_def split: option.splits)
  qed
qed

lemma loop_state:
  "research (fst (snd (updateTrains_loop rnd gs ts (s, k)))) = research s
   \<and> stations (fst (snd (updateTrains_loop rnd gs ts (s, k)))) = stations s
   \<and> game_speed (fst (snd (updateTrains_loop rnd gs ts (s, k)))) = game_speed s
   \<and> funds (fst (snd (updateTrains_loop rnd gs ts (s, k)))) = funds s
   \<and> length (fst (updateTrains_loop rnd gs ts (s, k))) = length ts
   \<and> snd (snd (updateTrains_loop rnd gs ts (s, k))) = draw_index (stations s) gs ts k (length ts)"
proof (induction ts arbitrary: s k)
  case Nil
  show ?case by (simp add: draw_index_def)
next
  case (Cons t ts)
  show ?case
    using Cons.IH by (simp add: Let_def updateTrain_eq draw_index_def)
qed

lemma loop_nth:
  "i < length ts \<Longrightarrow>
   fst (updateTrains_loop rnd gs ts (s, k)) ! i =
     (moved gs (ts ! i))\<lparr>revenue := revenue (ts ! i) +
        (leg_credit (research s) gs (ts ! i)
         + delivery_credit rnd (draw_index (stations s) gs ts k i) (stations s) gs (ts ! i))\<rparr>"
proof (induction ts arbitrary: s k i)
  case Nil
  then show ?case by simp
next
  case (Cons t ts)
  show ?case
  proof (cases i)
    case 0
    then show ?thesis by (simp add: Let_def updateTrain_eq draw_index_def)
  next
    case (Suc j)
    with Cons.prems have j: "j < length ts" by simp
    show ?thesis
      using Cons.IH [OF j] Suc by (simp add: Let_def updateTrain_eq draw_index_def)
  qed
qed

lemma moved_fields:
  "revenue (moved gs t) = revenue t"
  "train_type (moved gs t) = train_type t"
  "train_id (moved gs t) = train_id t"
  "train_speed (moved gs t) = train_speed t"
  "length (route (moved gs t)) = length (route t)"
  by (simp_all add: moved_def)

lemma loop_income_list:
  "monthlyIncome (fst (snd (updateTrains_loop rnd gs ts (s, k)))) =
     monthlyIncome s
     + sum_list (map2 (\<lambda>t' t. revenue t' - revenue t) (fst (updateTrains_loop rnd gs ts (s, k))) ts)
   \<and> totalRevenue (fst (snd (updateTrains_loop rnd gs ts (s, k)))) =
     totalRevenue s
     + sum_list (map2 (\<lambda>t' t. revenue t' - revenue t) (fst (updateTrains_loop rnd gs ts (s, k))) ts)"
proof (induction ts arbitrary: s k)
  case Nil
  show ?case by simp
next
  case (Cons t ts)
  show ?case
    by (simp add: Let_def updateTrain_eq moved_fields Cons.IH)
qed

lemma map2_sum_nth:
  "length xs = length ys \<Longrightarrow>
   sum_list (map2 f xs ys) = (\<Sum>i<length ys. f (xs ! i) (ys ! i))"
proof -
  assume l: "length xs = length ys"
  have "sum_list (map2 f xs ys) = (\<Sum>i = 0..<length (map2 f xs ys). map2 f xs ys ! i)"
    by (rule sum_list_sum_nth)
  also have "\<dots> = (\<Sum>i<length ys. f (xs ! i) (ys ! i))"
    using l by (intro sum.cong) (auto simp: atLeast0LessThan)
  finally show ?thesis .
qed

lemma loop_income:
  "monthlyIncome (fst (snd (updateTrains_loop rnd gs ts (s, k)))) - monthlyIncome s =
     (\<Sum>i<length ts. revenue (fst (updateTrains_loop rnd gs ts (s, k)) ! i) - revenue (ts ! i))
   \<and> totalRevenue (fst (snd (updateTrains_loop rnd gs ts (s, k)))) - totalRevenue s =
     (\<Sum>i<length ts. revenue (fst (updateTrains_loop rnd gs ts (s, k)) ! i) - revenue (ts ! i))"
proof -
  have l: "length (fst (updateTrains_loop rnd gs ts (s, k))) = length ts"
    using loop_state by blast
  show ?thesis
    using loop_income_list [of rnd gs ts s k] map2_sum_nth [OF l] by simp
qed

lemma updateTrains_state:
  "research (fst (updateTrains rnd k s d)) = research s
   \<and> stations (fst (updateTrains rnd k s d)) = stations s
   \<and> game_speed (fst (updateTrains rnd k s d)) = game_speed s
   \<and> funds (fst (updateTrains rnd k s d)) = funds s
   \<and> length (trains (fst (updateTrains rnd k s d))) = length (trains s)"
  using loop_state [of rnd "dbl (speedMultipliers (game_speed s) * d)" "trains s" s k]
  by (simp add: updateTrains_def Let_def)

lemma updateTrains_nth:
  "i < length (trains s) \<Longrightarrow>
   trains (fst (updateTrains rnd k s d)) ! i =
     (moved (dbl (speedMultipliers (game_speed s) * d)) (trains s ! i))\<lparr>revenue :=
        revenue (trains s ! i) +
        (leg_credit (research s) (dbl (speedMultipliers (game_speed s) * d)) (trains s ! i)
         + delivery_credit rnd
             (draw_index (stations s) (dbl (speedMultipliers (game_speed s) * d)) (trains s) k i)
             (stations s) (dbl (speedMultipliers (game_speed s) * d)) (trains s ! i))\<rparr>"
  using loop_nth [of i "trains s" rnd "dbl (speedMultipliers (game_speed s) * d)" s k]
  by (simp add: updateTrains_def Let_def)

lemma updateTrains_income:
  "monthlyIncome (fst (updateTrains rnd k s d)) - monthlyIncome s =
     (\<Sum>i<length (trains s). revenue (trains (fst (updateTrains rnd k s d)) ! i) - revenue (trains s ! i))
   \<and> totalRevenue (fst (updateTrains rnd k s d)) - totalRevenue s =
     (\<Sum>i<length (trains s). revenue (trains (fst (updateTrains rnd k s d)) ! i) - revenue (trains s ! i))"
  using loop_income [of rnd "dbl (speedMultipliers (game_speed s) * d)" "trains s" s k]
  by (simp add: updateTrains_def Let_def)

text \<open>
  \<open>Math.floor(Math.random() * n)\<close> for a draw that is a double below 1, so at most
  \<open>1 - 2 ^ -53\<close>: the rounded product stays below \<open>n\<close>.
\<close>

lemma draw_scaled:
  assumes "0 \<le> x" "x \<le> 1 - 1 / 2 ^ 53" "0 < n"
  shows "0 \<le> dbl (x * n) \<and> dbl (x * n) < n"
proof -
  have y0: "0 \<le> x * n" using assms by simp
  have y1: "x * n \<le> (1 - 1 / 2 ^ 53) * n" using assms by (intro mult_right_mono) simp_all
  from dbl_bounds [of "x * n"] y0 have "dbl (x * n) \<le> x * n + x * n / 2 ^ 53" by simp
  also have "\<dots> = (x * n) * (1 + 1 / 2 ^ 53)" by (simp add: algebra_simps)
  also have "\<dots> \<le> ((1 - 1 / 2 ^ 53) * n) * (1 + 1 / 2 ^ 53)"
    by (rule mult_right_mono [OF y1]) simp
  also have "\<dots> = n * ((1 - 1 / 2 ^ 53) * (1 + 1 / 2 ^ 53))" by (simp add: algebra_simps)
  also have "\<dots> < n * 1" using assms(3) by (intro mult_strict_left_mono) simp_all
  finally have "dbl (x * n) < n" by simp
  with dbl_nonneg [OF y0] show ?thesis by simp
qed

lemma delivery_draw_bounds:
  assumes "0 \<le> x" "x \<le> 1 - 1 / 2 ^ 53"
  shows "50 \<le> \<lfloor>dbl (x * 200)\<rfloor> + 50 \<and> \<lfloor>dbl (x * 200)\<rfloor> + 50 \<le> 249"
proof -
  from draw_scaled [OF assms, of 200] have "0 \<le> dbl (x * 200)" "dbl (x * 200) < 200" by simp_all
  then have "0 \<le> \<lfloor>dbl (x * 200)\<rfloor>" "\<lfloor>dbl (x * 200)\<rfloor> < 200" by (simp_all add: floor_less_iff)
  then show ?thesis by simp
qed

lemma delivery_credit_bounds:
  assumes "0 \<le> rnd k" "rnd k \<le> 1 - 1 / 2 ^ 53"
  shows "(if delivers sts gs t then 50 else 0) \<le> delivery_credit rnd k sts gs t
       \<and> delivery_credit rnd k sts gs t \<le> (if delivers sts gs t then 249 else 0)"
  using delivery_draw_bounds [OF assms] by (simp add: delivery_credit_def)

lemma baseRevenue_cong:
  "length (route a) = length (route b) \<Longrightarrow> train_type a = train_type b \<Longrightarrow>
   baseRevenue rs a = baseRevenue rs b"
  by (simp add: baseRevenue_def)

lemma run_revenue:
  assumes "\<forall>j. 0 \<le> rnd j \<and> rnd j \<le> 1 - 1 / 2 ^ 53"
  shows "i < length (trains s) \<Longrightarrow>
    \<exists>D. revenue (trains (fst (updateTrains_run rnd ds (s, k))) ! i) =
          revenue (trains s ! i)
          + int (legs_completed rnd i ds (s, k)) * baseRevenue (research s) (trains s ! i) + D
       \<and> 50 * int (deliveries_made rnd i ds (s, k)) \<le> D
       \<and> D \<le> 249 * int (deliveries_made rnd i ds (s, k))"
proof (induction ds arbitrary: s k)
  case Nil
  show ?case by simp
next
  case (Cons d ds)
  let ?gs = "dbl (speedMultipliers (game_speed s) * d)"
  let ?t = "trains s ! i"
  let ?r = "updateTrains rnd k s d"
  let ?ki = "draw_index (stations s) ?gs (trains s) k i"
  let ?dc = "delivery_credit rnd ?ki (stations s) ?gs ?t"
  obtain s1 k1 where r: "?r = (s1, k1)" by (cases ?r)
  have st: "research s1 = research s" "length (trains s1) = length (trains s)"
    using updateTrains_state [of rnd k s d] r by simp_all
  have t1: "trains s1 ! i = (moved ?gs ?t)\<lparr>revenue := revenue ?t +
        (leg_credit (research s) ?gs ?t + ?dc)\<rparr>"
    using updateTrains_nth [OF Cons.prems, of rnd k d] r by simp
  have b: "baseRevenue (research s1) (trains s1 ! i) = baseRevenue (research s) ?t"
    unfolding st(1) by (rule baseRevenue_cong) (simp_all add: t1 moved_fields)
  from Cons.prems st have "i < length (trains s1)" by simp
  from Cons.IH [OF this, of k1] b obtain D where D:
    "revenue (trains (fst (updateTrains_run rnd ds (s1, k1))) ! i) =
          revenue (trains s1 ! i)
          + int (legs_completed rnd i ds (s1, k1)) * baseRevenue (research s) ?t + D"
    "50 * int (deliveries_made rnd i ds (s1, k1)) \<le> D"
    "D \<le> 249 * int (deliveries_made rnd i ds (s1, k1))"
    by auto
  have db: "(if delivers (stations s) ?gs ?t then 50 else 0) \<le> ?dc
       \<and> ?dc \<le> (if delivers (stations s) ?gs ?t then 249 else 0)"
    using assms by (intro delivery_credit_bounds) auto
  have rev1: "revenue (trains s1 ! i) = revenue ?t + leg_credit (research s) ?gs ?t + ?dc"
    by (simp add: t1)
  show ?case
  proof (intro exI [of _ "?dc + D"] conjI)
    show "revenue (trains (fst (updateTrains_run rnd (d # ds) (s, k))) ! i) =
        revenue ?t + int (legs_completed rnd i (d # ds) (s, k)) * baseRevenue (research s) ?t
        + (?dc + D)"
      using D(1) rev1 r by (simp add: leg_credit_def algebra_simps)
    show "50 * int (deliveries_made rnd i (d # ds) (s, k)) \<le> ?dc + D"
      using D(2) db r by (simp split: if_splits)
    show "?dc + D \<le> 249 * int (deliveries_made rnd i (d # ds) (s, k))"
      using D(3) db r by (simp split: if_splits)
  qed
qed

lemma typeMultiplier_values:
  "typeMultiplier Hyperloop = 5 \<and> typeMultiplier Bullet = 4 \<and> typeMultiplier Luxury = 3
   \<and> typeMultiplier Express = 2.5 \<and> typeMultiplier Passenger = 2 \<and> typeMultiplier Commuter = 1.5
   \<and> typeMultiplier Freight = 1 \<and> typeMultiplier Mixed = 1 \<and> typeMultiplier Mail = 1"
  by (simp add: typeMultiplier_def)

text \<open>
  The revenue bonus of a research state: 20 for every entry \<open>signal_systems\<close> of the unlocked
  list and 25 for every entry \<open>quantum_logistics\<close>; no other technology has a revenue effect.
\<close>

lemma tech_revenue_bonus:
  "sum_list (map (\<lambda>e. case e of RevenueBonus v \<Rightarrow> v | _ \<Rightarrow> 0)
       (case getTech i of None \<Rightarrow> [] | Some tech \<Rightarrow> effects tech)) =
   (if i = ''signal_systems'' then 20 else if i = ''quantum_logistics'' then 25 else 0)"
  by (simp add: getTech_def TECH_TREE_def mk_tech_def)

lemma revenue_bonus_count:
  "sum_list (map (\<lambda>e. case e of RevenueBonus v \<Rightarrow> v | _ \<Rightarrow> 0)
       (concat (map (\<lambda>techId. case getTech techId of None \<Rightarrow> [] | Some tech \<Rightarrow> effects tech) ids)))
   = 20 * int (count_list ids ''signal_systems'') + 25 * int (count_list ids ''quantum_logistics'')"
proof (induction ids)
  case Nil
  show ?case by simp
next
  case (Cons i ids)
  show ?case using Cons.IH tech_revenue_bonus [of i] by simp
qed

lemma getRevenueBonus_count:
  "getRevenueBonus rs =
     20 * int (count_list (unlocked rs) ''signal_systems'')
     + 25 * int (count_list (unlocked rs) ''quantum_logistics'')"
  unfolding getRevenueBonus_def unlocked_effects_def by (rule revenue_bonus_count)

lemma rev_nth_0: "xs \<noteq> [] \<Longrightarrow> rev xs ! 0 = last xs"
  by (simp add: rev_nth last_conv_nth)

lemma updateTrains_leg:
  assumes i: "i < length (trains s)" and rnd: "\<forall>j. 0 \<le> rnd j \<and> rnd j \<le> 1 - 1 / 2 ^ 53"
    and leg: "2 \<le> length (route (trains s ! i))"
      "1 \<le> dbl (progress (trains s ! i)
                + dbl (train_speed (trains s ! i) * dbl (speedMultipliers (game_speed s) * delta)))"
      "length (route (trains s ! i)) - 1 \<le> currentSegment (trains s ! i) + 1"
  shows "route (trains (fst (updateTrains rnd k s delta)) ! i) = rev (route (trains s ! i))
     \<and> currentSegment (trains (fst (updateTrains rnd k s delta)) ! i) = 0
     \<and> progress (trains (fst (updateTrains rnd k s delta)) ! i) = 0
     \<and> (\<exists>dl. revenue (trains (fst (updateTrains rnd k s delta)) ! i) =
               revenue (trains s ! i) + baseRevenue (research s) (trains s ! i) + dl
           \<and> (if city_station (stations s) (last (route (trains s ! i)))
               then 50 \<le> dl \<and> dl \<le> 249 else dl = 0))"
proof -
  let ?gs = "dbl (speedMultipliers (game_speed s) * delta)"
  let ?t = "trains s ! i"
  let ?ki = "draw_index (stations s) ?gs (trains s) k i"
  let ?dc = "delivery_credit rnd ?ki (stations s) ?gs ?t"
  from leg have lc: "leg_complete ?gs ?t" and cr: "crossing ?gs ?t"
    by (simp_all add: leg_complete_def crossing_def advanced_def)
  from leg(1) have ne: "route ?t \<noteq> []" by auto
  have dv: "delivers (stations s) ?gs ?t = city_station (stations s) (last (route ?t))"
    using lc cr ne by (simp add: delivers_def moved_def rev_nth_0)
  have db: "(if delivers (stations s) ?gs ?t then 50 else 0) \<le> ?dc
       \<and> ?dc \<le> (if delivers (stations s) ?gs ?t then 249 else 0)"
    using rnd by (intro delivery_credit_bounds) auto
  then have "if city_station (stations s) (last (route ?t)) then 50 \<le> ?dc \<and> ?dc \<le> 249 else ?dc = 0"
    unfolding dv by (auto split: if_splits)
  then show ?thesis
    using lc by (simp add: updateTrains_nth [OF i] moved_def leg_credit_def)
qed

text \<open>
  Claim C2. Take the train at position \<open>i\<close> of the list and a call of \<open>updateTrains\<close> whose
  random draws are doubles of \<open>[0, 1)\<close>, so at most \<open>1 - 2 ^ -53\<close>. If the route has at least
  two hexes, the progress the code computes (the double sum of the progress and the double
  product of speed, multiplier and delta) reaches 1 and the incremented segment reaches the
  last edge, then after the call the route is reversed, the segment is 0, and the train's
  revenue has grown by \<open>floor(routeLength * 100 * typeMultiplier * (1 + revenueBonus / 100))\<close>,
  evaluated in doubles from left to right as the code does, plus a delivery amount: between
  50 and 249 when the hex the train now stands on, the last hex of the route before the
  reversal, has a station with a city, and 0 otherwise. Over the whole call the monthly
  income and the total revenue grow by the sum of the revenue growth of all trains. Over a
  run of calls the revenue of the train grows by the number of its leg completions times
  that amount (a full traversal, forward and back, is two leg completions) plus deliveries
  worth between 50 and 249 each. The revenue bonus is 20 for Signal Systems plus 25 for
  Quantum Logistics, counted as often as the unlocked list holds them. The multipliers are
  5, 4, 3, 2.5, 2 and 1.5 for hyperloop, bullet, luxury, express, passenger and commuter,
  and 1 for freight, mixed and mail.
\<close>

theorem updateTrains_leg_revenue:
  "(i < length (trains s) \<and> (\<forall>j. 0 \<le> rnd j \<and> rnd j \<le> 1 - 1 / 2 ^ 53) \<longrightarrow>
      (2 \<le> length (route (trains s ! i))
         \<and> 1 \<le> dbl (progress (trains s ! i)
                   + dbl (train_speed (trains s ! i) * dbl (speedMultipliers (game_speed s) * delta)))
         \<and> length (route (trains s ! i)) - 1 \<le> currentSegment (trains s ! i) + 1
       \<longrightarrow> route (trains (fst (updateTrains rnd k s delta)) ! i) = rev (route (trains s ! i))
         \<and> currentSegment (trains (fst (updateTrains rnd k s delta)) ! i) = 0
         \<and> (\<exists>dl. revenue (trains (fst (updateTrains rnd k s delta)) ! i) =
                   revenue (trains s ! i)
                   + \<lfloor>dbl (dbl (dbl (real (length (route (trains s ! i))) * 100)
                                 * typeMultiplier (train_type (trains s ! i)))
                            * dbl (1 + dbl (real_of_int (getRevenueBonus (research s)) / 100)))\<rfloor>
                   + dl
               \<and> (if city_station (stations s) (last (route (trains s ! i)))
                   then 50 \<le> dl \<and> dl \<le> 249 else dl = 0)))
      \<and> monthlyIncome (fst (updateTrains rnd k s delta)) - monthlyIncome s =
          (\<Sum>j<length (trains s).
              revenue (trains (fst (updateTrains rnd k s delta)) ! j) - revenue (trains s ! j))
      \<and> totalRevenue (fst (updateTrains rnd k s delta)) - totalRevenue s =
          (\<Sum>j<length (trains s).
              revenue (trains (fst (updateTrains rnd k s delta)) ! j) - revenue (trains s ! j))
      \<and> (\<exists>D. revenue (trains (fst (updateTrains_run rnd ds (s, k))) ! i) =
                revenue (trains s ! i)
                + int (legs_completed rnd i ds (s, k))
                  * \<lfloor>dbl (dbl (dbl (real (length (route (trains s ! i))) * 100)
                                * typeMultiplier (train_type (trains s ! i)))
                           * dbl (1 + dbl (real_of_int (getRevenueBonus (research s)) / 100)))\<rfloor>
                + D
             \<and> 50 * int (deliveries_made rnd i ds (s, k)) \<le> D
             \<and> D \<le> 249 * int (deliveries_made rnd i ds (s, k))))
   \<and> getRevenueBonus (research s) =
       20 * int (count_list (unlocked (research s)) ''signal_systems'')
       + 25 * int (count_list (unlocked (research s)) ''quantum_logistics'')
   \<and> typeMultiplier Hyperloop = 5 \<and> typeMultiplier Bullet = 4 \<and> typeMultiplier Luxury = 3
   \<and> typeMultiplier Express = 2.5 \<and> typeMultiplier Passenger = 2 \<and> typeMultiplier Commuter = 1.5
   \<and> typeMultiplier Freight = 1 \<and> typeMultiplier Mixed = 1 \<and> typeMultiplier Mail = 1"
proof -
  have b: "baseRevenue (research s) (trains s ! i) =
      \<lfloor>dbl (dbl (dbl (real (length (route (trains s ! i))) * 100)
                    * typeMultiplier (train_type (trains s ! i)))
               * dbl (1 + dbl (real_of_int (getRevenueBonus (research s)) / 100)))\<rfloor>"
    by (simp add: baseRevenue_def)
  show ?thesis
    using updateTrains_leg [of i s rnd delta k] updateTrains_income [of rnd k s delta]
      run_revenue [of rnd i s ds k] typeMultiplier_values getRevenueBonus_count [of "research s"]
    unfolding b by blast
qed

text \<open>
  The theorem on the example line at game speed 1 with delta 4 and every draw 0.5. The
  passenger train (speed 0.25) reaches progress 1 on its only edge: the route is reversed,
  and with the revenue bonus 20 the leg is worth \<open>floor(2 * 100 * 2 * 1.2) = 480\<close>; the
  train stands on the city station of (2,0) and delivers \<open>floor(0.5 * 200) + 50 = 150\<close>, so
  revenue and monthly income are 630. A second call completes the leg back, to (1,0) where
  there is no station: after the run of two calls the train has completed 2 legs and made 1
  delivery, and its revenue is \<open>2 * 480 + 150 = 1110\<close>.
\<close>

theorem updateTrains_leg_revenue_witness:
  "length (trains example_line) = 1
   \<and> getRevenueBonus (research example_line) = 20
   \<and> dbl (progress (trains example_line ! 0)
           + dbl (train_speed (trains example_line ! 0)
                  * dbl (speedMultipliers (game_speed example_line) * 4))) = 1
   \<and> city_station (stations example_line) (last (route (trains example_line ! 0)))
   \<and> route (trains (fst (updateTrains (const_draw (1 / 2)) 0 example_line 4)) ! 0) = [hex20, hex10]
   \<and> currentSegment (trains (fst (updateTrains (const_draw (1 / 2)) 0 example_line 4)) ! 0) = 0
   \<and> revenue (trains (fst (updateTrains (const_draw (1 / 2)) 0 example_line 4)) ! 0) = 630
   \<and> monthlyIncome (fst (updateTrains (const_draw (1 / 2)) 0 example_line 4)) = 630
   \<and> legs_completed (const_draw (1 / 2)) 0 [4, 4] (example_line, 0) = 2
   \<and> deliveries_made (const_draw (1 / 2)) 0 [4, 4] (example_line, 0) = 1
   \<and> revenue (trains (fst (updateTrains_run (const_draw (1 / 2)) [4, 4] (example_line, 0))) ! 0)
       = 1110"
proof -
  let ?s = "example_line"
  let ?rnd = "const_draw (1 / 2)"
  let ?s' = "fst (updateTrains ?rnd 0 ?s 4)"
  have h1: "0 < length (trains ?s)" by code_simp
  have h2: "\<forall>j. 0 \<le> ?rnd j \<and> ?rnd j \<le> 1 - 1 / 2 ^ 53" by (simp add: const_draw_def)
  have p1: "dbl (progress (trains ?s ! 0)
           + dbl (train_speed (trains ?s ! 0) * dbl (speedMultipliers (game_speed ?s) * 4))) = 1"
    by code_simp
  have h3: "2 \<le> length (route (trains ?s ! 0))
         \<and> 1 \<le> dbl (progress (trains ?s ! 0)
                   + dbl (train_speed (trains ?s ! 0) * dbl (speedMultipliers (game_speed ?s) * 4)))
         \<and> length (route (trains ?s ! 0)) - 1 \<le> currentSegment (trains ?s ! 0) + 1"
    unfolding p1 by code_simp
  have rt: "route (trains ?s ! 0) = [hex10, hex20]" "revenue (trains ?s ! 0) = 0"
    "monthlyIncome ?s = 0" "length (trains ?s) = 1"
    by code_simp+
  have cs: "city_station (stations ?s) (last (route (trains ?s ! 0)))" by code_simp
  note inst = updateTrains_leg_revenue [of 0 ?s ?rnd 4 0 "[4, 4]"]
  from inst h1 h2 h3 have r1: "route (trains ?s' ! 0) = rev (route (trains ?s ! 0))"
    and r2: "currentSegment (trains ?s' ! 0) = 0" by blast+
  from inst h1 h2 have r3: "monthlyIncome ?s' - monthlyIncome ?s =
          (\<Sum>j<length (trains ?s). revenue (trains ?s' ! j) - revenue (trains ?s ! j))"
    by blast
  from inst have rb: "getRevenueBonus (research ?s) =
       20 * int (count_list (unlocked (research ?s)) ''signal_systems'')
       + 25 * int (count_list (unlocked (research ?s)) ''quantum_logistics'')" by blast
  have "unlocked (research ?s) = [''basic_locomotive'', ''signal_systems'']"
    by (simp add: example_line_def)
  with rb have rb20: "getRevenueBonus (research ?s) = 20" by simp
  have r4: "revenue (trains ?s' ! 0) = 630" by code_simp
  from r3 r4 have r5: "monthlyIncome ?s' = 630" by (simp add: rt)
  from r1 have r1': "route (trains ?s' ! 0) = [hex20, hex10]" by (simp add: rt)
  have r6: "legs_completed ?rnd 0 [4, 4] (?s, 0) = 2" by code_simp
  have r7: "deliveries_made ?rnd 0 [4, 4] (?s, 0) = 1" by code_simp
  have r8: "revenue (trains (fst (updateTrains_run ?rnd [4, 4] (?s, 0))) ! 0) = 1110"
    by code_simp
  from rt(4) rb20 p1 cs r1' r2 r4 r5 r6 r7 r8 show ?thesis by blast
qed

text \<open>
  The crossing is decided by the doubles. A mixed train (speed 0.2) at game speed 1 gains
  the double 0.1 in a call of delta 0.5; ten such calls sum to the double
  0.9999999999999999, below 1: the train has completed no leg and earned nothing.
\<close>

lemma updateTrains_ten_tenths:
  "legs_completed (const_draw 0) 0 (replicate 10 (1 / 2)) (example_mixed, 0) = 0
   \<and> revenue (trains (fst (updateTrains_run (const_draw 0) (replicate 10 (1 / 2))
        (example_mixed, 0))) ! 0) = 0
   \<and> progress (trains (fst (updateTrains_run (const_draw 0) (replicate 10 (1 / 2))
        (example_mixed, 0))) ! 0) = 1 - 1 / 2 ^ 53"
  by code_simp

subsection \<open>Network pathfinding\<close>

lemma set_set_add: "set (set_add n ns) = insert n (set ns)"
  by (auto simp: set_add_def)

lemma adj_edge_nbrs: "adj_edge adj a b = (b \<in> set (nbrs adj a))"
  by (simp add: adj_edge_def nbrs_def split: option.splits)

lemma adj_add_has: "map_has (adj_add k n adj) x = map_has adj x"
  by (auto simp: adj_add_def map_has_def map_of_map_set split: option.splits)

lemma nbrs_map_set: "nbrs (map_set k v adj) x = (if x = k then v else nbrs adj x)"
  by (simp add: nbrs_def map_of_map_set)

lemma adj_add_nbrs:
  "set (nbrs (adj_add k n adj) x) =
     set (nbrs adj x) \<union> (if x = k \<and> map_has adj k then {n} else {})"
proof (cases "map_of adj k")
  case None
  then show ?thesis by (simp add: adj_add_def map_has_def)
next
  case (Some ns)
  then have 1: "adj_add k n adj = map_set k (set_add n ns) adj" by (simp add: adj_add_def)
  from Some have 2: "map_has adj k" "nbrs adj k = ns" by (simp_all add: map_has_def nbrs_def)
  show ?thesis
  proof (cases "x = k")
    case True
    with 2 show ?thesis unfolding 1 nbrs_map_set by (simp add: set_set_add)
  next
    case False
    then show ?thesis unfolding 1 nbrs_map_set by simp
  qed
qed

lemma ensure_has: "map_has (adj_ensure k adj) x = (map_has adj x \<or> x = k)"
  by (auto simp: adj_ensure_def map_has_def map_of_map_set)

lemma ensure_nbrs: "nbrs (adj_ensure k adj) x = nbrs adj x"
  by (auto simp: adj_ensure_def map_has_def nbrs_def map_of_map_set)

lemma map_has_add_track:
  "map_has (add_track adj t) a =
     (map_has adj a \<or> a = hexKey (seg_from t) \<or> a = hexKey (seg_to t))"
  by (simp add: add_track_def Let_def adj_add_has ensure_has)

lemma nbrs_add_track:
  "set (nbrs (add_track adj t) a) =
     set (nbrs adj a) \<union> (if a = hexKey (seg_from t) then {hexKey (seg_to t)} else {})
                      \<union> (if a = hexKey (seg_to t) then {hexKey (seg_from t)} else {})"
  by (simp add: add_track_def Let_def adj_add_nbrs adj_add_has ensure_has ensure_nbrs)

lemma adj_edge_add_track:
  "adj_edge (add_track adj t) a b =
     (adj_edge adj a b
      \<or> a = hexKey (seg_from t) \<and> b = hexKey (seg_to t)
      \<or> a = hexKey (seg_to t) \<and> b = hexKey (seg_from t))"
  unfolding adj_edge_nbrs nbrs_add_track by auto

lemma adj_edge_foldl:
  "adj_edge (foldl add_track adj segs) a b = (adj_edge adj a b \<or> key_edge segs a b)"
  by (induction segs arbitrary: adj) (auto simp: adj_edge_add_track key_edge_def)

lemma map_has_foldl:
  "map_has (foldl add_track adj segs) a = (map_has adj a \<or> key_endpoint segs a)"
  by (induction segs arbitrary: adj) (auto simp: map_has_add_track key_endpoint_def)

lemma adj_edge_build_adj: "adj_edge (build_adj ts) a b = key_edge (map snd ts) a b"
proof -
  have "\<not> adj_edge [] a b" by (simp add: adj_edge_def)
  then show ?thesis unfolding build_adj_def adj_edge_foldl by simp
qed

lemma map_has_build_adj: "map_has (build_adj ts) a = key_endpoint (map snd ts) a"
proof -
  have "\<not> map_has ([] :: (string \<times> string list) list) a" by (simp add: map_has_def)
  then show ?thesis unfolding build_adj_def map_has_foldl by simp
qed

lemma key_edge_valid: "key_edge segs a b \<Longrightarrow> a \<in> range hexKey \<and> b \<in> range hexKey"
  by (auto simp: key_edge_def list_ex_iff)

lemma key_edge_hexKey:
  "key_edge (map snd (tracks s)) (hexKey a) (hexKey b) = segment_between s a b"
  by (simp add: key_edge_def segment_between_def hexKey_inj)

lemma key_endpoint_hexKey:
  "key_endpoint (map snd (tracks s)) (hexKey a) =
     list_ex (\<lambda>t. seg_from t = a \<or> seg_to t = a) (map snd (tracks s))"
  by (simp add: key_endpoint_def hexKey_inj)

lemma is_walk_snoc:
  "is_walk E (xs @ [y]) = (is_walk E xs \<and> (xs = [] \<or> E (last xs) y))"
  by (induction E xs rule: is_walk.induct) auto

lemma is_walk_map_hexKey:
  "is_walk (key_edge (map snd (tracks s))) (map hexKey hs) = is_walk (segment_between s) hs"
proof (induction hs)
  case Nil
  show ?case by simp
next
  case (Cons a hs)
  then show ?case by (cases hs) (simp_all add: key_edge_hexKey)
qed

lemma is_walk_nth:
  "is_walk E xs = (\<forall>i. Suc i < length xs \<longrightarrow> E (xs ! i) (xs ! Suc i))"
proof (induction E xs rule: is_walk.induct)
  case (3 E x y zs)
  show ?case
  proof
    assume a: "is_walk E (x # y # zs)"
    show "\<forall>i. Suc i < length (x # y # zs) \<longrightarrow> E ((x # y # zs) ! i) ((x # y # zs) ! Suc i)"
    proof (intro allI impI)
      fix i assume "Suc i < length (x # y # zs)"
      with a 3 show "E ((x # y # zs) ! i) ((x # y # zs) ! Suc i)"
        by (cases i) auto
    qed
  next
    assume a: "\<forall>i. Suc i < length (x # y # zs) \<longrightarrow> E ((x # y # zs) ! i) ((x # y # zs) ! Suc i)"
    then have "Suc 0 < length (x # y # zs) \<longrightarrow> E ((x # y # zs) ! 0) ((x # y # zs) ! Suc 0)"
      by (rule spec)
    then have "E x y" by simp
    moreover have "\<forall>i. Suc i < length (y # zs) \<longrightarrow> E ((y # zs) ! i) ((y # zs) ! Suc i)"
    proof (intro allI impI)
      fix i assume "Suc i < length (y # zs)"
      then have "Suc (Suc i) < length (x # y # zs)" by simp
      with a have "E ((x # y # zs) ! Suc i) ((x # y # zs) ! Suc (Suc i))" by blast
      then show "E ((y # zs) ! i) ((y # zs) ! Suc i)" by simp
    qed
    ultimately show "is_walk E (x # y # zs)" using 3 by simp
  qed
qed simp_all

lemma bfs_loop_step:
  "current \<noteq> goal \<Longrightarrow>
   bfs_loop adj goal (current # queue) cf =
     bfs_loop adj goal (queue @ pushed (dom cf) (nbrs adj current))
       (\<lambda>x. if x \<in> set (pushed (dom cf) (nbrs adj current)) then Some current else cf x)"
proof (cases "map_of adj current")
  case None
  assume "current \<noteq> goal"
  with None show ?thesis by (simp add: nbrs_def)
next
  case (Some ns)
  assume ne: "current \<noteq> goal"
  have "snd (visit_neighbors current ns (queue, cf)) =
      (\<lambda>x. if x \<in> set (pushed (dom cf) ns) then Some current else cf x)"
    by (rule ext) (rule visit_neighbors_cameFrom)
  with ne Some show ?thesis
    by (simp add: nbrs_def visit_neighbors_queue)
qed

lemma bfs_inv_step:
  assumes inv: "bfs_inv E s l (v # Q) cf"
    and nb: "\<forall>w. E v w = (w \<in> set ns)"
    and valid: "set ns \<subseteq> range hexKey"
  defines "new \<equiv> pushed (dom cf) ns"
  defines "cf' \<equiv> (\<lambda>x. if x \<in> set new then Some v else cf x)"
  defines "l' \<equiv> (\<lambda>x. if x \<in> set new then l v + 1 else l x)"
  shows "bfs_inv E s l' (Q @ new) cf'"
proof -
  have N: "set new = set ns - dom cf" by (simp add: new_def set_pushed)
  have dn: "distinct new" by (simp add: new_def distinct_pushed)
  from inv have a: "cf s = Some []" "l s = 0" and b: "dom cf \<subseteq> range hexKey"
    and c: "v \<in> dom cf" "set Q \<subseteq> dom cf" and d: "v \<notin> set Q" "distinct Q"
    and e: "\<forall>x p. cf x = Some p \<and> x \<noteq> s \<longrightarrow> p \<in> dom cf \<and> E p x \<and> l x = l p + 1"
    and f: "\<forall>x\<in>set Q. l v \<le> l x" "sorted (map l Q)"
    and g: "\<forall>x\<in>set Q. \<forall>y\<in>set Q. l y \<le> l x + 1" "\<forall>y\<in>set Q. l y \<le> l v + 1"
    and h: "\<forall>u w. u \<in> dom cf \<and> u \<noteq> v \<and> u \<notin> set Q \<and> E u w \<longrightarrow> w \<in> dom cf \<and> l w \<le> l u + 1"
    and i: "\<forall>u. u \<in> dom cf \<and> u \<noteq> v \<and> u \<notin> set Q \<longrightarrow> l u \<le> l v"
           "\<forall>u x. u \<in> dom cf \<and> u \<noteq> v \<and> u \<notin> set Q \<and> x \<in> set Q \<longrightarrow> l u \<le> l x"
    by (auto simp: bfs_inv_def)
  have dom': "dom cf' = dom cf \<union> set new" by (auto simp: cf'_def domIff split: if_splits)
  have old_cf: "x \<in> dom cf \<Longrightarrow> cf' x = cf x" for x using N by (simp add: cf'_def)
  have old_l: "x \<in> dom cf \<Longrightarrow> l' x = l x" for x using N by (simp add: l'_def)
  have q_l: "x \<in> set Q \<Longrightarrow> l' x = l x" for x using c(2) old_l by auto
  have new_cf: "x \<in> set new \<Longrightarrow> cf' x = Some v" for x by (simp add: cf'_def)
  have new_l: "x \<in> set new \<Longrightarrow> l' x = l v + 1" for x by (simp add: l'_def)
  have sdom: "s \<in> dom cf" using a(1) by auto
  have 1: "cf' s = Some [] \<and> l' s = 0" using a sdom old_cf old_l by simp
  have 2: "dom cf' \<subseteq> range hexKey" using b valid N dom' by auto
  have 3: "set (Q @ new) \<subseteq> dom cf' \<and> distinct (Q @ new)"
    using c d dn N dom' by auto
  have 4: "\<forall>x p. cf' x = Some p \<and> x \<noteq> s \<longrightarrow> p \<in> dom cf' \<and> E p x \<and> l' x = l' p + 1"
  proof (intro allI impI)
    fix x p assume xp: "cf' x = Some p \<and> x \<noteq> s"
    show "p \<in> dom cf' \<and> E p x \<and> l' x = l' p + 1"
    proof (cases "x \<in> set new")
      case True
      with xp have "p = v" by (simp add: cf'_def)
      moreover from True N have "x \<in> set ns" by simp
      ultimately show ?thesis using c(1) dom' nb new_l [OF True] old_l [OF c(1)] by simp
    next
      case False
      with xp have "cf x = Some p" "x \<noteq> s" by (simp_all add: cf'_def)
      with e have "p \<in> dom cf" "E p x" "l x = l p + 1" by blast+
      moreover from \<open>cf x = Some p\<close> have "x \<in> dom cf" by auto
      ultimately show ?thesis using dom' old_l by simp
    qed
  qed
  have 5: "sorted (map l' (Q @ new))"
  proof -
    have m1: "map l' Q = map l Q" using c(2) old_l by (intro map_cong) auto
    have m2: "map l' new = replicate (length new) (l v + 1)"
      using new_l by (simp add: map_replicate_const [symmetric] cong: map_cong)
    have m3: "\<forall>x\<in>set Q. l x \<le> l v + 1" using g(2) by blast
    show ?thesis unfolding map_append m1 m2 using f(2) m3 by (auto simp: sorted_append)
  qed
  have 6: "\<forall>x\<in>set (Q @ new). \<forall>y\<in>set (Q @ new). l' y \<le> l' x + 1"
  proof (intro ballI)
    fix x y assume "x \<in> set (Q @ new)" "y \<in> set (Q @ new)"
    then consider "x \<in> set Q" "y \<in> set Q" | "x \<in> set Q" "y \<in> set new"
      | "x \<in> set new" "y \<in> set Q" | "x \<in> set new" "y \<in> set new" by auto
    then show "l' y \<le> l' x + 1"
    proof cases
      case 1
      with g(1) show ?thesis by (simp add: q_l)
    next
      case 2
      with f(1) show ?thesis by (simp add: q_l new_l)
    next
      case 3
      with g(2) have "l y \<le> l v + 1" by blast
      with 3 show ?thesis by (simp add: q_l new_l)
    next
      case 4
      with new_l show ?thesis by simp
    qed
  qed
  have 7: "\<forall>u w. u \<in> dom cf' \<and> u \<notin> set (Q @ new) \<and> E u w \<longrightarrow> w \<in> dom cf' \<and> l' w \<le> l' u + 1"
  proof (intro allI impI)
    fix u w assume uw: "u \<in> dom cf' \<and> u \<notin> set (Q @ new) \<and> E u w"
    then have u: "u \<in> dom cf" "u \<notin> set Q" "E u w" using dom' by auto
    show "w \<in> dom cf' \<and> l' w \<le> l' u + 1"
    proof (cases "u = v")
      case False
      with u h have "w \<in> dom cf" "l w \<le> l u + 1" by blast+
      then show ?thesis using dom' old_l u(1) by simp
    next
      case True
      with u(3) nb have wn: "w \<in> set ns" by simp
      show ?thesis
      proof (cases "w \<in> dom cf")
        case False
        with wn N have "w \<in> set new" by simp
        then show ?thesis using dom' new_l old_l [OF c(1)] True by simp
      next
        case wd: True
        have "l w \<le> l v + 1"
        proof (cases "w = v \<or> w \<in> set Q")
          case True
          then show ?thesis using g(2) by auto
        next
          case False
          with wd i(1) have "l w \<le> l v" by blast
          then show ?thesis by simp
        qed
        then show ?thesis using wd dom' old_l True c(1) by simp
      qed
    qed
  qed
  have 8: "\<forall>u x. u \<in> dom cf' \<and> u \<notin> set (Q @ new) \<and> x \<in> set (Q @ new) \<longrightarrow> l' u \<le> l' x"
  proof (intro allI impI)
    fix u x assume ux: "u \<in> dom cf' \<and> u \<notin> set (Q @ new) \<and> x \<in> set (Q @ new)"
    then have u: "u \<in> dom cf" "u \<notin> set Q" using dom' by auto
    have lu: "l u \<le> l v" using u i(1) by (cases "u = v") auto
    from ux consider "x \<in> set Q" | "x \<in> set new" by auto
    then show "l' u \<le> l' x"
    proof cases
      case 1
      then have "l u \<le> l x" using u i(2) f(1) by (cases "u = v") auto
      then show ?thesis using 1 u(1) by (simp add: q_l old_l)
    next
      case 2
      then show ?thesis using lu new_l old_l [OF u(1)] by simp
    qed
  qed
  from 1 2 3 4 5 6 7 8 show ?thesis unfolding bfs_inv_def by blast
qed

lemma bfs_inv_init:
  "bfs_inv E (hexKey a) (\<lambda>x. 0) [hexKey a] [hexKey a \<mapsto> []]"
  by (simp add: bfs_inv_def)

lemma bfs_loop_inv:
  assumes adj: "\<forall>a b. adj_edge adj a b \<longrightarrow> b \<in> range hexKey"
  shows "bfs_loop adj goal Q cf = Some cf' \<Longrightarrow> bfs_inv (adj_edge adj) s l Q cf \<Longrightarrow>
         \<exists>l' Q'. bfs_inv (adj_edge adj) s l' (goal # Q') cf'"
proof (induction "length Q + 2 * card {n \<in> adj_nodes adj. cf n = None}"
       arbitrary: Q cf l rule: less_induct)
  case less
  show ?case
  proof (cases Q)
    case Nil
    with less.prems(1) show ?thesis by simp
  next
    case (Cons v Q0)
    show ?thesis
    proof (cases "v = goal")
      case True
      with less.prems Cons show ?thesis by auto
    next
      case False
      let ?ns = "nbrs adj v"
      let ?new = "pushed (dom cf) ?ns"
      let ?cf = "\<lambda>x. if x \<in> set ?new then Some v else cf x"
      let ?l = "\<lambda>x. if x \<in> set ?new then l v + 1 else l x"
      have nb: "\<forall>w. adj_edge adj v w = (w \<in> set ?ns)" by (simp add: adj_edge_nbrs)
      with adj have valid: "set ?ns \<subseteq> range hexKey" by blast
      from less.prems(2) Cons have inv: "bfs_inv (adj_edge adj) s l (v # Q0) cf" by simp
      have inv': "bfs_inv (adj_edge adj) s ?l (Q0 @ ?new) ?cf"
        by (rule bfs_inv_step [OF inv nb valid])
      have eq: "bfs_loop adj goal (Q0 @ ?new) ?cf = Some cf'"
        using less.prems(1) unfolding Cons bfs_loop_step [OF False] .
      have sub: "set ?ns \<subseteq> adj_nodes adj"
      proof (cases "map_of adj v")
        case None
        then show ?thesis by (simp add: nbrs_def)
      next
        case (Some ns)
        then have "(v, ns) \<in> set adj" by (rule map_of_SomeD)
        then have "set ns \<subseteq> adj_nodes adj" by (auto simp: adj_nodes_def)
        with Some show ?thesis by (simp add: nbrs_def)
      qed
      let ?U = "{n \<in> adj_nodes adj. cf n = None}"
      let ?U' = "{n \<in> adj_nodes adj. ?cf n = None}"
      have fin: "finite ?U" using finite_adj_nodes by simp
      have "?U' = ?U - set ?new" by auto
      moreover have sn: "set ?new \<subseteq> ?U" using sub by (auto simp: set_pushed)
      ultimately have "card ?U' = card ?U - card (set ?new)"
        using fin by (simp add: card_Diff_subset)
      moreover have "card (set ?new) \<le> card ?U" using sn fin by (simp add: card_mono)
      moreover have "card (set ?new) = length ?new" by (simp add: distinct_card distinct_pushed)
      ultimately have dec: "length (Q0 @ ?new) + 2 * card ?U' < length Q + 2 * card ?U"
        using Cons by simp
      from less.hyps [OF dec eq inv'] show ?thesis .
    qed
  qed
qed

lemma bfs_inv_chain:
  assumes inv: "bfs_inv E (hexKey a) l Q cf"
  shows "v \<in> dom cf \<Longrightarrow> l v = n \<Longrightarrow>
    \<exists>hs. hs \<noteq> [] \<and> hd hs = a \<and> hexKey (last hs) = v \<and> is_walk E (map hexKey hs)
       \<and> length hs = n + 1 \<and> (\<forall>acc. reconstruct cf v acc = Some (acc @ rev hs))"
proof (induction n arbitrary: v)
  case 0
  from inv have e: "\<forall>x p. cf x = Some p \<and> x \<noteq> hexKey a \<longrightarrow> l x = l p + 1"
    and st: "cf (hexKey a) = Some []" by (auto simp: bfs_inv_def)
  from 0 e have v: "v = hexKey a" by (metis domD add_is_0 zero_neq_one)
  have "reconstruct cf (hexKey a) acc = Some (acc @ rev [a])" for acc
    by (subst reconstruct.simps, subst reconstruct.simps)
       (simp add: hexKey_nonempty parseHexKey_hexKey st)
  with v show ?case by (intro exI [of _ "[a]"]) simp
next
  case (Suc m)
  from inv have e: "\<forall>x p. cf x = Some p \<and> x \<noteq> hexKey a \<longrightarrow> p \<in> dom cf \<and> E p x \<and> l x = l p + 1"
    and l0: "l (hexKey a) = 0" and val: "dom cf \<subseteq> range hexKey" by (auto simp: bfs_inv_def)
  from Suc.prems l0 have ne: "v \<noteq> hexKey a" by auto
  from Suc.prems obtain p where p: "cf v = Some p" by auto
  with e ne have pp: "p \<in> dom cf" "E p v" "l v = l p + 1" by blast+
  with Suc.prems have "l p = m" by simp
  from Suc.IH [OF pp(1) this] obtain hs where hs: "hs \<noteq> []" "hd hs = a" "hexKey (last hs) = p"
    "is_walk E (map hexKey hs)" "length hs = m + 1"
    "\<forall>acc. reconstruct cf p acc = Some (acc @ rev hs)" by blast
  from Suc.prems val obtain h where h: "v = hexKey h" by auto
  have r: "reconstruct cf v acc = Some (acc @ rev (hs @ [h]))" for acc
    by (subst reconstruct.simps) (simp add: h hexKey_nonempty parseHexKey_hexKey p [unfolded h] hs(6))
  have w: "is_walk E (map hexKey (hs @ [h]))"
    using hs(1,3,4) pp(2) h by (simp add: is_walk_snoc last_map)
  show ?case
    using hs(1,2,5) h r w by (intro exI [of _ "hs @ [h]"]) simp
qed

lemma bfs_inv_minimal:
  assumes inv: "bfs_inv E s l (goal # Q) cf"
  shows "ws \<noteq> [] \<Longrightarrow> hd ws = s \<Longrightarrow> is_walk E ws \<Longrightarrow>
     last ws \<in> dom cf \<and> l (last ws) + 1 \<le> length ws \<or> l goal + 1 \<le> length ws"
proof (induction ws rule: rev_induct)
  case Nil
  then show ?case by simp
next
  case (snoc w ws)
  from inv have st: "cf s = Some []" "l s = 0"
    and f: "\<forall>x\<in>set (goal # Q). l goal \<le> l x"
    and h: "\<forall>u w. u \<in> dom cf \<and> u \<notin> set (goal # Q) \<and> E u w \<longrightarrow> w \<in> dom cf \<and> l w \<le> l u + 1"
    by (auto simp: bfs_inv_def)
  show ?case
  proof (cases "ws = []")
    case True
    with snoc.prems st show ?thesis by auto
  next
    case False
    with snoc.prems have "hd ws = s" "is_walk E ws" "E (last ws) w"
      by (auto simp: is_walk_snoc)
    with snoc.IH False consider
      "last ws \<in> dom cf" "l (last ws) + 1 \<le> length ws" | "l goal + 1 \<le> length ws" by blast
    then show ?thesis
    proof cases
      case 2
      then show ?thesis by simp
    next
      case 1
      show ?thesis
      proof (cases "last ws \<in> set (goal # Q)")
        case True
        with f have "l goal \<le> l (last ws)" by blast
        with 1 show ?thesis by simp
      next
        case False
        with 1(1) h \<open>E (last ws) w\<close> have "w \<in> dom cf" "l w \<le> l (last ws) + 1" by blast+
        with 1 show ?thesis by simp
      qed
    qed
  qed
qed

lemma findTrackPath_same: "findTrackPath s a a = Some (Path [a])"
  by (simp add: findTrackPath_def)

lemma findTrackPath_no_track:
  assumes "a \<noteq> b" "\<forall>t\<in>set (map snd (tracks s)). seg_from t \<noteq> a \<and> seg_to t \<noteq> a"
  shows "findTrackPath s a b = Some NoPath"
proof -
  from assms(2) have "\<not> key_endpoint (map snd (tracks s)) (hexKey a)"
    unfolding key_endpoint_hexKey by (auto simp: list_ex_iff)
  then have "\<not> map_has (build_adj (tracks s)) (hexKey a)" by (simp add: map_has_build_adj)
  with assms(1) show ?thesis by (simp add: findTrackPath_def Let_def hexKey_inj)
qed

lemma findTrackPath_found:
  assumes ne: "a \<noteq> b"
  shows "findTrackPath s a b = Some NoPath
     \<or> (\<exists>hs. findTrackPath s a b = Some (Path hs) \<and> hs \<noteq> [] \<and> hd hs = a \<and> last hs = b
           \<and> is_walk (segment_between s) hs
           \<and> (\<forall>p'. p' \<noteq> [] \<and> hd p' = a \<and> last p' = b \<and> is_walk (segment_between s) p'
                 \<longrightarrow> length hs \<le> length p'))"
proof -
  let ?adj = "build_adj (tracks s)"
  let ?E = "adj_edge ?adj"
  let ?r = "bfs_loop ?adj (hexKey b) [hexKey a] [hexKey a \<mapsto> []]"
  have E: "?E = key_edge (map snd (tracks s))" by (intro ext) (rule adj_edge_build_adj)
  from ne have kne: "hexKey a \<noteq> hexKey b" by (simp add: hexKey_inj)
  show ?thesis
  proof (cases "map_has ?adj (hexKey a)")
    case False
    with kne show ?thesis by (simp add: findTrackPath_def Let_def)
  next
    case has: True
    show ?thesis
    proof (cases ?r)
      case None
      with kne has show ?thesis by (simp add: findTrackPath_def Let_def)
    next
      case (Some cf')
      have valid: "\<forall>x y. ?E x y \<longrightarrow> y \<in> range hexKey"
        unfolding E using key_edge_valid by blast
      from bfs_loop_inv [OF valid Some bfs_inv_init]
      obtain l' Q' where inv: "bfs_inv ?E (hexKey a) l' (hexKey b # Q') cf'" by blast
      then have gd: "hexKey b \<in> dom cf'" by (simp add: bfs_inv_def)
      from bfs_inv_chain [OF inv gd refl] obtain hs where hs:
        "hs \<noteq> []" "hd hs = a" "hexKey (last hs) = hexKey b" "is_walk ?E (map hexKey hs)"
        "length hs = l' (hexKey b) + 1" "\<forall>acc. reconstruct cf' (hexKey b) acc = Some (acc @ rev hs)"
        by blast
      from hs(6) have "reconstruct cf' (hexKey b) [] = Some (rev hs)" by simp
      with kne has Some have res: "findTrackPath s a b = Some (Path hs)"
        by (simp add: findTrackPath_def Let_def)
      from hs(3) have lb: "last hs = b" by (simp add: hexKey_inj)
      from hs(4) have wk: "is_walk (segment_between s) hs"
        unfolding E is_walk_map_hexKey .
      have mn: "length hs \<le> length p'"
        if p': "p' \<noteq> [] \<and> hd p' = a \<and> last p' = b \<and> is_walk (segment_between s) p'" for p'
      proof -
        let ?ws = "map hexKey p'"
        from p' have 1: "?ws \<noteq> []" "hd ?ws = hexKey a" "last ?ws = hexKey b"
          by (simp_all add: hd_map last_map)
        from p' have 2: "is_walk ?E ?ws" unfolding E is_walk_map_hexKey by simp
        from bfs_inv_minimal [OF inv 1(1,2) 2] 1(3) have "l' (hexKey b) + 1 \<le> length ?ws"
          by auto
        with hs(5) show ?thesis by simp
      qed
      from res hs(1,2) lb wk mn show ?thesis by blast
    qed
  qed
qed

lemma findTrackPath_total: "\<exists>res. findTrackPath s a b = Some res"
  using findTrackPath_same [of s a] findTrackPath_found [of a b s] by (cases "a = b") auto

text \<open>
  Claim C9. \<open>findTrackPath\<close> always returns. For equal hexes it returns the one-element path.
  For different hexes it returns \<open>null\<close> when the start is an endpoint of no segment (the
  equality test comes first in the code, so this case is read for a start different from
  the goal). A returned path starts at \<open>from\<close>, ends at \<open>to\<close>, every consecutive pair of its
  hexes is joined by a segment of the state's track map (a built one when all stored
  segments are built, as every segment \<open>buildTrack\<close> stores is), and no sequence of hexes
  from \<open>from\<close> to \<open>to\<close> along segments has fewer edges.
\<close>

theorem findTrackPath_shortest_track_path:
  "(a = b \<longrightarrow> findTrackPath s a b = Some (Path [a]))
   \<and> (a \<noteq> b \<and> (\<forall>t\<in>set (map snd (tracks s)). seg_from t \<noteq> a \<and> seg_to t \<noteq> a)
        \<longrightarrow> findTrackPath s a b = Some NoPath)
   \<and> (\<exists>res. findTrackPath s a b = Some res)
   \<and> (\<forall>p. findTrackPath s a b = Some (Path p) \<longrightarrow>
         p \<noteq> [] \<and> hd p = a \<and> last p = b
         \<and> (\<forall>i. Suc i < length p \<longrightarrow>
               (\<exists>t\<in>set (map snd (tracks s)).
                   (seg_from t = p ! i \<and> seg_to t = p ! Suc i
                    \<or> seg_from t = p ! Suc i \<and> seg_to t = p ! i)
                   \<and> ((\<forall>u\<in>set (map snd (tracks s)). built u) \<longrightarrow> built t)))
         \<and> (\<forall>p'. p' \<noteq> [] \<and> hd p' = a \<and> last p' = b \<and> is_walk (segment_between s) p'
               \<longrightarrow> length p - 1 \<le> length p' - 1))"
proof (intro conjI allI impI)
  assume "a = b"
  then show "findTrackPath s a b = Some (Path [a])" by (simp add: findTrackPath_same)
next
  assume "a \<noteq> b \<and> (\<forall>t\<in>set (map snd (tracks s)). seg_from t \<noteq> a \<and> seg_to t \<noteq> a)"
  then show "findTrackPath s a b = Some NoPath" by (simp add: findTrackPath_no_track)
next
  show "\<exists>res. findTrackPath s a b = Some res" by (rule findTrackPath_total)
next
  fix p assume p: "findTrackPath s a b = Some (Path p)"
  have props: "p \<noteq> [] \<and> hd p = a \<and> last p = b \<and> is_walk (segment_between s) p
      \<and> (\<forall>p'. p' \<noteq> [] \<and> hd p' = a \<and> last p' = b \<and> is_walk (segment_between s) p'
               \<longrightarrow> length p \<le> length p')"
  proof (cases "a = b")
    case True
    with p have "p = [a]" by (simp add: findTrackPath_same)
    with True show ?thesis by (auto simp: Suc_le_eq)
  next
    case False
    from findTrackPath_found [OF False, of s] p show ?thesis by auto
  qed
  then show "p \<noteq> []" "hd p = a" "last p = b" by blast+
  {
    fix i assume i: "Suc i < length p"
    from props have "is_walk (segment_between s) p" by blast
    with i have "segment_between s (p ! i) (p ! Suc i)" by (simp add: is_walk_nth)
    then show "\<exists>t\<in>set (map snd (tracks s)).
                   (seg_from t = p ! i \<and> seg_to t = p ! Suc i
                    \<or> seg_from t = p ! Suc i \<and> seg_to t = p ! i)
                   \<and> ((\<forall>u\<in>set (map snd (tracks s)). built u) \<longrightarrow> built t)"
      unfolding segment_between_def list_ex_iff by blast
  }
  {
    fix p' assume "p' \<noteq> [] \<and> hd p' = a \<and> last p' = b \<and> is_walk (segment_between s) p'"
    with props have "length p \<le> length p'" by blast
    then show "length p - 1 \<le> length p' - 1" by simp
  }
qed

text \<open>
  The theorem on the example network, the segments (0,0)-(1,0) and (1,0)-(2,0): the path
  from (0,0) to (2,0) runs over (1,0) along the two segments; from (2,0) to itself it is the
  single hex; and in the state without tracks there is none.
\<close>

theorem findTrackPath_shortest_track_path_witness:
  "findTrackPath example_network hex00 hex20 = Some (Path [hex00, hex10, hex20])
   \<and> segment_between example_network hex00 hex10
   \<and> segment_between example_network hex10 hex20
   \<and> findTrackPath example_network hex20 hex20 = Some (Path [hex20])
   \<and> hex00 \<noteq> hex20 \<and> tracks example_state = []
   \<and> findTrackPath example_state hex00 hex20 = Some NoPath"
proof -
  have e: "findTrackPath example_network hex00 hex20 = Some (Path [hex00, hex10, hex20])"
    by code_simp
  note inst = findTrackPath_shortest_track_path [of hex00 hex20 example_network]
  from inst e have pairs: "\<forall>i. Suc i < length [hex00, hex10, hex20] \<longrightarrow>
      (\<exists>t\<in>set (map snd (tracks example_network)).
          (seg_from t = [hex00, hex10, hex20] ! i \<and> seg_to t = [hex00, hex10, hex20] ! Suc i
           \<or> seg_from t = [hex00, hex10, hex20] ! Suc i \<and> seg_to t = [hex00, hex10, hex20] ! i)
          \<and> ((\<forall>u\<in>set (map snd (tracks example_network)). built u) \<longrightarrow> built t))"
    by blast
  from pairs [rule_format, of 0] have s1: "segment_between example_network hex00 hex10"
    unfolding segment_between_def list_ex_iff by auto
  from pairs [rule_format, of 1] have s2: "segment_between example_network hex10 hex20"
    unfolding segment_between_def list_ex_iff by auto
  from findTrackPath_shortest_track_path [of hex20 hex20 example_network]
  have same: "findTrackPath example_network hex20 hex20 = Some (Path [hex20])" by blast
  have ne: "hex00 \<noteq> hex20" by (simp add: hex00_def hex20_def)
  have nt: "tracks example_state = []" by (simp add: example_state_def createGameState_def)
  from findTrackPath_shortest_track_path [of hex00 hex20 example_state] ne nt
  have none: "findTrackPath example_state hex00 hex20 = Some NoPath" by simp
  from e s1 s2 same ne nt none show ?thesis by blast
qed

subsection \<open>Train position invariant\<close>

lemma advanced_nonneg:
  assumes "0 \<le> progress t" "0 \<le> train_speed t" "0 \<le> gs"
  shows "0 \<le> advanced gs t"
proof -
  from assms have "0 \<le> dbl (train_speed t * gs)" by (intro dbl_nonneg) simp
  with assms(1) have "0 \<le> progress t + dbl (train_speed t * gs)" by simp
  then show ?thesis unfolding advanced_def by (rule dbl_nonneg)
qed

lemma gameSpeed_nonneg: "0 \<le> delta \<Longrightarrow> 0 \<le> dbl (speedMultipliers gsp * delta)"
  by (cases gsp) (simp_all add: dbl_nonneg)

lemma updateTrains_invariant:
  assumes i: "i < length (trains s)"
    and inv: "2 \<le> length (route (trains s ! i))" "0 \<le> progress (trains s ! i)"
      "progress (trains s ! i) < 1"
      "currentSegment (trains s ! i) \<le> length (route (trains s ! i)) - 2"
    and nn: "0 \<le> train_speed (trains s ! i)" "0 \<le> delta"
  shows "2 \<le> length (route (trains (fst (updateTrains rnd k s delta)) ! i))
     \<and> 0 \<le> progress (trains (fst (updateTrains rnd k s delta)) ! i)
     \<and> progress (trains (fst (updateTrains rnd k s delta)) ! i) < 1
     \<and> currentSegment (trains (fst (updateTrains rnd k s delta)) ! i)
         \<le> length (route (trains (fst (updateTrains rnd k s delta)) ! i)) - 2
     \<and> 0 \<le> train_speed (trains (fst (updateTrains rnd k s delta)) ! i)"
proof -
  have "0 \<le> advanced (dbl (speedMultipliers (game_speed s) * delta)) (trains s ! i)"
    using inv(2) nn(1) gameSpeed_nonneg [OF nn(2)] by (rule advanced_nonneg)
  with inv nn show ?thesis
    by (auto simp: updateTrains_nth [OF i] moved_def leg_complete_def crossing_def)
qed

lemma updateTrains_one_segment:
  assumes i: "i < length (trains s)"
  shows "(route (trains (fst (updateTrains rnd k s delta)) ! i) = route (trains s ! i)
        \<and> currentSegment (trains (fst (updateTrains rnd k s delta)) ! i) = currentSegment (trains s ! i)
        \<and> progress (trains (fst (updateTrains rnd k s delta)) ! i) < 1
      \<or> route (trains (fst (updateTrains rnd k s delta)) ! i) = route (trains s ! i)
        \<and> currentSegment (trains (fst (updateTrains rnd k s delta)) ! i) = currentSegment (trains s ! i) + 1
        \<and> progress (trains (fst (updateTrains rnd k s delta)) ! i) = 0
      \<or> route (trains (fst (updateTrains rnd k s delta)) ! i) = rev (route (trains s ! i))
        \<and> currentSegment (trains (fst (updateTrains rnd k s delta)) ! i) = 0
        \<and> progress (trains (fst (updateTrains rnd k s delta)) ! i) = 0
      \<or> length (route (trains s ! i)) < 2
        \<and> trains (fst (updateTrains rnd k s delta)) ! i = trains s ! i)
     \<and> (2 \<le> length (route (trains s ! i))
         \<and> 1 \<le> dbl (progress (trains s ! i)
                   + dbl (train_speed (trains s ! i) * dbl (speedMultipliers (game_speed s) * delta)))
        \<longrightarrow> progress (trains (fst (updateTrains rnd k s delta)) ! i) = 0)"
  by (auto simp: updateTrains_nth [OF i] moved_def leg_complete_def crossing_def advanced_def
      leg_credit_def delivery_credit_def delivers_def)

lemma catalog_speed_bonus_nonneg:
  "t \<in> set TECH_TREE \<Longrightarrow> e \<in> set (effects t) \<Longrightarrow>
     0 \<le> (case e of SpeedBonus v \<Rightarrow> v | _ \<Rightarrow> 0)"
  unfolding TECH_TREE_def mk_tech_def by auto

lemma getSpeedBonus_nonneg: "0 \<le> getSpeedBonus rs"
proof -
  have "\<forall>e\<in>set (unlocked_effects rs). 0 \<le> (case e of SpeedBonus v \<Rightarrow> v | _ \<Rightarrow> 0)"
  proof
    fix e assume "e \<in> set (unlocked_effects rs)"
    then obtain i t where "getTech i = Some t" "e \<in> set (effects t)"
      by (auto simp: unlocked_effects_def split: option.splits) metis
    then show "0 \<le> (case e of SpeedBonus v \<Rightarrow> v | _ \<Rightarrow> 0)"
      using getTech_Some catalog_speed_bonus_nonneg by blast
  qed
  then show ?thesis
    unfolding getSpeedBonus_def by (intro sum_list_nonneg) auto
qed

lemma cfg_speed_pos: "0 < cfg_speed (TRAIN_CONFIGS ty)"
  by (cases ty) (simp_all add: dbl_pos)

lemma buyTrain_new_train:
  assumes "buyTrain now s ty rs = Some (Some t, s')"
  shows "progress t = 0 \<and> currentSegment t = 0 \<and> 0 < train_speed t \<and> revenue t = 0
       \<and> trains s' = trains s @ [t]"
proof -
  have "0 \<le> real_of_int (getSpeedBonus (research s)) / 100"
    using getSpeedBonus_nonneg [of "research s"] by simp
  then have "0 \<le> dbl (real_of_int (getSpeedBonus (research s)) / 100)" by (rule dbl_nonneg)
  then have "0 < 1 + dbl (real_of_int (getSpeedBonus (research s)) / 100)" by simp
  then have "0 < dbl (1 + dbl (real_of_int (getSpeedBonus (research s)) / 100))" by (rule dbl_pos)
  with cfg_speed_pos [of ty]
  have "0 < cfg_speed (TRAIN_CONFIGS ty)
            * dbl (1 + dbl (real_of_int (getSpeedBonus (research s)) / 100))"
    by (rule mult_pos_pos)
  then have sp: "0 < dbl (cfg_speed (TRAIN_CONFIGS ty)
            * dbl (1 + dbl (real_of_int (getSpeedBonus (research s)) / 100)))"
    by (rule dbl_pos)
  from assms show ?thesis
    using sp
    by (auto simp: buyTrain_def Let_def addNotification_fields
        split: if_splits option.splits)
qed

lemma resolve_route_total: "\<exists>res. resolve_route s rs i acc = Some res"
proof (induction s rs i acc rule: resolve_route.induct)
  case (1 state a b rest i fullRoute)
  from findTrackPath_total [of state a b] obtain res where res: "findTrackPath state a b = Some res"
    by blast
  show ?case
  proof (cases res)
    case NoPath
    with res show ?thesis by simp
  next
    case (Path seg)
    with res 1 show ?thesis by simp
  qed
qed simp_all

lemma buyTrain_total: "\<exists>res. buyTrain now s ty rs = Some res"
  using resolve_route_total [of s rs 0 "[]"]
  by (auto simp: buyTrain_def Let_def split: option.splits)

text \<open>
  Claim C10. A train that \<open>buyTrain\<close> returns starts with progress 0 on segment 0 at a
  positive speed. For the train at position \<open>i\<close> with a route of at least two hexes, a call
  of \<open>updateTrains\<close> with a non-negative delta preserves: the progress lies in \<open>[0, 1)\<close>, the
  segment is at most \<open>route.length - 2\<close> (it is an index, so at least 0), the route keeps
  its length and the speed stays non-negative. Whatever the delta, one call leaves the
  train on its segment, moves it to the next segment, or wraps it to segment 0 of the
  reversed route; whenever the progress the code computes (the double sum of the progress
  and the double product of speed, multiplier and delta) reaches 1 it is reset to exactly
  0, so a large delta never moves a train by more than one segment.
\<close>

theorem updateTrains_position_invariant:
  "(i < length (trains s) \<and> 2 \<le> length (route (trains s ! i))
      \<and> 0 \<le> progress (trains s ! i) \<and> progress (trains s ! i) < 1
      \<and> currentSegment (trains s ! i) \<le> length (route (trains s ! i)) - 2
      \<and> 0 \<le> train_speed (trains s ! i) \<and> 0 \<le> delta
    \<longrightarrow> 2 \<le> length (route (trains (fst (updateTrains rnd k s delta)) ! i))
      \<and> 0 \<le> progress (trains (fst (updateTrains rnd k s delta)) ! i)
      \<and> progress (trains (fst (updateTrains rnd k s delta)) ! i) < 1
      \<and> currentSegment (trains (fst (updateTrains rnd k s delta)) ! i)
          \<le> length (route (trains (fst (updateTrains rnd k s delta)) ! i)) - 2
      \<and> 0 \<le> train_speed (trains (fst (updateTrains rnd k s delta)) ! i))
   \<and> (i < length (trains s)
    \<longrightarrow> (route (trains (fst (updateTrains rnd k s delta)) ! i) = route (trains s ! i)
          \<and> currentSegment (trains (fst (updateTrains rnd k s delta)) ! i)
              = currentSegment (trains s ! i)
          \<and> progress (trains (fst (updateTrains rnd k s delta)) ! i) < 1
        \<or> route (trains (fst (updateTrains rnd k s delta)) ! i) = route (trains s ! i)
          \<and> currentSegment (trains (fst (updateTrains rnd k s delta)) ! i)
              = currentSegment (trains s ! i) + 1
          \<and> progress (trains (fst (updateTrains rnd k s delta)) ! i) = 0
        \<or> route (trains (fst (updateTrains rnd k s delta)) ! i) = rev (route (trains s ! i))
          \<and> currentSegment (trains (fst (updateTrains rnd k s delta)) ! i) = 0
          \<and> progress (trains (fst (updateTrains rnd k s delta)) ! i) = 0
        \<or> length (route (trains s ! i)) < 2
          \<and> trains (fst (updateTrains rnd k s delta)) ! i = trains s ! i)
      \<and> (2 \<le> length (route (trains s ! i))
          \<and> 1 \<le> dbl (progress (trains s ! i)
                    + dbl (train_speed (trains s ! i)
                           * dbl (speedMultipliers (game_speed s) * delta)))
         \<longrightarrow> progress (trains (fst (updateTrains rnd k s delta)) ! i) = 0))
   \<and> (buyTrain now s0 ty stops = Some (Some t, s1)
    \<longrightarrow> progress t = 0 \<and> currentSegment t = 0 \<and> 0 < train_speed t
      \<and> trains s1 = trains s0 @ [t])"
  using updateTrains_invariant [of i s delta rnd k] updateTrains_one_segment [of i s rnd k delta]
    buyTrain_new_train [of now s0 ty stops t s1]
  by blast

text \<open>
  The theorem at a hyperloop train (speed 0.8) at the start of the three-hex route
  (0,0), (1,0), (2,0), at game speed 3 (multiplier 8) with delta 1000: the progress computed
  is 6400, and after the call the train is on segment 1 with progress 0. Buying a freight
  train between (0,0) and (2,0) on the example network succeeds.
\<close>

theorem updateTrains_position_invariant_witness:
  "length (route (example_train Hyperloop [hex00, hex10, hex20])) = 3
   \<and> dbl (progress (example_train Hyperloop [hex00, hex10, hex20])
          + dbl (train_speed (example_train Hyperloop [hex00, hex10, hex20])
                 * dbl (speedMultipliers GS3 * 1000))) = 6400
   \<and> currentSegment (trains (fst (updateTrains (const_draw 0) 0
        (example_state\<lparr>trains := [example_train Hyperloop [hex00, hex10, hex20]],
                         game_speed := GS3\<rparr>) 1000)) ! 0) = 1
   \<and> progress (trains (fst (updateTrains (const_draw 0) 0
        (example_state\<lparr>trains := [example_train Hyperloop [hex00, hex10, hex20]],
                         game_speed := GS3\<rparr>) 1000)) ! 0) = 0
   \<and> buyTrain 0 example_network Freight [hex00, hex20] \<noteq> None
   \<and> map_option (map_option progress \<circ> fst) (buyTrain 0 example_network Freight [hex00, hex20])
       = Some (Some 0)"
proof -
  let ?t = "example_train Hyperloop [hex00, hex10, hex20]"
  let ?s = "example_state\<lparr>trains := [?t], game_speed := GS3\<rparr>"
  let ?t' = "trains (fst (updateTrains (const_draw 0) 0 ?s 1000)) ! 0"
  have tf: "route ?t = [hex00, hex10, hex20]" "progress ?t = 0" "currentSegment ?t = 0"
    by (simp_all add: example_train_def)
  have sp: "0 \<le> train_speed ?t" using cfg_speed_pos [of Hyperloop] by (simp add: example_train_def)
  have sf: "trains ?s = [?t]" "game_speed ?s = GS3" by simp_all
  have r1: "dbl (progress ?t + dbl (train_speed ?t * dbl (speedMultipliers GS3 * 1000))) = 6400"
    by code_simp
  have h0: "0 < length (trains ?s)" by simp
  have h1: "2 \<le> length (route (trains ?s ! 0))
      \<and> 0 \<le> progress (trains ?s ! 0) \<and> progress (trains ?s ! 0) < 1
      \<and> currentSegment (trains ?s ! 0) \<le> length (route (trains ?s ! 0)) - 2
      \<and> 0 \<le> train_speed (trains ?s ! 0) \<and> (0::real) \<le> 1000"
    using sp by (simp add: tf)
  have h2: "2 \<le> length (route (trains ?s ! 0))
          \<and> 1 \<le> dbl (progress (trains ?s ! 0)
                    + dbl (train_speed (trains ?s ! 0)
                           * dbl (speedMultipliers (game_speed ?s) * 1000)))"
    using r1 by (simp add: tf)
  note inst = updateTrains_position_invariant
    [of 0 ?s 1000 "const_draw 0" 0 0 example_network Freight "[hex00, hex20]"]
  from inst h0 h1 have le: "currentSegment ?t' \<le> length (route ?t') - 2"
    and len: "2 \<le> length (route ?t')" by blast+
  from inst h0 h2 have p0: "progress ?t' = 0" by blast
  have c1: "currentSegment ?t' = 1" by code_simp
  have r0: "length (route ?t) = 3" by (simp add: tf)
  obtain res where res: "buyTrain 0 example_network Freight [hex00, hex20] = Some res"
    using buyTrain_total by blast
  have ok: "map_option (\<lambda>r. fst r \<noteq> None) (buyTrain 0 example_network Freight [hex00, hex20])
      = Some True" by code_simp
  with res obtain t s1 where ts: "res = (Some t, s1)" by (cases res) auto
  from updateTrains_position_invariant
    [of 0 ?s 1000 "const_draw 0" 0 0 example_network Freight "[hex00, hex20]" t s1] res ts
  have "progress t = 0" by blast
  with res ts have b1: "map_option (map_option progress \<circ> fst)
      (buyTrain 0 example_network Freight [hex00, hex20]) = Some (Some 0)" by simp
  from res have b0: "buyTrain 0 example_network Freight [hex00, hex20] \<noteq> None" by simp
  from r0 r1 c1 p0 b0 b1 show ?thesis by blast
qed

text \<open>
  Two values that the rounding decides. A train at progress 0.07071716877633276 and speed
  0.3, at game speed 2 (multiplier 3) with delta 1.032536479137408, is advanced to the double
  0.9999999999999999 and does not cross, although the exact sum of the same numbers is above
  1. A bullet train (capacity 90) bought with Neural Networks researched (capacity bonus 40)
  has capacity 125, the floor of the double product 125.99999999999999.
\<close>

lemma advanced_rounding_example:
  "advanced (dbl (speedMultipliers GS2 * dbl 1.032536479137408))
     ((example_train Mail [hex10, hex20])\<lparr>progress := dbl 0.07071716877633276\<rparr>) = 1 - 1 / 2 ^ 53
   \<and> 1 < dbl 0.07071716877633276 + dbl 0.3 * (3 * dbl 1.032536479137408)"
  by code_simp

lemma buyTrain_bullet_capacity_example:
  "map_option (map_option capacity \<circ> fst) (buyTrain 0 example_maglev Bullet [hex00, hex20])
     = Some (Some 125)"
  by code_simp

end
